(* ===== verification/Prelude.thy ===== *)
theory Prelude
  imports "HOL-Library.Word" "HOL-Library.Monad_Syntax"
begin

text \<open>
  Shared vocabulary of the development: the C integer types as fixed-width
  words, byte order, memory accesses on packet buffers that may fault, BPF
  array maps, C string helpers, and the generic facts on lists, options and
  words that every component uses.

  A packet buffer is a list of bytes. A load or store outside of the buffer is
  the value None, so that the absence of out-of-bounds accesses is a statement
  about the model and not a convention. All multi-byte accesses are
  little-endian, which is the byte order of the hosts the BPF object is built
  for (the QUIC classifier even spells the port 443 as the literal 0xBB01).
\<close>

unbundle bit_operations_syntax

type_synonym u8 = "8 word"
type_synonym u16 = "16 word"
type_synonym u32 = "32 word"
type_synonym u64 = "64 word"
type_synonym buf = "u8 list"

named_theorems mem_simps "evaluation of in-bounds loads and stores"

section \<open>Byte order\<close>

definition le16 :: "u8 \<Rightarrow> u8 \<Rightarrow> u16" where
  "le16 b0 b1 = ucast b0 OR push_bit 8 (ucast b1)"

definition le32 :: "u8 \<Rightarrow> u8 \<Rightarrow> u8 \<Rightarrow> u8 \<Rightarrow> u32" where
  "le32 b0 b1 b2 b3 =
     ucast b0 OR push_bit 8 (ucast b1) OR push_bit 16 (ucast b2) OR push_bit 24 (ucast b3)"

definition byte_of16 :: "nat \<Rightarrow> u16 \<Rightarrow> u8" where
  "byte_of16 k w = ucast (drop_bit (8 * k) w)"

definition byte_of32 :: "nat \<Rightarrow> u32 \<Rightarrow> u8" where
  "byte_of32 k w = ucast (drop_bit (8 * k) w)"

definition htons :: "u16 \<Rightarrow> u16" where
  "htons w = le16 (byte_of16 1 w) (byte_of16 0 w)"

definition htonl :: "u32 \<Rightarrow> u32" where
  "htonl w = le32 (byte_of32 3 w) (byte_of32 2 w) (byte_of32 1 w) (byte_of32 0 w)"

abbreviation ntohs :: "u16 \<Rightarrow> u16" where "ntohs \<equiv> htons"
abbreviation ntohl :: "u32 \<Rightarrow> u32" where "ntohl \<equiv> htonl"

lemma bit_u8_ge [simp]: "8 \<le> n \<Longrightarrow> \<not> bit (b::u8) n"
  using bit_imp_le_length [of b n] by fastforce

lemma byte_of16_le16 [simp]:
  "byte_of16 0 (le16 a b) = a" "byte_of16 (Suc 0) (le16 a b) = b"
  by (auto intro!: bit_word_eqI simp: byte_of16_def le16_def bit_simps)

lemma le16_byte_of16 [simp]: "le16 (byte_of16 0 w) (byte_of16 (Suc 0) w) = w"
  by (rule bit_word_eqI) (auto simp: byte_of16_def le16_def bit_simps)

lemma byte_of32_le32 [simp]:
  "byte_of32 0 (le32 a b c d) = a" "byte_of32 (Suc 0) (le32 a b c d) = b"
  "byte_of32 2 (le32 a b c d) = c" "byte_of32 3 (le32 a b c d) = d"
  by (auto intro!: bit_word_eqI simp: byte_of32_def le32_def bit_simps)

lemma le32_byte_of32 [simp]:
  "le32 (byte_of32 0 w) (byte_of32 (Suc 0) w) (byte_of32 2 w) (byte_of32 3 w) = w"
  by (rule bit_word_eqI) (auto simp: byte_of32_def le32_def bit_simps less_diff_conv2 le_diff_conv
      split: nat_diff_split)

lemma htons_htons [simp]: "htons (htons w) = w"
  by (simp add: htons_def)

lemma htonl_htonl [simp]: "htonl (htonl w) = w"
  by (simp add: htonl_def)

lemma htons_eq_iff [simp]: "htons a = htons b \<longleftrightarrow> a = b"
  by (metis htons_htons)

lemma htonl_eq_iff [simp]: "htonl a = htonl b \<longleftrightarrow> a = b"
  by (metis htonl_htonl)

lemma le16_eq_iff [simp]: "le16 a b = le16 c d \<longleftrightarrow> a = c \<and> b = d"
  by (metis byte_of16_le16)

lemma le32_eq_iff [simp]: "le32 a b c d = le32 a' b' c' d' \<longleftrightarrow> a = a' \<and> b = b' \<and> c = c' \<and> d = d'"
  by (metis byte_of32_le32)

lemma unat_byte [simp]: "unat (b::u8) < 256"
  using unsigned_less [of b] by simp

lemma unat_u16_less: "unat (w::u16) < 65536"
  using unsigned_less [of w] by simp

lemma unat_u32_less: "unat (w::u32) < 4294967296"
  using unsigned_less [of w] by simp

lemma unat_u64_less: "unat (w::u64) < 18446744073709551616"
  using unsigned_less [of w] by simp

lemma unat_le16: "unat (le16 a b) = unat a + 256 * unat b"
proof -
  have "le16 a b = ucast a + push_bit 8 (ucast b)"
    unfolding le16_def by (rule disjunctive_add [symmetric]) (auto simp: bit_simps)
  then show ?thesis
    using unat_byte [of a] unat_byte [of b] by (simp add: push_bit_eq_mult unat_word_ariths
        unsigned_ucast_eq take_bit_eq_mod mult.commute del: unat_byte)
qed

lemma unat_le32: "unat (le32 a b c d) = unat (le16 a b) + 65536 * unat (le16 c d)"
proof -
  have "le32 a b c d = ucast (le16 a b) + push_bit 16 (ucast (le16 c d))"
    by (subst disjunctive_add)
      (auto simp: le32_def le16_def bit_simps intro!: bit_word_eqI)
  then show ?thesis
    using unat_u16_less [of "le16 a b"] unat_u16_less [of "le16 c d"]
    by (simp add: push_bit_eq_mult unat_word_ariths unsigned_ucast_eq take_bit_eq_mod mult.commute)
qed

section \<open>Buffer accesses\<close>

lemma nth_upd: "xs[i := x] ! j = (if i = j \<and> j < length xs then x else xs ! j)"
  by (cases "i < length xs") (auto simp: list_update_beyond)

definition ld8 :: "buf \<Rightarrow> nat \<Rightarrow> u8 option" where
  "ld8 p i = (if i < length p then Some (p ! i) else None)"

definition ld16 :: "buf \<Rightarrow> nat \<Rightarrow> u16 option" where
  "ld16 p i = (if i + 2 \<le> length p then Some (le16 (p ! i) (p ! (i + 1))) else None)"

definition ld32 :: "buf \<Rightarrow> nat \<Rightarrow> u32 option" where
  "ld32 p i = (if i + 4 \<le> length p
     then Some (le32 (p ! i) (p ! (i + 1)) (p ! (i + 2)) (p ! (i + 3))) else None)"

definition st8 :: "buf \<Rightarrow> nat \<Rightarrow> u8 \<Rightarrow> buf option" where
  "st8 p i b = (if i < length p then Some (p[i := b]) else None)"

definition st16 :: "buf \<Rightarrow> nat \<Rightarrow> u16 \<Rightarrow> buf option" where
  "st16 p i w = (if i + 2 \<le> length p
     then Some (p[i := byte_of16 0 w, i + 1 := byte_of16 1 w]) else None)"

definition st32 :: "buf \<Rightarrow> nat \<Rightarrow> u32 \<Rightarrow> buf option" where
  "st32 p i w = (if i + 4 \<le> length p
     then Some (p[i := byte_of32 0 w, i + 1 := byte_of32 1 w,
                  i + 2 := byte_of32 2 w, i + 3 := byte_of32 3 w]) else None)"

text \<open>A byte-wise copy out of a buffer and into a buffer (\<open>memcpy\<close>).\<close>

definition ldn :: "buf \<Rightarrow> nat \<Rightarrow> nat \<Rightarrow> buf option" where
  "ldn p i n = (if i + n \<le> length p then Some (take n (drop i p)) else None)"

definition stn :: "buf \<Rightarrow> nat \<Rightarrow> buf \<Rightarrow> buf option" where
  "stn p i bs = (if i + length bs \<le> length p
     then Some (take i p @ bs @ drop (i + length bs) p) else None)"

lemma ld8_Some [mem_simps]: "i < length p \<Longrightarrow> ld8 p i = Some (p ! i)"
  by (simp add: ld8_def)

lemma ld16_Some [mem_simps]: "i + 2 \<le> length p \<Longrightarrow> ld16 p i = Some (le16 (p ! i) (p ! (i + 1)))"
  by (simp add: ld16_def)

lemma ld32_Some [mem_simps]:
  "i + 4 \<le> length p \<Longrightarrow>
   ld32 p i = Some (le32 (p ! i) (p ! (i + 1)) (p ! (i + 2)) (p ! (i + 3)))"
  by (simp add: ld32_def)

lemma st8_Some [mem_simps]: "i < length p \<Longrightarrow> st8 p i b = Some (p[i := b])"
  by (simp add: st8_def)

lemma st16_Some [mem_simps]:
  "i + 2 \<le> length p \<Longrightarrow> st16 p i w = Some (p[i := byte_of16 0 w, i + 1 := byte_of16 1 w])"
  by (simp add: st16_def)

lemma st32_Some [mem_simps]:
  "i + 4 \<le> length p \<Longrightarrow>
   st32 p i w = Some (p[i := byte_of32 0 w, i + 1 := byte_of32 1 w,
                        i + 2 := byte_of32 2 w, i + 3 := byte_of32 3 w])"
  by (simp add: st32_def)

lemma ldn_Some [mem_simps]: "i + n \<le> length p \<Longrightarrow> ldn p i n = Some (take n (drop i p))"
  by (simp add: ldn_def)

lemma stn_Some [mem_simps]:
  "i + length bs \<le> length p \<Longrightarrow> stn p i bs = Some (take i p @ bs @ drop (i + length bs) p)"
  by (simp add: stn_def)

lemma st8_length: "st8 p i b = Some q \<Longrightarrow> length q = length p"
  by (auto simp: st8_def split: if_splits)

lemma st16_length: "st16 p i w = Some q \<Longrightarrow> length q = length p"
  by (auto simp: st16_def split: if_splits)

lemma st32_length: "st32 p i w = Some q \<Longrightarrow> length q = length p"
  by (auto simp: st32_def split: if_splits)

lemma stn_length: "stn p i bs = Some q \<Longrightarrow> length q = length p"
  by (auto simp: stn_def split: if_splits)

text \<open>A store, byte by byte.\<close>

lemma nth_st8: "st8 p i b = Some q \<Longrightarrow> q ! j = (if j = i then b else p ! j)"
  by (auto simp: st8_def nth_upd split: if_splits)

lemma nth_st16:
  "st16 p i w = Some q \<Longrightarrow> q ! j = (if i \<le> j \<and> j < i + 2 then byte_of16 (j - i) w else p ! j)"
  by (auto simp: st16_def nth_upd less_Suc_eq split: if_splits)

lemma nth_st32:
  "st32 p i w = Some q \<Longrightarrow> q ! j = (if i \<le> j \<and> j < i + 4 then byte_of32 (j - i) w else p ! j)"
proof -
  assume q: "st32 p i w = Some q"
  consider "j = i" | "j = i + 1" | "j = i + 2" | "j = i + 3" | "j < i \<or> i + 4 \<le> j" by linarith
  then show ?thesis using q by cases (auto simp: st32_def nth_upd split: if_splits)
qed

lemma nth_stn:
  assumes "stn p i bs = Some q"
  shows "q ! j = (if i \<le> j \<and> j < i + length bs then bs ! (j - i) else p ! j)"
proof -
  have q: "q = take i p @ bs @ drop (i + length bs) p" and le: "i + length bs \<le> length p"
    using assms by (auto simp: stn_def split: if_splits)
  then have "length (take i p) = i" by simp
  with le show ?thesis by (auto simp: q nth_append not_less)
qed

lemma byte_ld16: "ld16 p i = Some w \<Longrightarrow> k < 2 \<Longrightarrow> byte_of16 k w = p ! (i + k)"
  by (auto simp: ld16_def less_Suc_eq numeral_2_eq_2 split: if_splits)

lemma byte_ld32: "ld32 p i = Some w \<Longrightarrow> k < 4 \<Longrightarrow> byte_of32 k w = p ! (i + k)"
proof -
  assume w: "ld32 p i = Some w" and "k < 4"
  then consider "k = 0" | "k = 1" | "k = 2" | "k = 3" by linarith
  then show ?thesis using w by cases (auto simp: ld32_def split: if_splits)
qed

lemma st8_ex: "i < length p \<Longrightarrow> \<exists>q. st8 p i b = Some q"
  and st16_ex: "i + 2 \<le> length p \<Longrightarrow> \<exists>q. st16 p i w = Some q"
  and st32_ex: "i + 4 \<le> length p \<Longrightarrow> \<exists>q. st32 p i v = Some q"
  and stn_ex: "i + length bs \<le> length p \<Longrightarrow> \<exists>q. stn p i bs = Some q"
  and ld16_ex: "i + 2 \<le> length p \<Longrightarrow> \<exists>u. ld16 p i = Some u"
  and ld32_ex: "i + 4 \<le> length p \<Longrightarrow> \<exists>x. ld32 p i = Some x"
  by (simp_all add: mem_simps)

text \<open>What is stored is what is loaded back, and other bytes are kept.\<close>

lemma ld32_st32: "st32 p i w = Some q \<Longrightarrow> ld32 q i = Some w"
  by (auto simp: st32_def ld32_def split: if_splits)

lemma ld16_st16: "st16 p i w = Some q \<Longrightarrow> ld16 q i = Some w"
  by (auto simp: st16_def ld16_def split: if_splits)

text \<open>A computation that returns a buffer of a given length: rules for chains of stores.\<close>

definition okl :: "nat \<Rightarrow> buf option \<Rightarrow> bool" where
  "okl n m \<longleftrightarrow> (\<exists>q. m = Some q \<and> length q = n)"

named_theorems okl_intros "introduction rules for okl"

lemma okl_bind [okl_intros]:
  "okl n m \<Longrightarrow> (\<And>q. m = Some q \<Longrightarrow> length q = n \<Longrightarrow> okl n' (f q)) \<Longrightarrow> okl n' (Option.bind m f)"
  by (auto simp: okl_def)

lemma okl_st [okl_intros]:
  "i < length p \<Longrightarrow> length p = n \<Longrightarrow> okl n (st8 p i b)"
  "i + 2 \<le> length p \<Longrightarrow> length p = n \<Longrightarrow> okl n (st16 p i w)"
  "i + 4 \<le> length p \<Longrightarrow> length p = n \<Longrightarrow> okl n (st32 p i v)"
  "i + length bs \<le> length p \<Longrightarrow> length p = n \<Longrightarrow> okl n (stn p i bs)"
  by (simp_all add: okl_def mem_simps)

lemma okl_Some [okl_intros]: "length p = n \<Longrightarrow> okl n (Some p)"
  by (simp add: okl_def)

section \<open>BPF array maps\<close>

text \<open>
  \<open>bpf_map_lookup_elem\<close> on an array map returns a pointer to the element, or
  NULL for an index beyond \<open>max_entries\<close>; a store through the pointer updates
  the element in place.
\<close>

definition array_lookup :: "'a list \<Rightarrow> u32 \<Rightarrow> 'a option" where
  "array_lookup m k = (if unat k < length m then Some (m ! unat k) else None)"

definition array_modify :: "('a \<Rightarrow> 'a) \<Rightarrow> u32 \<Rightarrow> 'a list \<Rightarrow> 'a list" where
  "array_modify f k m = (if unat k < length m then m[unat k := f (m ! unat k)] else m)"

lemma length_array_modify [simp]: "length (array_modify f k m) = length m"
  by (simp add: array_modify_def)

lemma array_lookup_modify:
  "array_lookup (array_modify f k m) j =
   (if j = k then map_option f (array_lookup m k) else array_lookup m j)"
  by (auto simp: array_lookup_def array_modify_def nth_list_update dest: unsigned_word_eqI)

lemma array_lookup_Some_iff:
  "array_lookup m k = Some x \<longleftrightarrow> unat k < length m \<and> m ! unat k = x"
  by (auto simp: array_lookup_def)

lemma array_lookup_None_iff: "array_lookup m k = None \<longleftrightarrow> length m \<le> unat k"
  by (auto simp: array_lookup_def)

section \<open>Option sequencing\<close>

lemma bind_Some_eqD: "Option.bind m f = Some y \<Longrightarrow> \<exists>x. m = Some x \<and> f x = Some y"
  by (cases m) auto

lemma bind_total:
  "\<exists>x. m = Some x \<Longrightarrow> (\<And>x. m = Some x \<Longrightarrow> \<exists>r. f x = Some r) \<Longrightarrow> \<exists>r. Option.bind m f = Some r"
  by auto

end
