(* ===== verification/Xdp_Types.thy ===== *)
theory Xdp_Types
  imports Prelude
begin

text \<open>
  The data of the XDP data plane: the flow key, the map values and the map
  layout of \<open>bpf/xdp_router.bpf.c\<close>, the control and statistics records of
  \<open>bpf/xdp_control_map.h\<close> and \<open>bpf/xdp_introspection.h\<close> and the debug event of
  \<open>bpf/xdp_flow_debug.h\<close>, together with the operations these headers define.

  The BPF helpers whose result depends on the kernel (LRU eviction, ring buffer
  space, the LPM trie, the packet tail) are the fields of a record
  \<open>kernel\<close> that every handler takes as an argument. The predicates at the end
  of the theory state the documented behaviour some theorems rely on.
\<close>

section \<open>Constants\<close>

definition MAGLEV_RING_SIZE :: nat where "MAGLEV_RING_SIZE = 65537"
definition MAX_EBPF_WANS :: nat where "MAX_EBPF_WANS = 256"
definition MAX_BPF_POLICIES :: nat where "MAX_BPF_POLICIES = 16"
definition MAX_BPF_GROUPS :: nat where "MAX_BPF_GROUPS = 8"

definition PKT_FLAG_SYN :: u8 where "PKT_FLAG_SYN = 1"
definition PKT_FLAG_RST :: u8 where "PKT_FLAG_RST = 2"
definition PKT_FLAG_FIN :: u8 where "PKT_FLAG_FIN = 4"
definition PKT_FLAG_ICMP :: u8 where "PKT_FLAG_ICMP = 8"
definition PKT_FLAG_QUIC :: u8 where "PKT_FLAG_QUIC = 16"
definition PKT_FLAG_PMTU :: u8 where "PKT_FLAG_PMTU = 32"

lemmas pkt_flag_defs = PKT_FLAG_SYN_def PKT_FLAG_RST_def PKT_FLAG_FIN_def
  PKT_FLAG_ICMP_def PKT_FLAG_QUIC_def PKT_FLAG_PMTU_def

definition ETH_P_IP :: u16 where "ETH_P_IP = 0x0800"
definition ETH_P_IPV6 :: u16 where "ETH_P_IPV6 = 0x86DD"
definition ETH_P_8021Q :: u16 where "ETH_P_8021Q = 0x8100"
definition ETH_P_8021AD :: u16 where "ETH_P_8021AD = 0x88A8"
definition IPPROTO_ICMP :: u8 where "IPPROTO_ICMP = 1"
definition IPPROTO_TCP :: u8 where "IPPROTO_TCP = 6"
definition IPPROTO_UDP :: u8 where "IPPROTO_UDP = 17"
definition ICMP_ECHO :: u8 where "ICMP_ECHO = 8"
definition ICMP_ECHOREPLY :: u8 where "ICMP_ECHOREPLY = 0"

lemmas proto_defs = ETH_P_IP_def ETH_P_IPV6_def ETH_P_8021Q_def ETH_P_8021AD_def
  IPPROTO_ICMP_def IPPROTO_TCP_def IPPROTO_UDP_def ICMP_ECHO_def ICMP_ECHOREPLY_def

lemmas size_defs = MAGLEV_RING_SIZE_def MAX_EBPF_WANS_def MAX_BPF_POLICIES_def MAX_BPF_GROUPS_def

datatype xdp_action = XDP_ABORTED | XDP_DROP | XDP_PASS | XDP_TX | XDP_REDIRECT

section \<open>Map keys and values\<close>

record flow_5tuple =
  src_ip :: u32
  dst_ip :: u32
  src_port :: u16
  dst_port :: u16
  proto :: u8
  pkt_flags :: u8
  quic_token :: u16

record bpf_wan_entry =
  we_wan_id :: u32
  we_ifindex :: u32
  we_ip_addr :: u32
  we_gateway :: u32
  we_weight :: u32
  we_is_active :: u32
  we_table_id :: u32
  we_fwmark :: u32
  we_is_draining :: u32
  we_mtu :: u32

record bpf_wan_stats =
  ws_rx_packets :: u64
  ws_rx_bytes :: u64
  ws_tx_packets :: u64
  ws_tx_bytes :: u64
  ws_snat_packets :: u64
  ws_dropped_packets :: u64

record bpf_session_val =
  wan_idx :: u32
  wan_id :: u32
  orig_src_ip :: u32
  last_seen_ns :: u64

record bpf_policy_entry =
  subnet_ip :: u32
  netmask :: u32
  target_group :: u32
  pe_is_active :: u32

record bpf_lpm_key =
  prefixlen :: u32
  lpm_addr :: u32

record router_ctrl =
  rc_lan_ip :: u32
  active_wans :: u32
  snat_enabled :: u32
  debug_enabled :: u32
  router_flags :: u32
  hc_interval_ms :: u32

record router_global_stats =
  total_rx_packets :: u64
  total_rx_bytes :: u64
  total_snat_rewrites :: u64
  total_sticky_hits :: u64
  total_maglev_dispatches :: u64
  total_failovers :: u64
  total_drops :: u64
  total_session_evictions :: u64
  total_hc_probes_rx :: u64

datatype event_type = EVT_NEW_FLOW | EVT_STICKY_HIT | EVT_SNAT_REWRITE | EVT_FAILOVER
  | EVT_SESSION_CLOSE | EVT_DROP | EVT_HC_REPLY

record flow_debug_event =
  timestamp_ns :: u64
  ev_src_ip :: u32
  ev_dst_ip :: u32
  ev_src_port :: u16
  ev_dst_port :: u16
  ev_proto :: u8
  ev_wan_idx :: u8
  ev_type :: event_type
  ev_pkt_flags :: u8
  ev_orig_src_ip :: u32
  ev_wan_ip :: u32
  ev_flow_hash :: u32
  ev_wan_name :: string

definition zero_session :: bpf_session_val where
  "zero_session = \<lparr>wan_idx = 0, wan_id = 0, orig_src_ip = 0, last_seen_ns = 0\<rparr>"

definition zero_wan_entry :: bpf_wan_entry where
  "zero_wan_entry = \<lparr>we_wan_id = 0, we_ifindex = 0, we_ip_addr = 0, we_gateway = 0, we_weight = 0,
     we_is_active = 0, we_table_id = 0, we_fwmark = 0, we_is_draining = 0, we_mtu = 0\<rparr>"

definition zero_wan_stats :: bpf_wan_stats where
  "zero_wan_stats = \<lparr>ws_rx_packets = 0, ws_rx_bytes = 0, ws_tx_packets = 0, ws_tx_bytes = 0,
     ws_snat_packets = 0, ws_dropped_packets = 0\<rparr>"

definition zero_global_stats :: router_global_stats where
  "zero_global_stats = \<lparr>total_rx_packets = 0, total_rx_bytes = 0, total_snat_rewrites = 0,
     total_sticky_hits = 0, total_maglev_dispatches = 0, total_failovers = 0, total_drops = 0,
     total_session_evictions = 0, total_hc_probes_rx = 0\<rparr>"

definition zero_policy :: bpf_policy_entry where
  "zero_policy = \<lparr>subnet_ip = 0, netmask = 0, target_group = 0, pe_is_active = 0\<rparr>"

definition zero_ctrl :: router_ctrl where
  "zero_ctrl = \<lparr>rc_lan_ip = 0, active_wans = 0, snat_enabled = 0, debug_enabled = 0,
     router_flags = 0, hc_interval_ms = 0\<rparr>"

section \<open>The maps\<close>

text \<open>
  A per-CPU map holds one value per CPU under each key. The array maps are lists
  (see \<^const>\<open>array_lookup\<close>); a per-CPU array is a list for each CPU; the per-CPU
  LRU hash maps a key to one session value per CPU, because the keys of a
  per-CPU hash are shared between the CPUs and only the values are not.
\<close>

type_synonym cpu = nat
type_synonym sticky_map = "flow_5tuple \<rightharpoonup> bpf_session_val"
type_synonym local_map = "flow_5tuple \<rightharpoonup> (cpu \<Rightarrow> bpf_session_val)"

record router_maps =
  maglev_lut_map :: "u32 list"
  wan_table_map :: "bpf_wan_entry list"
  local_lru_map :: local_map
  sticky_flow_map :: sticky_map
  wan_percpu_stats_map :: "cpu \<Rightarrow> bpf_wan_stats list"
  policy_route_map :: "bpf_policy_entry list"
  maglev_group_map :: "u32 list"
  lpm_subnet_map :: "bpf_lpm_key \<rightharpoonup> u32"
  ctrl_map :: "router_ctrl list"
  global_stats_map :: "cpu \<Rightarrow> router_global_stats list"
  flow_ringbuf :: "flow_debug_event list"

text \<open>The maps as the kernel creates them: arrays zero-filled at full size, hashes empty.\<close>

definition empty_router_maps :: router_maps where
  "empty_router_maps = \<lparr>
     maglev_lut_map = replicate MAGLEV_RING_SIZE 0,
     wan_table_map = replicate MAX_EBPF_WANS zero_wan_entry,
     local_lru_map = Map.empty,
     sticky_flow_map = Map.empty,
     wan_percpu_stats_map = (\<lambda>_. replicate MAX_EBPF_WANS zero_wan_stats),
     policy_route_map = replicate MAX_BPF_POLICIES zero_policy,
     maglev_group_map = replicate (MAX_BPF_GROUPS * MAGLEV_RING_SIZE) 0,
     lpm_subnet_map = Map.empty,
     ctrl_map = [zero_ctrl],
     global_stats_map = (\<lambda>_. [zero_global_stats]),
     flow_ringbuf = []\<rparr>"

text \<open>Every map has the size its declaration gives it.\<close>

definition maps_wf :: "router_maps \<Rightarrow> bool" where
  "maps_wf st \<longleftrightarrow>
     length (maglev_lut_map st) = MAGLEV_RING_SIZE \<and>
     length (wan_table_map st) = MAX_EBPF_WANS \<and>
     length (policy_route_map st) = MAX_BPF_POLICIES \<and>
     length (maglev_group_map st) = MAX_BPF_GROUPS * MAGLEV_RING_SIZE \<and>
     length (ctrl_map st) = 1"

lemma maps_wf_empty: "maps_wf empty_router_maps"
  by (simp add: maps_wf_def empty_router_maps_def)

section \<open>Kernel services\<close>

record kernel =
  k_lru_update :: "sticky_map \<Rightarrow> flow_5tuple \<Rightarrow> bpf_session_val \<Rightarrow> sticky_map"
  k_percpu_update :: "cpu \<Rightarrow> local_map \<Rightarrow> flow_5tuple \<Rightarrow> bpf_session_val \<Rightarrow> local_map"
  k_lpm_lookup :: "(bpf_lpm_key \<rightharpoonup> u32) \<Rightarrow> bpf_lpm_key \<Rightarrow> u32 option"
  k_adjust_tail :: "buf \<Rightarrow> int \<Rightarrow> buf option"
  k_ringbuf_reserve :: "flow_debug_event list \<Rightarrow> bool"
  k_ktime :: u64

text \<open>
  An update of an LRU hash stores the value or fails, and may evict any entry;
  it never invents one.
\<close>

definition lru_update_ok :: "kernel \<Rightarrow> bool" where
  "lru_update_ok k \<longleftrightarrow> (\<forall>m key v key'.
     k_lru_update k m key v key' \<in> {None, m key', (m(key \<mapsto> v)) key'})"

text \<open>
  An update of a per-CPU LRU hash writes the slot of the running CPU. The other
  CPUs' slots of the element are kept when the element exists and zero-filled
  when it is created.
\<close>

definition percpu_insert :: "cpu \<Rightarrow> local_map \<Rightarrow> flow_5tuple \<Rightarrow> bpf_session_val \<Rightarrow> local_map" where
  "percpu_insert c m key v =
     m(key \<mapsto> (case m key of None \<Rightarrow> (\<lambda>_. zero_session) | Some g \<Rightarrow> g)(c := v))"

definition percpu_update_ok :: "kernel \<Rightarrow> bool" where
  "percpu_update_ok k \<longleftrightarrow> (\<forall>c m key v key'.
     k_percpu_update k c m key v key' \<in> {None, m key', percpu_insert c m key v key'})"

text \<open>\<open>bpf_xdp_adjust_tail\<close> resizes the frame by \<open>delta\<close> and keeps its leading bytes.\<close>

definition adjust_tail_ok :: "kernel \<Rightarrow> bool" where
  "adjust_tail_ok k \<longleftrightarrow> (\<forall>p d q. k_adjust_tail k p d = Some q \<longrightarrow>
     int (length q) = int (length p) + d \<and>
     take (min (length p) (length q)) q = take (min (length p) (length q)) p)"

text \<open>A kernel without memory pressure: nothing is evicted and every call succeeds.\<close>

definition exact_kernel :: kernel where
  "exact_kernel = \<lparr>
     k_lru_update = (\<lambda>m key v. m(key \<mapsto> v)),
     k_percpu_update = percpu_insert,
     k_lpm_lookup = (\<lambda>m key. m key),
     k_adjust_tail = (\<lambda>p d. if int (length p) + d < 0 then None
        else Some (take (nat (int (length p) + d)) p @ replicate (nat d) 0)),
     k_ringbuf_reserve = (\<lambda>_. True),
     k_ktime = 0\<rparr>"

lemma exact_kernel_ok:
  "lru_update_ok exact_kernel" "percpu_update_ok exact_kernel" "adjust_tail_ok exact_kernel"
proof -
  show "lru_update_ok exact_kernel" by (auto simp: lru_update_ok_def exact_kernel_def)
  show "percpu_update_ok exact_kernel" by (auto simp: percpu_update_ok_def exact_kernel_def)
  show "adjust_tail_ok exact_kernel"
    by (auto simp: adjust_tail_ok_def exact_kernel_def min_def split: if_splits)
qed

section \<open>Header operations\<close>

definition ctrl_map_get :: "router_maps \<Rightarrow> router_ctrl option" where
  "ctrl_map_get st = array_lookup (ctrl_map st) 0"

text \<open>
  \<open>global_stats_get\<close> followed by one of the \<open>stats_inc\<close> helpers: the running
  CPU's element is updated in place, and nothing happens when the lookup fails.
\<close>

definition gstats_modify ::
  "cpu \<Rightarrow> (router_global_stats \<Rightarrow> router_global_stats) \<Rightarrow> router_maps \<Rightarrow> router_maps" where
  "gstats_modify c f st = st\<lparr>global_stats_map :=
     (global_stats_map st)(c := array_modify f 0 (global_stats_map st c))\<rparr>"

definition stats_inc_rx :: "cpu \<Rightarrow> u64 \<Rightarrow> router_maps \<Rightarrow> router_maps" where
  "stats_inc_rx c n = gstats_modify c (\<lambda>s. s\<lparr>total_rx_packets := total_rx_packets s + 1,
     total_rx_bytes := total_rx_bytes s + n\<rparr>)"

definition stats_inc_snat :: "cpu \<Rightarrow> router_maps \<Rightarrow> router_maps" where
  "stats_inc_snat c =
     gstats_modify c (\<lambda>s. s\<lparr>total_snat_rewrites := total_snat_rewrites s + 1\<rparr>)"

definition stats_inc_sticky_hit :: "cpu \<Rightarrow> router_maps \<Rightarrow> router_maps" where
  "stats_inc_sticky_hit c =
     gstats_modify c (\<lambda>s. s\<lparr>total_sticky_hits := total_sticky_hits s + 1\<rparr>)"

definition stats_inc_maglev :: "cpu \<Rightarrow> router_maps \<Rightarrow> router_maps" where
  "stats_inc_maglev c =
     gstats_modify c (\<lambda>s. s\<lparr>total_maglev_dispatches := total_maglev_dispatches s + 1\<rparr>)"

definition stats_inc_failover :: "cpu \<Rightarrow> router_maps \<Rightarrow> router_maps" where
  "stats_inc_failover c =
     gstats_modify c (\<lambda>s. s\<lparr>total_failovers := total_failovers s + 1\<rparr>)"

definition stats_inc_drop :: "cpu \<Rightarrow> router_maps \<Rightarrow> router_maps" where
  "stats_inc_drop c = gstats_modify c (\<lambda>s. s\<lparr>total_drops := total_drops s + 1\<rparr>)"

definition stats_inc_session_evict :: "cpu \<Rightarrow> router_maps \<Rightarrow> router_maps" where
  "stats_inc_session_evict c =
     gstats_modify c (\<lambda>s. s\<lparr>total_session_evictions := total_session_evictions s + 1\<rparr>)"

lemmas stats_defs = stats_inc_rx_def stats_inc_snat_def stats_inc_sticky_hit_def
  stats_inc_maglev_def stats_inc_failover_def stats_inc_drop_def stats_inc_session_evict_def

text \<open>
  \<open>flow_debug_emit\<close>: the flow fields of the event are those of the key, whose
  source address is passed a second time as \<open>orig_src_ip\<close> by every caller.
\<close>

definition flow_debug_emit ::
  "kernel \<Rightarrow> flow_5tuple \<Rightarrow> u8 \<Rightarrow> u32 \<Rightarrow> u32 \<Rightarrow> event_type \<Rightarrow> u32 \<Rightarrow> router_maps \<Rightarrow> router_maps"
  where
  "flow_debug_emit k key widx wan_ip flow_hash evt debug st =
     (if debug = 0 then st
      else if \<not> k_ringbuf_reserve k (flow_ringbuf st) then st
      else st\<lparr>flow_ringbuf := flow_ringbuf st @ [\<lparr>
        timestamp_ns = k_ktime k, ev_src_ip = src_ip key, ev_dst_ip = dst_ip key,
        ev_src_port = src_port key, ev_dst_port = dst_port key, ev_proto = proto key,
        ev_wan_idx = widx, ev_type = evt, ev_pkt_flags = pkt_flags key,
        ev_orig_src_ip = src_ip key, ev_wan_ip = wan_ip, ev_flow_hash = flow_hash,
        ev_wan_name = ''WAN'' @ [char_of (48 + unat (widx AND 7))]\<rparr>]\<rparr>)"

text \<open>Statistics and debug events touch no map that routing reads.\<close>

lemma gstats_modify_fields [simp]:
  "maglev_lut_map (gstats_modify c f st) = maglev_lut_map st"
  "wan_table_map (gstats_modify c f st) = wan_table_map st"
  "local_lru_map (gstats_modify c f st) = local_lru_map st"
  "sticky_flow_map (gstats_modify c f st) = sticky_flow_map st"
  "wan_percpu_stats_map (gstats_modify c f st) = wan_percpu_stats_map st"
  "policy_route_map (gstats_modify c f st) = policy_route_map st"
  "maglev_group_map (gstats_modify c f st) = maglev_group_map st"
  "lpm_subnet_map (gstats_modify c f st) = lpm_subnet_map st"
  "ctrl_map (gstats_modify c f st) = ctrl_map st"
  "flow_ringbuf (gstats_modify c f st) = flow_ringbuf st"
  by (simp_all add: gstats_modify_def)

lemma flow_debug_emit_fields [simp]:
  "maglev_lut_map (flow_debug_emit k key w ip h e d st) = maglev_lut_map st"
  "wan_table_map (flow_debug_emit k key w ip h e d st) = wan_table_map st"
  "local_lru_map (flow_debug_emit k key w ip h e d st) = local_lru_map st"
  "sticky_flow_map (flow_debug_emit k key w ip h e d st) = sticky_flow_map st"
  "wan_percpu_stats_map (flow_debug_emit k key w ip h e d st) = wan_percpu_stats_map st"
  "policy_route_map (flow_debug_emit k key w ip h e d st) = policy_route_map st"
  "maglev_group_map (flow_debug_emit k key w ip h e d st) = maglev_group_map st"
  "lpm_subnet_map (flow_debug_emit k key w ip h e d st) = lpm_subnet_map st"
  "ctrl_map (flow_debug_emit k key w ip h e d st) = ctrl_map st"
  "global_stats_map (flow_debug_emit k key w ip h e d st) = global_stats_map st"
  by (simp_all add: flow_debug_emit_def)

end
