(* ===== verification/Xdp_Parse.thy ===== *)
theory Xdp_Parse
  imports Xdp_Types
begin

text \<open>
  The packet parsers of \<open>bpf/xdp_router.bpf.c\<close>. A parser works on the frame and
  a cursor, an offset into it; \<open>Reject\<close> is the C return value -1. The option
  around the result is None when the C code would touch memory outside of the
  frame, which the theorems at the end of the theory exclude.
\<close>

datatype 'a parsed = Reject | Parsed 'a

section \<open>Definitions\<close>

fun parse_vlan :: "nat \<Rightarrow> buf \<Rightarrow> nat \<Rightarrow> u16 \<Rightarrow> (nat \<times> u16) parsed option" where
  "parse_vlan 0 p cur pr = Some (Parsed (cur, pr))"
| "parse_vlan (Suc n) p cur pr =
     (if pr = htons ETH_P_8021Q \<or> pr = htons ETH_P_8021AD then
        (if cur + 4 > length p then Some Reject
         else do { pr' \<leftarrow> ld16 p (cur + 2); parse_vlan n p (cur + 4) pr' })
      else parse_vlan n p cur pr)"

definition parse_eth :: "buf \<Rightarrow> nat \<Rightarrow> (nat \<times> u16) parsed option" where
  "parse_eth p cur =
     (if cur + 14 > length p then Some Reject
      else do { pr \<leftarrow> ld16 p (cur + 12); parse_vlan 2 p (cur + 14) pr })"

text \<open>The \<open>version\<close> and \<open>ihl\<close> bit fields of the first byte of an IPv4 header.\<close>

definition ip_version :: "u8 \<Rightarrow> nat" where
  "ip_version b = unat (drop_bit 4 b)"

definition ip_ihl :: "u8 \<Rightarrow> nat" where
  "ip_ihl b = unat (b AND 0x0f)"

definition parse_ipv4 :: "buf \<Rightarrow> nat \<Rightarrow> flow_5tuple \<Rightarrow> (nat \<times> flow_5tuple) parsed option" where
  "parse_ipv4 p cur flow =
     (if cur + 20 > length p then Some Reject else do {
        vihl \<leftarrow> ld8 p cur;
        if ip_version vihl \<noteq> 4 \<or> ip_ihl vihl < 5 then Some Reject
        else let iph_len = ip_ihl vihl * 4 in
          if cur + iph_len > length p then Some Reject
          else do {
            saddr \<leftarrow> ld32 p (cur + 12);
            daddr \<leftarrow> ld32 p (cur + 16);
            pr \<leftarrow> ld8 p (cur + 9);
            Some (Parsed (cur + iph_len,
              flow\<lparr>src_ip := saddr, dst_ip := daddr, proto := pr\<rparr>))
          }
     })"

definition parse_tcp :: "buf \<Rightarrow> nat \<Rightarrow> flow_5tuple \<Rightarrow> flow_5tuple parsed option" where
  "parse_tcp p cur flow =
     (if cur + 20 > length p then Some Reject else do {
        sport \<leftarrow> ld16 p cur;
        dport \<leftarrow> ld16 p (cur + 2);
        bits \<leftarrow> ld8 p (cur + 13);
        let fl = (if bit bits 1 then PKT_FLAG_SYN else 0) OR
                 (if bit bits 2 then PKT_FLAG_RST else 0) OR
                 (if bit bits 0 then PKT_FLAG_FIN else 0);
        Some (Parsed (flow\<lparr>src_port := sport, dst_port := dport, pkt_flags := fl\<rparr>))
     })"

text \<open>The offset of the QUIC destination connection id, if the datagram carries one.\<close>

definition quic_dcid :: "buf \<Rightarrow> nat \<Rightarrow> u8 \<Rightarrow> nat option option" where
  "quic_dcid p quic_data first_byte =
     (if first_byte AND 0x80 \<noteq> 0 then
        (if quic_data + 6 \<le> length p then do {
           dcid_len \<leftarrow> ld8 p (quic_data + 5);
           Some (if dcid_len \<ge> 4 \<and> quic_data + 6 + 4 \<le> length p then Some (quic_data + 6) else None)
         } else Some None)
      else
        Some (if quic_data + 5 \<le> length p then Some (quic_data + 1) else None))"

definition quic_cid_token :: "u8 \<Rightarrow> u8 \<Rightarrow> u8 \<Rightarrow> u16" where
  "quic_cid_token d0 d1 d2 =
     (let cid_ver = drop_bit 6 d0 in
      if cid_ver = 0 then
        push_bit 10 (ucast (d0 AND 0x3F)) OR push_bit 2 (ucast d1) OR ucast (drop_bit 6 d2)
      else if cid_ver = 1 then push_bit 8 (ucast d1) OR ucast d2
      else push_bit 8 (ucast d0) OR ucast (d1 XOR d2))"

definition parse_udp :: "buf \<Rightarrow> nat \<Rightarrow> flow_5tuple \<Rightarrow> flow_5tuple parsed option" where
  "parse_udp p cur flow =
     (if cur + 8 > length p then Some Reject else do {
        sport \<leftarrow> ld16 p cur;
        dport \<leftarrow> ld16 p (cur + 2);
        let flow = flow\<lparr>src_port := sport, dst_port := dport, pkt_flags := 0, quic_token := 0\<rparr>;
        if dport = 0xBB01 \<or> sport = 0xBB01 then
          let quic_data = cur + 8 in
          if quic_data + 1 \<le> length p then do {
            first_byte \<leftarrow> ld8 p quic_data;
            if first_byte AND 0x40 \<noteq> 0 then do {
              let flow = flow\<lparr>pkt_flags := pkt_flags flow OR PKT_FLAG_QUIC\<rparr>;
              dcid \<leftarrow> quic_dcid p quic_data first_byte;
              token \<leftarrow> (case dcid of None \<Rightarrow> Some 0
                 | Some o1 \<Rightarrow> do {
                     d0 \<leftarrow> ld8 p o1;
                     d1 \<leftarrow> ld8 p (o1 + 1);
                     d2 \<leftarrow> ld8 p (o1 + 2);
                     Some (quic_cid_token d0 d1 d2)
                   });
              Some (Parsed (if token \<noteq> 0
                then flow\<lparr>quic_token := token, src_ip := 0, src_port := 0\<rparr> else flow))
            } else Some (Parsed flow)
          } else Some (Parsed flow)
        else Some (Parsed flow)
     })"

definition parse_icmp :: "buf \<Rightarrow> nat \<Rightarrow> flow_5tuple \<Rightarrow> flow_5tuple parsed option" where
  "parse_icmp p cur flow =
     (if cur + 8 > length p then Some Reject else do {
        typ \<leftarrow> ld8 p cur;
        let flow = flow\<lparr>quic_token := 0\<rparr>;
        if typ = ICMP_ECHO \<or> typ = ICMP_ECHOREPLY then do {
          ident \<leftarrow> ld16 p (cur + 4);
          sequence \<leftarrow> ld16 p (cur + 6);
          Some (Parsed (flow\<lparr>src_port := ident, dst_port := sequence, pkt_flags := PKT_FLAG_ICMP\<rparr>))
        } else if typ = 3 \<or> typ = 11 then do {
          let flow = flow\<lparr>pkt_flags := PKT_FLAG_ICMP OR PKT_FLAG_PMTU\<rparr>;
          let inner = cur + 8;
          let unknown = Some (Parsed (flow\<lparr>src_port := 0, dst_port := 0\<rparr>));
          if inner + 20 \<le> length p then do {
            vihl \<leftarrow> ld8 p inner;
            if ip_version vihl = 4 then
              let inner_ihl = ip_ihl vihl * 4 in
              if inner_ihl \<ge> 20 \<and> inner + inner_ihl + 4 \<le> length p then do {
                saddr \<leftarrow> ld32 p (inner + 12);
                daddr \<leftarrow> ld32 p (inner + 16);
                sport \<leftarrow> ld16 p (inner + inner_ihl);
                dport \<leftarrow> ld16 p (inner + inner_ihl + 2);
                pr \<leftarrow> ld8 p (inner + 9);
                Some (Parsed (flow\<lparr>src_ip := saddr, dst_ip := daddr, src_port := sport,
                  dst_port := dport, proto := pr\<rparr>))
              } else unknown
            else unknown
          } else unknown
        } else Some (Parsed (flow\<lparr>src_port := 0, dst_port := 0, pkt_flags := PKT_FLAG_ICMP\<rparr>))
     })"

abbreviation empty_flow :: flow_5tuple where
  "empty_flow \<equiv> \<lparr>src_ip = 0, dst_ip = 0, src_port = 0, dst_port = 0, proto = 0,
     pkt_flags = 0, quic_token = 0\<rparr>"

text \<open>Steps 1 to 3 of \<open>xdp_router_func\<close>: the flow key of a frame, or XDP_PASS.\<close>

definition parse_flow :: "buf \<Rightarrow> flow_5tuple parsed option" where
  "parse_flow p = do {
     eth \<leftarrow> parse_eth p 0;
     case eth of Reject \<Rightarrow> Some Reject
     | Parsed (cur, eth_proto) \<Rightarrow>
         if eth_proto \<noteq> htons ETH_P_IP then Some Reject
         else do {
           ip \<leftarrow> parse_ipv4 p cur empty_flow;
           case ip of Reject \<Rightarrow> Some Reject
           | Parsed (cur, key) \<Rightarrow>
               if proto key = IPPROTO_TCP then parse_tcp p cur key
               else if proto key = IPPROTO_UDP then parse_udp p cur key
               else if proto key = IPPROTO_ICMP then parse_icmp p cur key
               else Some Reject
         }
   }"

section \<open>The parsers stay inside the frame\<close>

named_theorems parse_total "parsers that return for every frame"

lemma parse_vlan_total [parse_total]: "\<exists>r. parse_vlan n p cur pr = Some r"
  by (induction n p cur pr rule: parse_vlan.induct) (auto simp: mem_simps)

lemma parse_eth_total [parse_total]: "\<exists>r. parse_eth p cur = Some r"
  by (auto simp: parse_eth_def mem_simps parse_vlan_total)

lemma parse_ipv4_total [parse_total]: "\<exists>r. parse_ipv4 p cur flow = Some r"
  by (auto simp: parse_ipv4_def mem_simps Let_def)

lemma parse_tcp_total [parse_total]: "\<exists>r. parse_tcp p cur flow = Some r"
  by (auto simp: parse_tcp_def mem_simps Let_def)

lemma quic_dcid_bounds:
  "\<exists>r. quic_dcid p q b = Some r \<and> (\<forall>o1. r = Some o1 \<longrightarrow> o1 + 3 < length p)"
  by (auto simp: quic_dcid_def mem_simps)

lemma parse_udp_total [parse_total]: "\<exists>r. parse_udp p cur flow = Some r"
proof -
  obtain r where r: "quic_dcid p (cur + 8) (p ! (cur + 8)) = Some r"
    "\<And>o1. r = Some o1 \<Longrightarrow> o1 + 3 < length p"
    using quic_dcid_bounds [of p "cur + 8" "p ! (cur + 8)"] by blast
  show ?thesis
    by (auto simp: parse_udp_def mem_simps Let_def r(1) dest!: r(2) split: option.split)
qed

lemma parse_icmp_total [parse_total]: "\<exists>r. parse_icmp p cur flow = Some r"
  by (auto simp: parse_icmp_def mem_simps Let_def)

lemma parse_flow_total [parse_total]: "\<exists>r. parse_flow p = Some r"
  by (auto simp: parse_flow_def parse_total intro!: bind_total split: parsed.split)

lemma parse_vlan_bounds:
  "parse_vlan n p cur pr = Some (Parsed (cur', pr')) \<Longrightarrow> cur \<le> length p \<Longrightarrow>
   cur \<le> cur' \<and> cur' \<le> cur + 4 * n \<and> cur' \<le> length p"
proof (induction n p cur pr rule: parse_vlan.induct)
  case (2 n p cur pr)
  then show ?case by (auto simp: mem_simps split: if_splits)
qed simp

lemma ip_ihl_le: "ip_ihl b \<le> 15"
  using word_and_le1 [of b 15] by (simp add: ip_ihl_def word_le_nat_alt)

lemma parse_ipv4_bounds:
  assumes "parse_ipv4 p cur flow = Some (Parsed (cur', key))"
  shows "cur + 20 \<le> cur'" "cur' \<le> cur + 60" "cur' \<le> length p"
  using assms ip_ihl_le [of "p ! cur"]
  by (auto simp: parse_ipv4_def mem_simps Let_def split: if_splits)

end
