(* ===== verification/Checksum.thy ===== *)
theory Checksum
  imports Prelude
begin

text \<open>
  The Internet checksum routines of \<open>bpf/xdp_router.bpf.c\<close>: the incremental
  RFC 1624 updates, the 64-bit fold and the header recomputation. The lemmas
  reduce each routine to one's complement arithmetic on natural numbers, where
  an incremental update is shown to agree with the receiver's full check.
\<close>

section \<open>Definitions\<close>

text \<open>\<open>~x \& 0xffff\<close> on a 16-bit operand promoted to 32 bits.\<close>

definition inv16 :: "u32 \<Rightarrow> u32" where
  "inv16 x = (NOT x) AND 0xffff"

definition fold32 :: "u32 \<Rightarrow> u32" where
  "fold32 c = (c AND 0xffff) + drop_bit 16 c"

definition csum_replace2 :: "u16 \<Rightarrow> u16 \<Rightarrow> u16 \<Rightarrow> u16" where
  "csum_replace2 csum from to =
     (let c = inv16 (ucast csum);
          c = c + inv16 (ucast from);
          c = c + ucast to;
          c = fold32 c;
          c = fold32 c
      in ucast (NOT c))"

definition csum_replace4 :: "u16 \<Rightarrow> u32 \<Rightarrow> u32 \<Rightarrow> u16" where
  "csum_replace4 csum from to =
     (let c = inv16 (ucast csum);
          from_hi = drop_bit 16 from;
          from_lo = from AND 0xffff;
          to_hi = drop_bit 16 to;
          to_lo = to AND 0xffff;
          c = c + inv16 from_hi;
          c = c + inv16 from_lo;
          c = c + to_hi;
          c = c + to_lo;
          c = fold32 c;
          c = fold32 c
      in ucast (NOT c))"

text \<open>\<open>csum_replace_ttl\<close> on the pair of header fields it updates (check, ttl).\<close>

definition csum_replace_ttl :: "u16 \<Rightarrow> u8 \<Rightarrow> u16 \<times> u8" where
  "csum_replace_ttl check ttl =
     (let c = (ucast check :: u32) + 0x0100
      in (ucast ((c AND 0xffff) + drop_bit 16 c), ttl - 1))"

definition csum_fold_step :: "u64 \<Rightarrow> u64" where
  "csum_fold_step c = (if drop_bit 16 c \<noteq> 0 then (c AND 0xffff) + drop_bit 16 c else c)"

definition csum_fold_helper :: "u64 \<Rightarrow> u16" where
  "csum_fold_helper csum =
     ucast (NOT (csum_fold_step (csum_fold_step (csum_fold_step (csum_fold_step csum)))))"

text \<open>\<open>csum += p[i]\<close> over \<open>n\<close> consecutive 16-bit words of the buffer.\<close>

fun csum_words :: "buf \<Rightarrow> nat \<Rightarrow> nat \<Rightarrow> u64 \<Rightarrow> u64 option" where
  "csum_words p off 0 acc = Some acc"
| "csum_words p off (Suc n) acc = do {
     w \<leftarrow> ld16 p off;
     csum_words p (off + 2) n (acc + ucast w)
   }"

definition update_ip_checksum :: "buf \<Rightarrow> nat \<Rightarrow> buf option" where
  "update_ip_checksum p iph = do {
     p \<leftarrow> st16 p (iph + 10) 0;
     csum \<leftarrow> csum_words p iph 10 0;
     st16 p (iph + 10) (csum_fold_helper csum)
   }"

text \<open>
  The check a receiver makes on \<open>n\<close> words that include the checksum field: the
  folded complement of the sum is zero.
\<close>

definition csum_valid :: "buf \<Rightarrow> nat \<Rightarrow> nat \<Rightarrow> bool" where
  "csum_valid p off n =
     (case csum_words p off n 0 of None \<Rightarrow> False | Some s \<Rightarrow> csum_fold_helper s = 0)"

section \<open>One's complement arithmetic on natural numbers\<close>

definition oc :: "nat \<Rightarrow> nat" where
  "oc n = (if n = 0 then 0 else (n - 1) mod 65535 + 1)"

primrec nsum :: "buf \<Rightarrow> nat \<Rightarrow> nat \<Rightarrow> nat" where
  "nsum p off 0 = 0"
| "nsum p off (Suc n) = nsum p off n + unat (le16 (p ! (off + 2 * n)) (p ! (off + 2 * n + 1)))"

lemma oc_small: "n < 65536 \<Longrightarrow> oc n = n"
  by (auto simp: oc_def)

lemma oc_le: "oc n \<le> 65535"
  using mod_less_divisor [of 65535 "n - 1"] by (simp add: oc_def del: mod_less_divisor)

lemma oc_pos: "0 < n + (65535 - oc n)"
  by (simp add: oc_def)

lemma oc_fold: "oc (n mod 65536 + n div 65536) = oc n"
proof (cases "n = 0")
  case False
  define q r where "q = n div 65536" and "r = n mod 65536"
  have n: "n = 65536 * q + r" by (simp add: q_def r_def)
  with False have pos: "q + r > 0" by auto
  have "n - 1 = 65535 * q + (q + r - 1)" using n pos by simp
  then have "(n - 1) mod 65535 = (q + r - 1) mod 65535" by simp
  then show ?thesis using False pos by (simp add: oc_def q_def r_def add.commute)
qed (simp add: oc_def)

lemma oc_eq_max_iff: "oc n = 65535 \<longleftrightarrow> n > 0 \<and> 65535 dvd n"
proof (cases "n = 0")
  case False
  then obtain m where n: "n = Suc m" by (cases n) auto
  have "m mod 65535 = 65534 \<longleftrightarrow> 65535 dvd Suc m"
    by (simp add: dvd_eq_mod_eq_0 mod_Suc)
  then show ?thesis by (simp add: n oc_def)
qed (simp add: oc_def)

lemma oc_mod: "oc n mod 65535 = n mod 65535"
  by (cases n) (simp_all add: oc_def mod_Suc_eq)

lemma oc_complement: "65535 dvd 65535 - oc n + n"
proof -
  have "(65535 - oc n + n) mod 65535 = (65535 - oc n + oc n) mod 65535"
    by (metis mod_add_right_eq oc_mod)
  then show ?thesis using oc_le [of n] by (simp add: dvd_eq_mod_eq_0)
qed

section \<open>The routines in one's complement terms\<close>

lemma and_ffff_32: "unat ((c::u32) AND 0xffff) = unat c mod 65536"
proof -
  have "c AND 0xffff = c mod 65536"
    using take_bit_eq_mask [of 16 c] by (simp add: take_bit_eq_mod mask_numeral)
  then show ?thesis by (simp add: unat_mod)
qed

lemma and_ffff_64: "unat ((c::u64) AND 0xffff) = unat c mod 65536"
proof -
  have "c AND 0xffff = c mod 65536"
    using take_bit_eq_mask [of 16 c] by (simp add: take_bit_eq_mod mask_numeral)
  then show ?thesis by (simp add: unat_mod)
qed

lemma unat_drop16_32: "unat (drop_bit 16 (c::u32)) = unat c div 65536"
  by (simp add: drop_bit_eq_div unat_div)

lemma unat_drop16_64: "unat (drop_bit 16 (c::u64)) = unat c div 65536"
  by (simp add: drop_bit_eq_div unat_div)

lemma unat_inv16: "unat (inv16 x) = 65535 - unat x mod 65536"
proof -
  have "inv16 x + (x AND 0xffff) = inv16 x OR (x AND 0xffff)"
    by (rule disjunctive_add) (auto simp: inv16_def bit_simps)
  also have "\<dots> = 0xffff"
    by (rule bit_word_eqI) (auto simp: inv16_def bit_simps)
  finally have "inv16 x = 0xffff - (x AND 0xffff)" by (simp add: eq_diff_eq)
  moreover have "(x AND 0xffff) \<le> 0xffff"
    by (simp add: word_le_nat_alt and_ffff_32)
  ultimately show ?thesis by (simp add: unat_sub and_ffff_32)
qed

lemma fold_bound: "(n::nat) < 2 ^ w \<Longrightarrow> 17 \<le> w \<Longrightarrow> n mod 65536 + n div 65536 < 2 ^ w"
proof -
  assume n: "n < 2 ^ w" and w: "17 \<le> w"
  have "(2::nat) ^ 17 \<le> 2 ^ w" using w by (rule power_increasing) simp
  then show ?thesis using n by simp
qed

lemma unat_fold32: "unat (fold32 c) = unat c mod 65536 + unat c div 65536"
  using fold_bound [of "unat c" 32] unat_u32_less [of c]
  by (simp add: fold32_def unat_word_ariths and_ffff_32 unat_drop16_32)

lemma unat_csum_fold_step: "unat (csum_fold_step c) = unat c mod 65536 + unat c div 65536"
proof (cases "drop_bit 16 c = 0")
  case True
  then have "unat c div 65536 = 0" by (metis unat_drop16_64 unsigned_0)
  with True show ?thesis by (simp add: csum_fold_step_def)
next
  case False
  then show ?thesis
    using fold_bound [of "unat c" 64] unat_u64_less [of c]
    by (simp add: csum_fold_step_def unat_word_ariths and_ffff_64 unat_drop16_64)
qed

text \<open>Two folds are enough below 2^32: the result is the reduced sum.\<close>

lemma two_folds:
  assumes "n < 4294967296"
  defines "f \<equiv> \<lambda>n::nat. n mod 65536 + n div 65536"
  shows "f (f n) = oc n"
proof -
  have "n div 65536 \<le> 65535" using assms by (simp add: less_mult_imp_div_less)
  moreover have "n mod 65536 \<le> 65535" by (simp add: less_Suc_eq_le [symmetric])
  ultimately have le: "f n \<le> 131070" by (simp add: f_def)
  have "f m < 65536" if "m \<le> 131070" for m
  proof (cases "m < 65536")
    case False
    with that have "m div 65536 = 1" "m mod 65536 = m - 65536"
      by (simp_all add: div_nat_eqI le_mod_geq)
    with that False show ?thesis by (simp add: f_def)
  qed (simp add: f_def)
  from this [OF le] have "f (f n) < 65536" .
  then have "f (f n) = oc (f (f n))" by (simp add: oc_small)
  also have "\<dots> = oc n" by (simp add: f_def oc_fold)
  finally show ?thesis .
qed

lemma unat_not_ucast_32: "unat (c::u32) < 65536 \<Longrightarrow> unat (ucast (NOT c) :: u16) = 65535 - unat c"
proof -
  assume c: "unat c < 65536"
  have "inv16 c = take_bit 16 (NOT c)"
    using take_bit_eq_mask [of 16 "NOT c"] by (simp add: inv16_def mask_numeral)
  then have "(ucast (NOT c) :: u16) = ucast (inv16 c)"
    by (simp only:) (rule bit_word_eqI, simp add: bit_simps)
  then show ?thesis using c
    by (simp add: unsigned_ucast_eq take_bit_eq_mod unat_inv16)
qed

lemma unat_not_ucast_64: "unat (c::u64) < 65536 \<Longrightarrow> unat (ucast (NOT c) :: u16) = 65535 - unat c"
proof -
  assume c: "unat c < 65536"
  have "(ucast (NOT c) :: u16) = ucast (NOT (ucast c :: u32))"
    by (rule bit_word_eqI) (auto simp: bit_simps)
  moreover have "unat (ucast c :: u32) = unat c"
    using c by (simp add: unsigned_ucast_eq take_bit_eq_mod)
  ultimately show ?thesis using c unat_not_ucast_32 [of "ucast c"] by simp
qed

lemma unat_csum_fold_helper:
  assumes "unat c < 4294967296"
  shows "unat (csum_fold_helper c) = 65535 - oc (unat c)"
proof -
  let ?f = "\<lambda>n::nat. n mod 65536 + n div 65536"
  have "?f (?f (?f (?f (unat c)))) = oc (?f (?f (unat c)))"
    using two_folds [of "?f (?f (unat c))"] two_folds [OF assms] oc_le [of "unat c"] by simp
  then have "unat (csum_fold_step (csum_fold_step (csum_fold_step (csum_fold_step c)))) = oc (unat c)"
    by (simp add: unat_csum_fold_step oc_fold)
  then show ?thesis
    using oc_le [of "unat c"] by (simp add: csum_fold_helper_def unat_not_ucast_64)
qed

lemma unat_ucast_16_32 [simp]: "unat (ucast (w::u16) :: u32) = unat w"
  using unat_u16_less [of w] by (simp add: unsigned_ucast_eq take_bit_eq_mod)

lemma unat_ucast_16_64 [simp]: "unat (ucast (w::u16) :: u64) = unat w"
  using unat_u16_less [of w] by (simp add: unsigned_ucast_eq take_bit_eq_mod)

lemma unat_add_32: "unat (a::u32) + unat b < 4294967296 \<Longrightarrow> unat (a + b) = unat a + unat b"
  by (simp add: unat_word_ariths)

lemma unat_not_fold32: "unat (ucast (NOT (fold32 (fold32 c))) :: u16) = 65535 - oc (unat c)"
  using oc_le [of "unat c"] two_folds [OF unat_u32_less [of c]]
  by (simp add: unat_fold32 unat_not_ucast_32)

lemma unat_csum_replace4:
  "unat (csum_replace4 ck from to) =
   65535 - oc ((65535 - unat ck) + (65535 - unat from div 65536) + (65535 - unat from mod 65536)
               + unat to div 65536 + unat to mod 65536)"
proof -
  define c where "c = inv16 (ucast ck) + inv16 (drop_bit 16 from) + inv16 (from AND 0xffff)
    + drop_bit 16 to + (to AND 0xffff)"
  have hi: "unat (x::u32) div 65536 < 65536" for x
    using unat_u32_less [of x] by (simp add: less_mult_imp_div_less)
  have lo: "n mod 65536 < 65536" for n :: nat by simp
  have "unat c = (65535 - unat ck) + (65535 - unat from div 65536) + (65535 - unat from mod 65536)
               + unat to div 65536 + unat to mod 65536"
    using hi [of to] lo [of "unat to"] hi [of "from"] unat_u16_less [of ck]
    by (simp add: c_def unat_add_32 unat_inv16 unat_drop16_32 and_ffff_32)
  moreover have "csum_replace4 ck from to = ucast (NOT (fold32 (fold32 c)))"
    by (simp add: csum_replace4_def Let_def c_def)
  ultimately show ?thesis by (simp only: unat_not_fold32)
qed

lemma unat_csum_replace2:
  "unat (csum_replace2 ck from to) =
   65535 - oc ((65535 - unat ck) + (65535 - unat from) + unat to)"
proof -
  define c where "c = inv16 (ucast ck) + inv16 (ucast from) + ucast to"
  have "unat c = (65535 - unat ck) + (65535 - unat from) + unat to"
    using unat_u16_less [of ck] unat_u16_less [of "from"] unat_u16_less [of to]
    by (simp add: c_def unat_add_32 unat_inv16)
  moreover have "csum_replace2 ck from to = ucast (NOT (fold32 (fold32 c)))"
    by (simp add: csum_replace2_def Let_def c_def)
  ultimately show ?thesis by (simp only: unat_not_fold32)
qed

section \<open>Sums over a buffer\<close>

lemma nsum_front:
  "nsum p off (Suc n) = unat (le16 (p ! off) (p ! (off + 1))) + nsum p (off + 2) n"
  by (induction n) (simp_all add: algebra_simps)

lemma nsum_le: "nsum p off n \<le> 65535 * n"
proof (induction n)
  case (Suc n)
  then show ?case
    using unat_u16_less [of "le16 (p ! (off + 2 * n)) (p ! (off + 2 * n + 1))"] by simp
qed simp

lemma csum_words_nsum:
  assumes "off + 2 * n \<le> length p" "unat acc + 65535 * n < 2 ^ 64"
  shows "\<exists>s. csum_words p off n acc = Some s \<and> unat s = unat acc + nsum p off n"
  using assms
proof (induction n arbitrary: off acc)
  case (Suc n)
  let ?w = "le16 (p ! off) (p ! (off + 1))"
  have "unat (acc + ucast ?w) = unat acc + unat ?w"
    using Suc.prems unat_u16_less [of ?w] by (simp add: unat_word_ariths)
  moreover from this have "\<exists>s. csum_words p (off + 2) n (acc + ucast ?w) = Some s
      \<and> unat s = unat (acc + ucast ?w) + nsum p (off + 2) n"
    using Suc.prems unat_u16_less [of ?w] by (intro Suc.IH) simp_all
  ultimately show ?case
    using Suc.prems nsum_front [of p off n] by (auto simp: ld16_Some simp del: nsum.simps)
qed simp

lemma csum_valid_iff:
  assumes "off + 2 * n \<le> length p" "n \<le> 65536"
  shows "csum_valid p off n \<longleftrightarrow> nsum p off n > 0 \<and> 65535 dvd nsum p off n"
proof -
  obtain s where s: "csum_words p off n 0 = Some s" "unat s = nsum p off n"
    using csum_words_nsum [of off n p 0] assms by auto
  have "unat s < 4294967296" using s nsum_le [of p off n] assms by simp
  then have "unat (csum_fold_helper s) = 65535 - oc (nsum p off n)"
    using s by (simp add: unat_csum_fold_helper)
  then have "csum_fold_helper s = 0 \<longleftrightarrow> oc (nsum p off n) = 65535"
    using oc_le [of "nsum p off n"] unat_eq_zero [of "csum_fold_helper s"] by linarith
  then show ?thesis by (simp add: csum_valid_def s oc_eq_max_iff)
qed

text \<open>Replacing one aligned word of the summed region.\<close>

lemma nsum_cong:
  "(\<And>i. off \<le> i \<Longrightarrow> i < off + 2 * n \<Longrightarrow> p ! i = q ! i) \<Longrightarrow> nsum p off n = nsum q off n"
  by (induction n) auto

lemma nsum_update_word:
  assumes "k < n" "off + 2 * n \<le> length p" "j = off + 2 * k"
  shows "nsum (p[j := a, Suc j := b]) off n + unat (le16 (p ! j) (p ! Suc j))
       = nsum p off n + unat (le16 a b)"
  using assms
proof (induction n)
  case (Suc n)
  show ?case
  proof (cases "k = n")
    case True
    have "nsum (p[j := a, Suc j := b]) off n = nsum p off n"
      by (rule nsum_cong) (use Suc.prems True in simp)
    then show ?thesis using Suc.prems True by simp
  next
    case False
    then have "nsum (p[j := a, Suc j := b]) off n + unat (le16 (p ! j) (p ! Suc j))
       = nsum p off n + unat (le16 a b)" using Suc by simp
    then show ?thesis using Suc.prems False by simp
  qed
qed simp

text \<open>Storing the complement of the sum into a zeroed checksum word validates the region.\<close>

lemma store_complement_valid:
  assumes k: "k < n" "off + 2 * n \<le> length p" "j = off + 2 * k" and n: "n \<le> 65536"
    and z: "p ! j = 0" "p ! Suc j = 0"
    and w: "unat w = 65535 - oc (nsum p off n)"
  shows "csum_valid (p[j := byte_of16 0 w, Suc j := byte_of16 1 w]) off n"
proof -
  have "unat (le16 0 0) = 0" by (simp add: unat_le16)
  then have "nsum (p[j := byte_of16 0 w, Suc j := byte_of16 1 w]) off n
      = nsum p off n + (65535 - oc (nsum p off n))"
    using nsum_update_word [OF k, of "byte_of16 0 w" "byte_of16 1 w"] z w by simp
  then show ?thesis
    using k n oc_complement [of "nsum p off n"] oc_pos [of "nsum p off n"]
    by (simp add: csum_valid_iff add.commute)
qed

lemma csum_words_fold:
  assumes "off + 2 * n \<le> length p" "n \<le> 65536"
  obtains s where "csum_words p off n 0 = Some s"
    "unat (csum_fold_helper s) = 65535 - oc (nsum p off n)"
proof -
  obtain s where s: "csum_words p off n 0 = Some s" "unat s = nsum p off n"
    using csum_words_nsum [of off n p 0] assms by auto
  moreover have "unat s < 4294967296" using s nsum_le [of p off n] assms by simp
  ultimately show ?thesis using that by (simp add: unat_csum_fold_helper)
qed

lemma update_ip_checksum_correct:
  assumes "iph + 20 \<le> length p"
  obtains q a b where "update_ip_checksum p iph = Some q" "csum_valid q iph 10"
    "q = p[iph + 10 := a, Suc (iph + 10) := b]"
proof -
  define j where "j = iph + 10"
  define z where "z = p[j := 0, Suc j := 0]"
  have j: "Suc j < length p" using assms by (simp add: j_def)
  have st: "st16 r j w = Some (r[j := byte_of16 0 w, Suc j := byte_of16 1 w])"
    if "length r = length p" for r w
    using that j by (simp add: st16_def)
  have z: "st16 p j 0 = Some z" by (simp add: st z_def byte_of16_def)
  obtain s where s: "csum_words z iph 10 0 = Some s"
    "unat (csum_fold_helper s) = 65535 - oc (nsum z iph 10)"
    using csum_words_fold [of iph 10 z] assms by (auto simp: z_def)
  let ?a = "byte_of16 0 (csum_fold_helper s)" and ?b = "byte_of16 1 (csum_fold_helper s)"
  have "update_ip_checksum p iph = Some (z[j := ?a, Suc j := ?b])"
    using s by (simp add: update_ip_checksum_def z st j_def [symmetric] z_def)
  moreover have "csum_valid (z[j := ?a, Suc j := ?b]) iph 10"
    using s j assms by (intro store_complement_valid [of 5]) (simp_all add: z_def j_def)
  moreover have "z[j := ?a, Suc j := ?b] = p[j := ?a, Suc j := ?b]"
    by (rule nth_equalityI) (auto simp: z_def nth_upd)
  ultimately show ?thesis using that by (simp add: j_def)
qed

section \<open>Incremental updates keep a region valid\<close>

lemma nsum_pos:
  assumes "off \<le> i" "i < off + 2 * n" "p ! i \<noteq> 0"
  shows "0 < nsum p off n"
  using assms(1,2)
proof (induction n)
  case (Suc n)
  consider "i < off + 2 * n" | "i = off + 2 * n" | "i = off + 2 * n + 1"
    using Suc.prems by fastforce
  then show ?case
    using Suc assms(3) by cases (simp_all add: unat_le16 unat_gt_0 del: unat_byte)
qed simp

lemma csum_words_cong:
  assumes "\<And>i. off \<le> i \<Longrightarrow> i < off + 2 * n \<Longrightarrow> p ! i = q ! i"
    and "off + 2 * n \<le> length p" "off + 2 * n \<le> length q"
  shows "csum_words p off n acc = csum_words q off n acc"
  using assms by (induction n arbitrary: off acc) (simp_all add: mem_simps)

lemma csum_valid_cong:
  assumes "\<And>i. off \<le> i \<Longrightarrow> i < off + 2 * n \<Longrightarrow> p ! i = q ! i"
    and "off + 2 * n \<le> length p" "off + 2 * n \<le> length q"
  shows "csum_valid p off n \<longleftrightarrow> csum_valid q off n"
  unfolding csum_valid_def using csum_words_cong [OF assms, of 0] by simp

lemma dvd_incremental:
  fixes Sq Sp ck' tl th :: nat
  assumes sum: "Sq + fl + fh + ck = Sp + tl + th + ck'"
    and ck': "ck' = 65535 - oc ((65535 - ck) + (65535 - fh) + (65535 - fl) + th + tl)"
    and le: "ck \<le> 65535" "fh \<le> 65535" "fl \<le> 65535"
    and dvd: "65535 dvd Sp"
  shows "65535 dvd Sq"
proof -
  let ?X = "(65535 - ck) + (65535 - fh) + (65535 - fl) + th + tl"
  have "Sq + 3 * 65535 = Sp + (ck' + ?X)" using sum le by simp
  moreover have "65535 dvd ck' + ?X" unfolding ck' by (rule oc_complement)
  ultimately have "65535 dvd Sq + 3 * 65535" using dvd by (metis dvd_add)
  then show ?thesis by (metis dvd_add_left_iff dvd_triv_right)
qed

lemma csum_replace4_valid:
  assumes len: "off + 2 * n \<le> length p" "n \<le> 65536" and n: "kc < n" "k + 1 < n" "kc \<noteq> k" "kc \<noteq> k + 1"
    and j: "jc = off + 2 * kc" "j = off + 2 * k"
    and old: "old = le32 (p ! j) (p ! Suc j) (p ! Suc (Suc j)) (p ! Suc (Suc (Suc j)))"
    and q: "q = p[j := byte_of32 0 new, Suc j := byte_of32 1 new,
                 Suc (Suc j) := byte_of32 2 new, Suc (Suc (Suc j)) := byte_of32 3 new]"
    and w: "w = csum_replace4 (le16 (p ! jc) (p ! Suc jc)) old new"
    and nz: "nsum (q[jc := byte_of16 0 w, Suc jc := byte_of16 1 w]) off n > 0"
    and valid: "csum_valid p off n"
  shows "csum_valid (q[jc := byte_of16 0 w, Suc jc := byte_of16 1 w]) off n"
proof -
  let ?p1 = "p[j := byte_of32 0 new, Suc j := byte_of32 1 new]"
  let ?r = "q[jc := byte_of16 0 w, Suc jc := byte_of16 1 w]"
  let ?fl = "unat (le16 (p ! j) (p ! Suc j))"
  let ?fh = "unat (le16 (p ! Suc (Suc j)) (p ! Suc (Suc (Suc j))))"
  let ?tl = "unat (le16 (byte_of32 0 new) (byte_of32 1 new))"
  let ?th = "unat (le16 (byte_of32 2 new) (byte_of32 3 new))"
  let ?ck = "unat (le16 (p ! jc) (p ! Suc jc))"
  have s1: "nsum ?p1 off n + ?fl = nsum p off n + ?tl"
    using nsum_update_word [of k n off p j] len n j by simp
  have s2: "nsum q off n + ?fh = nsum ?p1 off n + ?th"
    using nsum_update_word [of "k + 1" n off ?p1 "Suc (Suc j)" "byte_of32 2 new" "byte_of32 3 new"]
      len n j q by (simp add: nth_upd)
  have qk: "q ! jc = p ! jc" "q ! Suc jc = p ! Suc jc"
    using n j by (auto simp: q nth_upd)
  have s3: "nsum ?r off n + ?ck = nsum q off n + unat w"
    using nsum_update_word [of kc n off q jc "byte_of16 0 w" "byte_of16 1 w"] len n j qk
    by (simp add: q)
  have new: "unat new = ?tl + 65536 * ?th"
    using le32_byte_of32 [of new] unat_le32 by (metis One_nat_def)
  have old': "unat old = ?fl + 65536 * ?fh" by (simp add: old unat_le32)
  have b: "?fl < 65536" "?fh < 65536" "?tl < 65536" "?th < 65536" "?ck < 65536"
    by (rule unat_u16_less)+
  have dm: "(a + 65536 * c) div 65536 = c \<and> (a + 65536 * c) mod 65536 = a"
    if "a < 65536" for a c :: nat using that by simp
  have ckw: "unat w = 65535 - oc ((65535 - ?ck) + (65535 - ?fh) + (65535 - ?fl) + ?th + ?tl)"
    unfolding w unat_csum_replace4 new old' using dm b by simp
  have sum: "nsum ?r off n + ?fl + ?fh + ?ck = nsum p off n + ?tl + ?th + unat w"
    using s1 s2 s3 by simp
  have le: "?ck \<le> 65535" "?fh \<le> 65535" "?fl \<le> 65535" using b by simp_all
  have "65535 dvd nsum p off n" using valid csum_valid_iff [OF len] by simp
  from dvd_incremental [OF sum ckw le this] have "65535 dvd nsum ?r off n" .
  then show ?thesis using len nz by (simp add: csum_valid_iff q)
qed

lemma csum_replace2_valid:
  assumes len: "off + 2 * n \<le> length p" "n \<le> 65536" and n: "kc < n" "k < n" "kc \<noteq> k"
    and j: "jc = off + 2 * kc" "j = off + 2 * k"
    and q: "q = p[j := a, Suc j := b]"
    and diff: "unat (le16 (p ! j) (p ! Suc j)) + unat to = unat (le16 a b) + unat from"
    and w: "w = csum_replace2 (le16 (p ! jc) (p ! Suc jc)) from to"
    and nz: "nsum (q[jc := byte_of16 0 w, Suc jc := byte_of16 1 w]) off n > 0"
    and valid: "csum_valid p off n"
  shows "csum_valid (q[jc := byte_of16 0 w, Suc jc := byte_of16 1 w]) off n"
proof -
  let ?r = "q[jc := byte_of16 0 w, Suc jc := byte_of16 1 w]"
  let ?ck = "unat (le16 (p ! jc) (p ! Suc jc))"
  have s1: "nsum q off n + unat (le16 (p ! j) (p ! Suc j)) = nsum p off n + unat (le16 a b)"
    using nsum_update_word [of k n off p j] len n j q by simp
  have qk: "q ! jc = p ! jc" "q ! Suc jc = p ! Suc jc"
    using n j by (auto simp: q nth_upd)
  have s2: "nsum ?r off n + ?ck = nsum q off n + unat w"
    using nsum_update_word [of kc n off q jc "byte_of16 0 w" "byte_of16 1 w"] len n j qk
    by (simp add: q)
  have b: "?ck \<le> 65535" "unat from \<le> 65535"
    using unat_u16_less [of "from"] unat_u16_less [of "le16 (p ! jc) (p ! Suc jc)"] by simp_all
  let ?X = "(65535 - ?ck) + (65535 - unat from) + unat to"
  have "65535 dvd unat w + ?X" unfolding w unat_csum_replace2 by (rule oc_complement)
  moreover have "nsum ?r off n + 2 * 65535 = nsum p off n + (unat w + ?X)"
    using s1 s2 diff b by simp
  ultimately have "65535 dvd nsum ?r off n + 2 * 65535"
    using valid len by (metis csum_valid_iff dvd_add)
  then have "65535 dvd nsum ?r off n" by (metis dvd_add_left_iff dvd_triv_right)
  then show ?thesis using len nz by (simp add: csum_valid_iff q)
qed

lemma okl_update_ip_checksum [okl_intros]:
  "iph + 20 \<le> length p \<Longrightarrow> length p = n \<Longrightarrow> okl n (update_ip_checksum p iph)"
  by (erule update_ip_checksum_correct) (simp add: okl_def)

lemma okl_csum_words [okl_intros]:
  "off + 2 * m \<le> length p \<Longrightarrow> (\<And>s. okl n (f s)) \<Longrightarrow> okl n (Option.bind (csum_words p off m acc) f)"
proof -
  assume "off + 2 * m \<le> length p" and f: "\<And>s. okl n (f s)"
  then have "\<exists>s. csum_words p off m acc = Some s"
    by (induction m arbitrary: off acc) (auto simp: mem_simps)
  then show ?thesis using f by auto
qed

end
