(* ===== verification/Xdp_Rewrite.thy ===== *)
theory Xdp_Rewrite
  imports Xdp_Parse Checksum
begin

text \<open>
  The routines of \<open>bpf/xdp_router.bpf.c\<close> that rewrite a frame: source NAT, the
  ICMP echo responder and the ICMP fragmentation-needed reflector. The theorems
  give the resulting frame byte by byte and show that the checksums a receiver
  verifies are right.
\<close>

section \<open>Source NAT and ICMP responders\<close>

text \<open>The result -1 of \<open>apply_snat\<close> is the frame left as it was; no caller looks at it.\<close>

definition apply_snat :: "buf \<Rightarrow> u32 \<Rightarrow> buf option" where
  "apply_snat p new_src_ip =
     (if 14 > length p then Some p
      else if 34 > length p then Some p
      else do {
        vihl \<leftarrow> ld8 p 14;
        if ip_version vihl \<noteq> 4 \<or> ip_ihl vihl < 5 then Some p
        else do {
          old_src_ip \<leftarrow> ld32 p 26;
          p \<leftarrow> st32 p 26 new_src_ip;
          check \<leftarrow> ld16 p 24;
          st16 p 24 (csum_replace4 check old_src_ip new_src_ip)
        }
      })"

text \<open>The rewrite of an echo request whose IPv4 and ICMP headers start at \<open>cur\<close> and \<open>icmph\<close>.\<close>

definition echo_reply_rewrite :: "buf \<Rightarrow> nat \<Rightarrow> nat \<Rightarrow> buf option" where
  "echo_reply_rewrite p cur icmph = do {
     tmp_mac \<leftarrow> ldn p 6 6;
     h_dest \<leftarrow> ldn p 0 6;
     p \<leftarrow> stn p 6 h_dest;
     p \<leftarrow> stn p 0 tmp_mac;
     tmp_ip \<leftarrow> ld32 p (cur + 12);
     daddr \<leftarrow> ld32 p (cur + 16);
     p \<leftarrow> st32 p (cur + 12) daddr;
     p \<leftarrow> st32 p (cur + 16) tmp_ip;
     p \<leftarrow> st8 p (cur + 8) 64;
     p \<leftarrow> update_ip_checksum p cur;
     p \<leftarrow> st8 p icmph ICMP_ECHOREPLY;
     ck \<leftarrow> ld16 p (icmph + 2);
     st16 p (icmph + 2) (csum_replace2 ck (htons 0x0800) 0)
   }"

definition send_icmp_echo_reply :: "buf \<Rightarrow> (xdp_action \<times> buf) option" where
  "send_icmp_echo_reply p = do {
     eth \<leftarrow> parse_eth p 0;
     case eth of Reject \<Rightarrow> Some (XDP_PASS, p)
     | Parsed (cur, eth_proto) \<Rightarrow>
         if eth_proto \<noteq> htons ETH_P_IP then Some (XDP_PASS, p)
         else if cur + 20 > length p then Some (XDP_PASS, p)
         else do {
           vihl \<leftarrow> ld8 p cur;
           if ip_version vihl \<noteq> 4 \<or> ip_ihl vihl < 5 then Some (XDP_PASS, p)
           else let iph_len = ip_ihl vihl * 4; icmph = cur + iph_len in
             if cur + iph_len > length p then Some (XDP_PASS, p)
             else if icmph + 8 > length p then Some (XDP_PASS, p)
             else do {
               typ \<leftarrow> ld8 p icmph;
               if typ \<noteq> ICMP_ECHO then Some (XDP_PASS, p)
               else do {
                 q \<leftarrow> echo_reply_rewrite p cur icmph;
                 Some (XDP_TX, q)
               }
             }
         }
   }"

text \<open>The IPv4 header \<open>send_icmp_too_big\<close> builds at offset 14.\<close>

definition build_ptb_ip :: "buf \<Rightarrow> u32 \<Rightarrow> u32 \<Rightarrow> buf option" where
  "build_ptb_ip p saddr daddr = do {
     p \<leftarrow> st8 p 14 0x45;
     p \<leftarrow> st8 p 15 0;
     p \<leftarrow> st16 p 16 (htons 56);
     p \<leftarrow> st16 p 18 0;
     p \<leftarrow> st16 p 20 0;
     p \<leftarrow> st8 p 22 64;
     p \<leftarrow> st8 p 23 IPPROTO_ICMP;
     p \<leftarrow> st32 p 26 saddr;
     p \<leftarrow> st32 p 30 daddr;
     update_ip_checksum p 14
   }"

definition build_ptb_icmp :: "buf \<Rightarrow> u32 \<Rightarrow> buf \<Rightarrow> buf option" where
  "build_ptb_icmp p target_mtu orig_payload = do {
     p \<leftarrow> st8 p 34 3;
     p \<leftarrow> st8 p 35 4;
     p \<leftarrow> st16 p 36 0;
     p \<leftarrow> st16 p 38 0;
     p \<leftarrow> st16 p 40 (htons (ucast target_mtu));
     p \<leftarrow> stn p 42 orig_payload;
     icmp_csum \<leftarrow> csum_words p 34 18 0;
     st16 p 36 (csum_fold_helper icmp_csum)
   }"

definition build_ptb :: "buf \<Rightarrow> buf \<Rightarrow> buf \<Rightarrow> u32 \<Rightarrow> u32 \<Rightarrow> u32 \<Rightarrow> buf \<Rightarrow> buf option" where
  "build_ptb q client_mac router_mac router_ip client_ip target_mtu orig_payload = do {
     q \<leftarrow> stn q 0 client_mac;
     q \<leftarrow> stn q 6 router_mac;
     q \<leftarrow> st16 q 12 (htons ETH_P_IP);
     q \<leftarrow> build_ptb_ip q router_ip client_ip;
     build_ptb_icmp q target_mtu orig_payload
   }"

definition send_icmp_too_big :: "kernel \<Rightarrow> buf \<Rightarrow> u32 \<Rightarrow> (xdp_action \<times> buf) option" where
  "send_icmp_too_big k p target_mtu =
     (if 14 > length p \<or> 34 > length p \<or> 42 > length p then Some (XDP_PASS, p)
      else do {
        orig_payload \<leftarrow> ldn p 14 28;
        client_mac \<leftarrow> ldn p 6 6;
        router_mac \<leftarrow> ldn p 0 6;
        client_ip \<leftarrow> ld32 p 26;
        router_ip \<leftarrow> ld32 p 30;
        case k_adjust_tail k p (70 - int (length p)) of None \<Rightarrow> Some (XDP_PASS, p)
        | Some q \<Rightarrow>
            if 14 > length q \<or> 34 > length q \<or> 42 > length q \<or> 70 > length q
            then Some (XDP_PASS, q)
            else do {
              q \<leftarrow> build_ptb q client_mac router_mac router_ip client_ip target_mtu orig_payload;
              Some (XDP_TX, q)
            }
      })"

section \<open>Memory safety\<close>

lemma parse_eth_bounds:
  assumes "parse_eth p 0 = Some (Parsed (cur, pr))"
  shows "14 \<le> cur" "cur \<le> 22" "cur \<le> length p"
  using assms parse_vlan_bounds [of 2 p 14]
  by (auto simp: parse_eth_def mem_simps split: if_splits)

lemma apply_snat_total: "\<exists>q. apply_snat p ip = Some q"
  by (auto simp: apply_snat_def mem_simps)

text \<open>The echo reply byte by byte, up to the header checksum bytes \<open>a\<close> and \<open>b\<close>.\<close>

lemma echo_reply_rewrite_eq:
  assumes "14 \<le> cur" "cur + 20 \<le> icmph" "icmph + 8 \<le> length p"
  defines "w \<equiv> csum_replace2 (le16 (p ! (icmph + 2)) (p ! Suc (icmph + 2))) (htons 0x0800) 0"
  shows "\<exists>a b r. echo_reply_rewrite p cur icmph =
      Some (r[icmph := 0, icmph + 2 := byte_of16 0 w, Suc (icmph + 2) := byte_of16 1 w]) \<and>
    csum_valid r cur 10 \<and> length r = length p \<and>
    (\<forall>i < length p. r ! i =
       (if i < 6 then p ! (i + 6) else if i < 12 then p ! (i - 6)
        else if i = cur + 8 then 64 else if i = cur + 10 then a else if i = cur + 11 then b
        else if cur + 12 \<le> i \<and> i < cur + 16 then p ! (i + 4)
        else if cur + 16 \<le> i \<and> i < cur + 20 then p ! (i - 4) else p ! i))"
proof -
  have len: "34 \<le> length p" using assms by simp
  let ?mac = "take 6 (drop 6 p)" and ?dst = "take 6 p"
  obtain p1 where p1: "stn p 6 ?dst = Some p1" using stn_ex [of 6 ?dst p] len by auto
  note l1 = stn_length [OF p1]
  obtain p2 where p2: "stn p1 0 ?mac = Some p2" using stn_ex [of 0 ?mac p1] len l1 by auto
  note l2 = stn_length [OF p2]
  have m: "p2 ! i = (if i < 6 then p ! (i + 6) else if i < 12 then p ! (i - 6) else p ! i)" for i
    using len by (auto simp: nth_stn [OF p1] nth_stn [OF p2] add.commute)
  obtain sip where sip: "ld32 p2 (cur + 12) = Some sip"
    using ld32_ex [of "cur + 12" p2] assms l1 l2 by auto
  obtain dip where dip: "ld32 p2 (cur + 16) = Some dip"
    using ld32_ex [of "cur + 16" p2] assms l1 l2 by auto
  obtain p3 where p3: "st32 p2 (cur + 12) dip = Some p3"
    using st32_ex [of "cur + 12" p2] assms l1 l2 by auto
  note l3 = st32_length [OF p3]
  obtain p4 where p4: "st32 p3 (cur + 16) sip = Some p4"
    using st32_ex [of "cur + 16" p3] assms l1 l2 l3 by auto
  note l4 = st32_length [OF p4]
  obtain p5 where p5: "st8 p4 (cur + 8) 64 = Some p5"
    using st8_ex [of "cur + 8" p4] assms l1 l2 l3 l4 by auto
  note l5 = st8_length [OF p5]
  obtain r a b where r: "update_ip_checksum p5 cur = Some r" "csum_valid r cur 10"
    "r = p5[cur + 10 := a, Suc (cur + 10) := b]"
    using update_ip_checksum_correct [of cur p5] assms l1 l2 l3 l4 l5 by auto
  have l: "length p5 = length p" using l1 l2 l3 l4 l5 by simp
  have p5_nth: "p5 ! i = (if i < 6 then p ! (i + 6) else if i < 12 then p ! (i - 6)
        else if i = cur + 8 then 64
        else if cur + 12 \<le> i \<and> i < cur + 16 then p ! (i + 4)
        else if cur + 16 \<le> i \<and> i < cur + 20 then p ! (i - 4) else p ! i)" for i
    using assms(1)
    by (auto simp: nth_st8 [OF p5] nth_st32 [OF p4] nth_st32 [OF p3] byte_ld32 [OF sip]
        byte_ld32 [OF dip] m add.commute)
  have r_nth: "r ! i = (if i = cur + 10 \<and> i < length p then a
      else if i = cur + 11 \<and> i < length p then b else p5 ! i)" for i
    by (auto simp: r(3) nth_upd l)
  have ck: "r ! (icmph + 2) = p ! (icmph + 2)" "r ! Suc (icmph + 2) = p ! Suc (icmph + 2)"
    using assms(1,2) by (simp_all add: r_nth p5_nth)
  have "echo_reply_rewrite p cur icmph =
     Some (r[icmph := 0, icmph + 2 := byte_of16 0 w, Suc (icmph + 2) := byte_of16 1 w])"
    using assms l1 l2 l3 l4 l5 p1 p2 sip dip p3 p4 p5 r(1) ck
    by (simp add: echo_reply_rewrite_def ldn_Some st8_Some ld16_Some st16_Some r(3) l
        ICMP_ECHOREPLY_def)
  moreover have "r ! i =
       (if i < 6 then p ! (i + 6) else if i < 12 then p ! (i - 6)
        else if i = cur + 8 then 64 else if i = cur + 10 then a else if i = cur + 11 then b
        else if cur + 12 \<le> i \<and> i < cur + 16 then p ! (i + 4)
        else if cur + 16 \<le> i \<and> i < cur + 20 then p ! (i - 4) else p ! i)"
    if "i < length p" for i
    using that assms(1) by (simp add: r_nth p5_nth)
  moreover have "length r = length p" by (simp add: r(3) l)
  ultimately show ?thesis using r(2) by blast
qed

lemma send_icmp_echo_reply_total:
  "\<exists>act q. send_icmp_echo_reply p = Some (act, q) \<and> act \<in> {XDP_PASS, XDP_TX}"
proof -
  obtain eth where eth: "parse_eth p 0 = Some eth" using parse_eth_total by blast
  show ?thesis
  proof (cases eth)
    case (Parsed cp)
    obtain cur pr where cp: "cp = (cur, pr)" by (cases cp)
    note b = parse_eth_bounds [OF eth [unfolded Parsed cp]]
    let ?n = "ip_ihl (p ! cur) * 4"
    show ?thesis
    proof (cases "cur + 20 \<le> length p \<and> 20 \<le> ?n \<and> cur + ?n + 8 \<le> length p")
      case True
      then obtain q where "echo_reply_rewrite p cur (cur + ?n) = Some q"
        using b echo_reply_rewrite_eq [of cur "cur + ?n" p] by fastforce
      then show ?thesis
        using True by (simp add: send_icmp_echo_reply_def eth Parsed cp Let_def mem_simps)
    next
      case False
      then show ?thesis
        by (auto simp: send_icmp_echo_reply_def eth Parsed cp Let_def mem_simps)
    qed
  qed (simp add: send_icmp_echo_reply_def eth)
qed

lemma okl_build_ptb_ip [okl_intros]:
  "70 \<le> length p \<Longrightarrow> length p = n \<Longrightarrow> okl n (build_ptb_ip p s d)"
  unfolding build_ptb_ip_def by (intro okl_intros) simp_all

lemma okl_build_ptb_icmp [okl_intros]:
  "70 \<le> length p \<Longrightarrow> length orig = 28 \<Longrightarrow> length p = n \<Longrightarrow> okl n (build_ptb_icmp p mtu orig)"
  unfolding build_ptb_icmp_def by (intro okl_intros) simp_all

lemma okl_build_ptb [okl_intros]:
  "70 \<le> length q \<Longrightarrow> length cm = 6 \<Longrightarrow> length rm = 6 \<Longrightarrow> length orig = 28 \<Longrightarrow> length q = n \<Longrightarrow>
   okl n (build_ptb q cm rm s d mtu orig)"
  unfolding build_ptb_def by (intro okl_intros) simp_all

lemma send_icmp_too_big_total:
  "\<exists>act q. send_icmp_too_big k p mtu = Some (act, q) \<and> act \<in> {XDP_PASS, XDP_TX}"
proof (cases "length p < 42 \<or> k_adjust_tail k p (70 - int (length p)) = None")
  case True
  then show ?thesis by (auto simp: send_icmp_too_big_def mem_simps)
next
  case False
  then obtain q where q: "k_adjust_tail k p (70 - int (length p)) = Some q" and len: "42 \<le> length p"
    by auto
  show ?thesis
  proof (cases "length q < 70")
    case True
    then show ?thesis using q len by (auto simp: send_icmp_too_big_def mem_simps)
  next
    case big: False
    obtain s d where sd: "ld32 p 26 = Some s" "ld32 p 30 = Some d"
      using ld32_ex [of 26 p] ld32_ex [of 30 p] len by auto
    have "okl (length q) (build_ptb q (take 6 (drop 6 p)) (take 6 p) d s mtu (take 28 (drop 14 p)))"
      using big len by (intro okl_intros) simp_all
    then show ?thesis
      using q len big sd by (auto simp: send_icmp_too_big_def ldn_Some okl_def)
  qed
qed

section \<open>Source NAT\<close>

lemma ip_version_nonzero: "ip_version b = 4 \<Longrightarrow> b \<noteq> 0"
  by (auto simp: ip_version_def)

text \<open>
  C4. Source NAT of an IPv4 frame installs the WAN address as the source address
  and changes no byte other than the source address and the header checksum.
  A header that passes the receiver's checksum test before the rewrite,
  options included, passes it afterwards.
\<close>

theorem apply_snat_correct:
  assumes len: "14 + 4 * ip_ihl (p ! 14) \<le> length p"
    and ip4: "ip_version (p ! 14) = 4" "5 \<le> ip_ihl (p ! 14)"
  shows "\<exists>q. apply_snat p ip = Some q \<and> length q = length p \<and> ld32 q 26 = Some ip \<and>
    (\<forall>i. i < 24 \<or> 30 \<le> i \<longrightarrow> q ! i = p ! i) \<and>
    (csum_valid p 14 (2 * ip_ihl (p ! 14)) \<longrightarrow> csum_valid q 14 (2 * ip_ihl (p ! 14)))"
proof -
  let ?n = "2 * ip_ihl (p ! 14)"
  let ?old = "le32 (p ! 26) (p ! 27) (p ! 28) (p ! 29)"
  let ?p1 = "p[26 := byte_of32 0 ip, 27 := byte_of32 1 ip, 28 := byte_of32 2 ip, 29 := byte_of32 3 ip]"
  let ?w = "csum_replace4 (le16 (p ! 24) (p ! 25)) ?old ip"
  let ?q = "?p1[24 := byte_of16 0 ?w, 25 := byte_of16 1 ?w]"
  have l: "34 \<le> length p" using len ip4 by simp
  have "apply_snat p ip = Some ?q"
    using l ip4 by (simp add: apply_snat_def mem_simps nth_upd)
  moreover have "csum_valid ?q 14 ?n" if v: "csum_valid p 14 ?n"
  proof -
    have "?q ! 14 \<noteq> 0" using ip_version_nonzero [OF ip4(1)] by simp
    then have nz: "0 < nsum ?q 14 ?n" using ip4 by (intro nsum_pos [of 14 14]) simp_all
    have "csum_valid (?p1[24 := byte_of16 0 ?w, Suc 24 := byte_of16 1 ?w]) 14 ?n"
      by (rule csum_replace4_valid [of 14 ?n p 5 6 24 26 ?old])
        (use len ip4 ip_ihl_le [of "p ! 14"] nz v in simp_all)
    then show ?thesis by simp
  qed
  moreover have "ld32 ?q 26 = Some ip" using l by (simp add: ld32_def nth_upd)
  ultimately show ?thesis by (simp add: nth_upd)
qed

text \<open>A UDP datagram from 10.0.0.2 to 8.8.8.8 with a valid header checksum.\<close>

definition sample_frame :: buf where
  "sample_frame = replicate 12 0 @ [0x08, 0x00,
     0x45, 0, 0, 28, 0, 0, 0x40, 0, 64, 17, 0x20, 0xc0, 10, 0, 0, 2, 8, 8, 8, 8,
     0x30, 0x39, 0x30, 0x39, 0, 8, 0, 0]"

theorem apply_snat_witness:
  "\<exists>q. apply_snat sample_frame 0x01020304 = Some q \<and> ld32 q 26 = Some 0x01020304 \<and> csum_valid q 14 10"
proof -
  have "ip_ihl (sample_frame ! 14) = 5" "ip_version (sample_frame ! 14) = 4"
    "length sample_frame = 42" "csum_valid sample_frame 14 10"
    by code_simp+
  then show ?thesis using apply_snat_correct [of sample_frame "0x01020304"] by auto
qed

section \<open>The echo responder\<close>

lemma htons_0800: "htons 0x0800 = le16 8 0"
  by code_simp

lemma nth_take_drop_eqI:
  "(\<And>i. i < n \<Longrightarrow> q ! (a + i) = p ! (b + i)) \<Longrightarrow> a + n \<le> length q \<Longrightarrow> b + n \<le> length p \<Longrightarrow>
   take n (drop a q) = take n (drop b p)"
  by (rule nth_equalityI) auto

text \<open>The ICMP part of the rewrite keeps a valid ICMP checksum valid.\<close>

lemma echo_icmp_valid:
  fixes r :: buf
  assumes w: "w = csum_replace2 (le16 (r ! (h + 2)) (r ! Suc (h + 2))) (htons 0x0800) 0"
    and q: "q = r[h := 0, h + 2 := byte_of16 0 w, Suc (h + 2) := byte_of16 1 w]"
    and m: "h + 2 * m \<le> length r" "m \<le> 65536" and type: "r ! h = 8"
    and nz: "h + 4 \<le> i" "i < h + 2 * m" "r ! i \<noteq> 0"
    and valid: "csum_valid r h m"
  shows "csum_valid q h m"
proof -
  let ?r = "r[h := 0, Suc h := r ! Suc h]"
  have "csum_valid (?r[h + 2 := byte_of16 0 w, Suc (h + 2) := byte_of16 1 w]) h m"
  proof (rule csum_replace2_valid [OF m, where kc = 1 and k = 0 and to = 0])
    have "?r[h + 2 := byte_of16 0 w, Suc (h + 2) := byte_of16 1 w] ! i \<noteq> 0"
      using nz by (simp add: nth_upd)
    then show "0 < nsum (?r[h + 2 := byte_of16 0 w, Suc (h + 2) := byte_of16 1 w]) h m"
      using nz by (intro nsum_pos [of h i m]) simp_all
    show "unat (le16 (r ! h) (r ! Suc h)) + unat (0::u16)
        = unat (le16 0 (r ! Suc h)) + unat (htons 0x0800)"
      by (simp add: unat_le16 type htons_0800)
  qed (use nz w valid in simp_all)
  moreover have "?r = r[h := 0]" by (rule nth_equalityI) (simp_all add: nth_upd)
  ultimately show ?thesis by (simp add: q)
qed


text \<open>An echo request from 192.168.1.10 to 192.168.1.1.\<close>

definition sample_echo_frame :: buf where
  "sample_echo_frame = replicate 12 0 @ [0x08, 0x00,
     0x45, 0, 0, 28, 0, 0, 0, 0, 64, 1, 0xf7, 0x86, 192, 168, 1, 10, 192, 168, 1, 1,
     8, 0, 0xf7, 0xfc, 0, 1, 0, 2]"


section \<open>The fragmentation-needed reflector\<close>

lemma build_ptb_ip_spec:
  assumes "34 \<le> length p"
  shows "\<exists>q. build_ptb_ip p s d = Some q \<and> length q = length p \<and> csum_valid q 14 10 \<and>
    q ! 14 = 0x45 \<and> ld16 q 16 = Some (htons 56) \<and> q ! 23 = IPPROTO_ICMP \<and>
    ld32 q 26 = Some s \<and> ld32 q 30 = Some d \<and> (\<forall>i. i < 14 \<or> 34 \<le> i \<longrightarrow> q ! i = p ! i)"
proof -
  define r where "r = p[14 := 0x45, 15 := 0, 16 := byte_of16 0 (htons 56), 17 := byte_of16 1 (htons 56),
     18 := byte_of16 0 0, 19 := byte_of16 1 0, 20 := byte_of16 0 0, 21 := byte_of16 1 0, 22 := 64, 23 := IPPROTO_ICMP,
     26 := byte_of32 0 s, 27 := byte_of32 1 s, 28 := byte_of32 2 s, 29 := byte_of32 3 s,
     30 := byte_of32 0 d, 31 := byte_of32 1 d, 32 := byte_of32 2 d, 33 := byte_of32 3 d]"
  have l: "length r = length p" by (simp add: r_def)
  have "build_ptb_ip p s d = update_ip_checksum r 14"
    using assms by (simp add: build_ptb_ip_def mem_simps r_def)
  moreover obtain q a b where q: "update_ip_checksum r 14 = Some q" "csum_valid q 14 10"
    "q = r[14 + 10 := a, Suc (14 + 10) := b]"
    by (rule update_ip_checksum_correct [of 14 r]) (use assms l in auto)
  ultimately show ?thesis
    using assms by (simp add: r_def ld16_def ld32_def nth_upd)
qed

lemma build_ptb_icmp_spec:
  assumes "length p = 70" "length orig = 28"
  shows "\<exists>q. build_ptb_icmp p mtu orig = Some q \<and> length q = 70 \<and> csum_valid q 34 18 \<and>
    q ! 34 = 3 \<and> q ! 35 = 4 \<and> ld16 q 40 = Some (htons (ucast mtu)) \<and> drop 42 q = orig \<and>
    (\<forall>i < 34. q ! i = p ! i)"
proof -
  let ?m = "htons (ucast mtu)"
  define r where "r = p[34 := 3, 35 := 4, 36 := byte_of16 0 0, 37 := byte_of16 1 0,
     38 := byte_of16 0 0, 39 := byte_of16 1 0, 40 := byte_of16 0 ?m, 41 := byte_of16 1 ?m]"
  define r' where "r' = take 42 r @ orig"
  have l: "length r = 70" "length r' = 70" using assms by (simp_all add: r_def r'_def)
  obtain s where s: "csum_words r' 34 18 0 = Some s"
    "unat (csum_fold_helper s) = 65535 - oc (nsum r' 34 18)"
    using csum_words_fold [of 34 18 r'] l by auto
  let ?q = "r'[36 := byte_of16 0 (csum_fold_helper s), Suc 36 := byte_of16 1 (csum_fold_helper s)]"
  have "stn r 42 orig = Some r'" using assms l by (simp add: stn_def r'_def)
  then have "build_ptb_icmp p mtu orig = st16 r' 36 (csum_fold_helper s)"
    using assms s by (simp add: build_ptb_icmp_def mem_simps r_def)
  then have "build_ptb_icmp p mtu orig = Some ?q" using l by (simp add: st16_def)
  moreover have "csum_valid ?q 34 18"
    using l s by (intro store_complement_valid [of 1])
      (simp_all add: r'_def r_def nth_append nth_upd assms byte_of16_def)
  moreover have "drop 42 ?q = orig" using l assms by (simp add: r'_def)
  ultimately show ?thesis
    using l assms by (simp add: r'_def r_def nth_append nth_upd ld16_def)
qed



end
