(* ===== verification/Xdp_Router.thy ===== *)
theory Xdp_Router
  imports Xdp_Rewrite
begin

text \<open>
  The XDP program \<open>xdp_router_func\<close> of \<open>bpf/xdp_router.bpf.c\<close>: flow hash, the
  two-tier sticky session lookup, dispatch of new flows (LPM override, policy
  groups, Maglev ring, health fallback), egress and the statistics. The handler takes the frame and the maps and returns the action,
  the rewritten frame and the maps; None is an access outside of the frame.
\<close>

section \<open>Flow hash\<close>

definition no_src_port :: "u16 \<Rightarrow> bool" where
  "no_src_port p \<longleftrightarrow> p \<in> {htons 5060, htons 554, htons 21, htons 500, htons 4500, htons 51820}"

definition wang_mix :: "u32 \<Rightarrow> u32" where
  "wang_mix h = (h XOR drop_bit 16 h) * 0x45d9f3b"

definition hash_5tuple :: "flow_5tuple \<Rightarrow> u32" where
  "hash_5tuple key =
     (let h = (if pkt_flags key AND PKT_FLAG_QUIC \<noteq> 0 then
                 dst_ip key XOR push_bit 16 (ucast (quic_token key)) XOR ucast (dst_port key)
               else
                 let dst_p = dst_port key;
                     src_p = (if no_src_port dst_p \<or> no_src_port (src_port key) then 0
                              else src_port key)
                 in src_ip key XOR dst_ip key XOR (push_bit 16 (ucast src_p) OR ucast dst_p)
                    XOR ucast (proto key));
          h = wang_mix h;
          h = wang_mix h
      in h XOR drop_bit 16 h)"

section \<open>Sticky sessions\<close>

definition is_dns_or_ntp :: "flow_5tuple \<Rightarrow> bool" where
  "is_dns_or_ntp key \<longleftrightarrow> proto key = IPPROTO_UDP \<and>
     (dst_port key = htons 53 \<or> src_port key = htons 53 \<or>
      dst_port key = htons 123 \<or> src_port key = htons 123)"

definition has_close_flag :: "flow_5tuple \<Rightarrow> bool" where
  "has_close_flag key \<longleftrightarrow> pkt_flags key AND (PKT_FLAG_RST OR PKT_FLAG_FIN) \<noteq> 0"

definition lru_lookup ::
  "kernel \<Rightarrow> cpu \<Rightarrow> flow_5tuple \<Rightarrow> router_maps \<Rightarrow> bpf_session_val option \<times> router_maps" where
  "lru_lookup k c key st =
     (if is_dns_or_ntp key then (None, st)
      else case local_lru_map st key of
        Some vals \<Rightarrow> (Some (vals c), st)
      | None \<Rightarrow> (case sticky_flow_map st key of
          None \<Rightarrow> (None, st)
        | Some s \<Rightarrow> (Some s,
            st\<lparr>local_lru_map := k_percpu_update k c (local_lru_map st) key s\<rparr>)))"

definition lru_delete :: "flow_5tuple \<Rightarrow> router_maps \<Rightarrow> router_maps" where
  "lru_delete key st = st\<lparr>local_lru_map := (local_lru_map st)(key := None),
                          sticky_flow_map := (sticky_flow_map st)(key := None)\<rparr>"

definition wan_accepts_session :: "bpf_wan_entry \<Rightarrow> bool" where
  "wan_accepts_session ce \<longleftrightarrow>
     we_is_active ce \<noteq> 0 \<and> (we_weight ce > 0 \<or> we_is_draining ce \<noteq> 0)"

text \<open>The session block: Some idx means \<open>need_dispatch\<close> is false and idx is the target.\<close>

definition router_sticky ::
  "kernel \<Rightarrow> cpu \<Rightarrow> flow_5tuple \<Rightarrow> u32 \<Rightarrow> u32 \<Rightarrow> router_maps \<Rightarrow> u32 option \<times> router_maps" where
  "router_sticky k c key flow_hash debug st =
     (case lru_lookup k c key st of
        (None, st) \<Rightarrow> (None, st)
      | (Some sticky, st) \<Rightarrow>
          let cidx = wan_idx sticky in
          if unat cidx < MAX_EBPF_WANS then
            (case array_lookup (wan_table_map st) cidx of
               Some ce \<Rightarrow>
                 if wan_accepts_session ce then
                   if has_close_flag key then
                     (None, flow_debug_emit k key (ucast cidx) (we_ip_addr ce) flow_hash
                        EVT_SESSION_CLOSE debug (stats_inc_session_evict c (lru_delete key st)))
                   else
                     (Some cidx, flow_debug_emit k key (ucast cidx) (we_ip_addr ce) flow_hash
                        EVT_STICKY_HIT debug (stats_inc_sticky_hit c st))
                 else (None, stats_inc_session_evict c (lru_delete key st))
             | None \<Rightarrow> (None, stats_inc_session_evict c (lru_delete key st)))
          else (None, st))"

section \<open>Dispatch of new flows\<close>

fun policy_group :: "u32 \<Rightarrow> bpf_policy_entry list \<Rightarrow> u32" where
  "policy_group src [] = 0"
| "policy_group src (pe # pes) =
     (if pe_is_active pe \<noteq> 0 \<and> netmask pe \<noteq> 0 \<and> src AND netmask pe = subnet_ip pe
      then target_group pe else policy_group src pes)"

definition group_slot :: "u32 \<Rightarrow> u32 \<Rightarrow> u32" where
  "group_slot g ring_slot = g * of_nat MAGLEV_RING_SIZE + ring_slot"

definition maglev_pick :: "flow_5tuple \<Rightarrow> u32 \<Rightarrow> router_maps \<Rightarrow> u32" where
  "maglev_pick key flow_hash st =
     (let target_group_id = policy_group (src_ip key) (take MAX_BPF_POLICIES (policy_route_map st));
          ring_slot = flow_hash mod of_nat MAGLEV_RING_SIZE;
          picked = (if target_group_id > 0 \<and> unat target_group_id < MAX_BPF_GROUPS
                    then array_lookup (maglev_group_map st) (group_slot target_group_id ring_slot)
                    else None);
          picked = (case picked of None \<Rightarrow> array_lookup (maglev_lut_map st) ring_slot
                    | Some v \<Rightarrow> Some v)
      in case picked of
           Some v \<Rightarrow> if unat v < MAX_EBPF_WANS then v else flow_hash mod of_nat MAX_EBPF_WANS
         | None \<Rightarrow> flow_hash mod of_nat MAX_EBPF_WANS)"

definition router_pick ::
  "kernel \<Rightarrow> cpu \<Rightarrow> flow_5tuple \<Rightarrow> u32 \<Rightarrow> router_maps \<Rightarrow> u32 \<times> router_maps" where
  "router_pick k c key flow_hash st =
     (case k_lpm_lookup k (lpm_subnet_map st) \<lparr>prefixlen = 32, lpm_addr = dst_ip key\<rparr> of
        Some w \<Rightarrow> if unat w < MAX_EBPF_WANS then (w, st)
                  else (maglev_pick key flow_hash st, stats_inc_maglev c st)
      | None \<Rightarrow> (maglev_pick key flow_hash st, stats_inc_maglev c st))"

definition wan_eligible :: "bpf_wan_entry \<Rightarrow> bool" where
  "wan_eligible we \<longleftrightarrow> we_is_active we \<noteq> 0 \<and> we_weight we > 0 \<and> we_is_draining we = 0"

text \<open>The fallback scan: the first eligible entry and its index.\<close>

fun first_eligible :: "u32 \<Rightarrow> bpf_wan_entry list \<Rightarrow> (u32 \<times> bpf_wan_entry) option" where
  "first_eligible i [] = None"
| "first_eligible i (e # es) =
     (if wan_eligible e then Some (i, e) else first_eligible (i + 1) es)"

definition router_fallback ::
  "kernel \<Rightarrow> cpu \<Rightarrow> flow_5tuple \<Rightarrow> u32 \<Rightarrow> u32 \<Rightarrow> u32 \<Rightarrow> router_maps \<Rightarrow> u32 \<times> router_maps" where
  "router_fallback k c key flow_hash debug target st =
     (let ok = (case array_lookup (wan_table_map st) target of
                  None \<Rightarrow> False | Some we \<Rightarrow> wan_eligible we)
      in if ok then (target, st)
         else case first_eligible 0 (take MAX_EBPF_WANS (wan_table_map st)) of
           None \<Rightarrow> (target, st)
         | Some (fi, fe) \<Rightarrow>
             (fi, flow_debug_emit k key (ucast fi) (we_ip_addr fe) flow_hash EVT_FAILOVER debug
                    (stats_inc_failover c st)))"

definition router_insert ::
  "kernel \<Rightarrow> cpu \<Rightarrow> flow_5tuple \<Rightarrow> u32 \<Rightarrow> u32 \<Rightarrow> u32 \<Rightarrow> router_maps \<Rightarrow> router_maps" where
  "router_insert k c key flow_hash debug target st =
     (if \<not> is_dns_or_ntp key \<and> \<not> has_close_flag key then
        let new_sess = \<lparr>wan_idx = target, wan_id = target + 1, orig_src_ip = src_ip key,
                        last_seen_ns = 0\<rparr>;
            st = st\<lparr>local_lru_map := k_percpu_update k c (local_lru_map st) key new_sess\<rparr>;
            st = st\<lparr>sticky_flow_map := k_lru_update k (sticky_flow_map st) key new_sess\<rparr>;
            target_ip = (case array_lookup (wan_table_map st) target of
                           None \<Rightarrow> 0 | Some we \<Rightarrow> we_ip_addr we)
        in flow_debug_emit k key (ucast target) target_ip flow_hash EVT_NEW_FLOW debug st
      else st)"

definition router_dispatch ::
  "kernel \<Rightarrow> cpu \<Rightarrow> flow_5tuple \<Rightarrow> u32 \<Rightarrow> u32 \<Rightarrow> router_maps \<Rightarrow> u32 \<times> router_maps" where
  "router_dispatch k c key flow_hash debug st =
     (let (target, st) = router_pick k c key flow_hash st;
          (target, st) = router_fallback k c key flow_hash debug target st;
          st = router_insert k c key flow_hash debug target st
      in (target, st))"

text \<open>Steps 4 and 5: the WAN of a flow.\<close>

definition router_select ::
  "kernel \<Rightarrow> cpu \<Rightarrow> flow_5tuple \<Rightarrow> u32 \<Rightarrow> router_maps \<Rightarrow> u32 \<times> router_maps" where
  "router_select k c key debug st =
     (let flow_hash = hash_5tuple key in
      case router_sticky k c key flow_hash debug st of
        (Some target, st) \<Rightarrow> (target, st)
      | (None, st) \<Rightarrow> router_dispatch k c key flow_hash debug st)"

section \<open>Egress\<close>

definition is_rfc1918 :: "u32 \<Rightarrow> bool" where
  "is_rfc1918 src \<longleftrightarrow> src AND 0xFF000000 = 0x0A000000 \<or> src AND 0xFFF00000 = 0xAC100000 \<or>
     src AND 0xFFFF0000 = 0xC0A80000"

definition wan_stats_update :: "cpu \<Rightarrow> u32 \<Rightarrow> bpf_wan_entry option \<Rightarrow> u64 \<Rightarrow> router_maps \<Rightarrow> router_maps" where
  "wan_stats_update c target wan pkt_len st =
     (let snat = (case wan of None \<Rightarrow> False | Some w \<Rightarrow> we_is_active w \<noteq> 0 \<and> we_ip_addr w \<noteq> 0);
          f = (\<lambda>s. s\<lparr>ws_rx_packets := ws_rx_packets s + 1, ws_rx_bytes := ws_rx_bytes s + pkt_len,
                     ws_snat_packets := ws_snat_packets s + (if snat then 1 else 0)\<rparr>)
      in st\<lparr>wan_percpu_stats_map := (wan_percpu_stats_map st)
              (c := array_modify f target (wan_percpu_stats_map st c))\<rparr>)"

text \<open>Whether the frame exceeds the WAN's MTU with the DF bit set (step 6.1).\<close>

definition needs_ptb :: "bpf_wan_entry option \<Rightarrow> buf \<Rightarrow> bool option" where
  "needs_ptb wan p = (case wan of None \<Rightarrow> Some False | Some w \<Rightarrow>
     if we_mtu w > 0 \<and> length p > unat (we_mtu w) \<and> 14 \<le> length p then do {
       h_proto \<leftarrow> ld16 p 12;
       if h_proto = htons ETH_P_IP \<and> 34 \<le> length p then do {
         frag_off \<leftarrow> ld16 p 20;
         Some (frag_off AND htons 0x4000 \<noteq> 0)
       } else Some False
     } else Some False)"

text \<open>The source NAT step on the frame and the maps.\<close>

definition router_snat ::
  "kernel \<Rightarrow> cpu \<Rightarrow> flow_5tuple \<Rightarrow> u32 \<Rightarrow> u32 \<Rightarrow> u32 \<Rightarrow> bpf_wan_entry option \<Rightarrow> buf \<Rightarrow> router_maps \<Rightarrow>
   (buf \<times> router_maps) option" where
  "router_snat k c key snat_on debug target wan p st =
     (case wan of None \<Rightarrow> Some (p, st) | Some w \<Rightarrow>
        if snat_on \<noteq> 0 \<and> we_is_active w \<noteq> 0 \<and> we_ip_addr w \<noteq> 0 \<and> is_rfc1918 (ntohl (src_ip key))
        then do {
          q \<leftarrow> apply_snat p (we_ip_addr w);
          Some (q, flow_debug_emit k key (ucast target) (we_ip_addr w) (hash_5tuple key)
                     EVT_SNAT_REWRITE debug (stats_inc_snat c st))
        } else Some (p, st))"

definition router_egress ::
  "kernel \<Rightarrow> cpu \<Rightarrow> flow_5tuple \<Rightarrow> u32 \<Rightarrow> u32 \<Rightarrow> u32 \<Rightarrow> buf \<Rightarrow> router_maps \<Rightarrow>
   (xdp_action \<times> buf \<times> router_maps) option" where
  "router_egress k c key snat_on debug target p st = do {
     let wan = array_lookup (wan_table_map st) target;
     ptb \<leftarrow> needs_ptb wan p;
     if ptb then do {
       (act, q) \<leftarrow> send_icmp_too_big k p (we_mtu (the wan));
       Some (act, q, st)
     } else do {
       (q, st') \<leftarrow> router_snat k c key snat_on debug target wan p st;
       Some (XDP_PASS, q, wan_stats_update c target wan (of_nat (length p)) st')
     }
   }"

section \<open>The XDP program\<close>

abbreviation router_lan_ip :: "router_ctrl option \<Rightarrow> u32" where
  "router_lan_ip ctrl \<equiv> (case ctrl of
     Some r \<Rightarrow> if rc_lan_ip r \<noteq> 0 then rc_lan_ip r else htonl 0xC0A80101
   | None \<Rightarrow> htonl 0xC0A80101)"

definition xdp_router_func ::
  "kernel \<Rightarrow> cpu \<Rightarrow> buf \<Rightarrow> router_maps \<Rightarrow> (xdp_action \<times> buf \<times> router_maps) option" where
  "xdp_router_func k c p st = do {
     parsed \<leftarrow> parse_flow p;
     case parsed of Reject \<Rightarrow> Some (XDP_PASS, p, st)
     | Parsed key \<Rightarrow>
         let ctrl = ctrl_map_get st;
             debug = (case ctrl of None \<Rightarrow> 0 | Some r \<Rightarrow> debug_enabled r);
             snat_on = (case ctrl of None \<Rightarrow> 0 | Some r \<Rightarrow> snat_enabled r);
             st = stats_inc_rx c (of_nat (length p)) st
         in if proto key = IPPROTO_ICMP \<and> pkt_flags key AND PKT_FLAG_ICMP \<noteq> 0 \<and>
               dst_ip key = router_lan_ip ctrl
            then do { (act, q) \<leftarrow> send_icmp_echo_reply p; Some (act, q, st) }
            else let (target, st) = router_select k c key debug st
                 in router_egress k c key snat_on debug target p st
   }"

section \<open>Memory safety\<close>

lemma needs_ptb_total: "\<exists>b. needs_ptb wan p = Some b"
  by (auto simp: needs_ptb_def mem_simps split: option.split)

lemma router_snat_total:
  "\<exists>q st'. router_snat k c key snat debug target wan p st = Some (q, st')"
  using apply_snat_total [of p "we_ip_addr (the wan)"]
  by (auto simp: router_snat_def split: option.split)

lemma router_egress_total:
  "\<exists>act q st'. router_egress k c key snat debug target p st = Some (act, q, st')
     \<and> act \<in> {XDP_PASS, XDP_TX}"
proof -
  let ?w = "array_lookup (wan_table_map st) target"
  obtain b where b: "needs_ptb ?w p = Some b" using needs_ptb_total by blast
  show ?thesis
  proof (cases b)
    case True
    then show ?thesis
      using send_icmp_too_big_total [of k p "we_mtu (the ?w)"] b
      by (fastforce simp: router_egress_def)
  next
    case False
    then show ?thesis
      using b router_snat_total [of k c key snat debug target ?w p st]
      by (auto simp: router_egress_def Let_def)
  qed
qed

lemma xdp_router_func_total:
  "\<exists>act q st'. xdp_router_func k c p st = Some (act, q, st') \<and> act \<in> {XDP_PASS, XDP_TX}"
proof -
  obtain r where r: "parse_flow p = Some r" using parse_flow_total by blast
  show ?thesis
  proof (cases r)
    case (Parsed key)
    then show ?thesis
      using r send_icmp_echo_reply_total [of p] router_egress_total
      by (fastforce simp: xdp_router_func_def Let_def split: prod.split)
  qed (simp add: xdp_router_func_def r)
qed


end
