(* ===== verification/Xdp_Sessions.thy ===== *)
theory Xdp_Sessions
  imports Xdp_Router
begin

text \<open>
  What \<open>xdp_router_func\<close> guarantees about the uplink of a flow: packets only go
  to live WANs, sessions keep a flow on its WAN, and the session maps satisfy an
  invariant in every reachable state. Three theorems pin down where the
  behaviour differs from the comments in the source: sessions do not carry over
  between CPUs, RST and FIN do not end a session, and QUIC datagrams with a
  connection id escape policy routing and source NAT.
\<close>

section \<open>Selection of a WAN\<close>

lemma stats_fields [simp]:
  "wan_table_map (stats_inc_maglev c st) = wan_table_map st"
  "wan_table_map (stats_inc_failover c st) = wan_table_map st"
  "wan_table_map (stats_inc_session_evict c st) = wan_table_map st"
  "wan_table_map (stats_inc_sticky_hit c st) = wan_table_map st"
  "local_lru_map (stats_inc_maglev c st) = local_lru_map st"
  "local_lru_map (stats_inc_failover c st) = local_lru_map st"
  "local_lru_map (stats_inc_session_evict c st) = local_lru_map st"
  "local_lru_map (stats_inc_sticky_hit c st) = local_lru_map st"
  "local_lru_map (stats_inc_rx c n st) = local_lru_map st"
  "local_lru_map (stats_inc_snat c st) = local_lru_map st"
  "sticky_flow_map (stats_inc_maglev c st) = sticky_flow_map st"
  "sticky_flow_map (stats_inc_failover c st) = sticky_flow_map st"
  "sticky_flow_map (stats_inc_session_evict c st) = sticky_flow_map st"
  "sticky_flow_map (stats_inc_sticky_hit c st) = sticky_flow_map st"
  "sticky_flow_map (stats_inc_rx c n st) = sticky_flow_map st"
  "sticky_flow_map (stats_inc_snat c st) = sticky_flow_map st"
  by (simp_all add: stats_defs)

lemma first_eligible_Some:
  assumes "first_eligible i es = Some (j, e)"
  shows "\<exists>n < length es. j = i + of_nat n \<and> es ! n = e \<and> wan_eligible e"
  using assms
proof (induction es arbitrary: i)
  case (Cons x es)
  show ?case
  proof (cases "wan_eligible x")
    case False
    with Cons obtain n where "n < length es" "j = i + 1 + of_nat n" "es ! n = e" "wan_eligible e"
      by fastforce
    then show ?thesis by (intro exI [of _ "Suc n"]) simp
  qed (use Cons.prems in auto)
qed simp

lemma first_eligible_None: "first_eligible i es = None \<longleftrightarrow> (\<forall>e \<in> set es. \<not> wan_eligible e)"
  by (induction es arbitrary: i) auto

lemma router_pick_wan_table [simp]: "wan_table_map (snd (router_pick k c key h st)) = wan_table_map st"
  by (simp add: router_pick_def split: option.split)

lemma router_pick_sessions [simp]:
  "local_lru_map (snd (router_pick k c key h st)) = local_lru_map st"
  "sticky_flow_map (snd (router_pick k c key h st)) = sticky_flow_map st"
  by (simp_all add: router_pick_def split: option.split)

lemma router_fallback_maps [simp]:
  "wan_table_map (snd (router_fallback k c key h d t st)) = wan_table_map st"
  "local_lru_map (snd (router_fallback k c key h d t st)) = local_lru_map st"
  "sticky_flow_map (snd (router_fallback k c key h d t st)) = sticky_flow_map st"
  by (simp_all add: router_fallback_def Let_def split: option.split prod.split)

text \<open>The health fallback ends at an eligible WAN as soon as the table has one.\<close>

lemma router_fallback_eligible:
  assumes "length (wan_table_map st) \<le> MAX_EBPF_WANS" "e \<in> set (wan_table_map st)" "wan_eligible e"
  shows "\<exists>we. array_lookup (wan_table_map st) (fst (router_fallback k c key h d t st)) = Some we
     \<and> wan_eligible we"
proof (cases "\<exists>we. array_lookup (wan_table_map st) t = Some we \<and> wan_eligible we")
  case True
  then show ?thesis by (auto simp: router_fallback_def)
next
  case False
  have "take MAX_EBPF_WANS (wan_table_map st) = wan_table_map st" using assms by simp
  then obtain j fe where j: "first_eligible 0 (take MAX_EBPF_WANS (wan_table_map st)) = Some (j, fe)"
    using assms first_eligible_None [of 0 "wan_table_map st"]
    by (cases "first_eligible 0 (wan_table_map st)") auto
  from first_eligible_Some [OF j] assms(1) obtain n where
    n: "n < length (wan_table_map st)" "j = of_nat n" "wan_table_map st ! n = fe" "wan_eligible fe"
    by auto
  moreover have "unat j = n" using n assms(1) by (simp add: MAX_EBPF_WANS_def unat_of_nat)
  moreover have "fst (router_fallback k c key h d t st) = j"
    using False j by (auto simp: router_fallback_def Let_def split: option.split)
  ultimately show ?thesis by (simp add: array_lookup_def)
qed

lemma router_dispatch_eq:
  "router_dispatch k c key h d st =
   (let pick = router_pick k c key h st;
        fb = router_fallback k c key h d (fst pick) (snd pick)
    in (fst fb, router_insert k c key h d (fst fb) (snd fb)))"
  by (simp add: router_dispatch_def Let_def split_beta)

lemma lru_lookup_wan_table [simp]: "wan_table_map (snd (lru_lookup k c key st)) = wan_table_map st"
  by (simp add: lru_lookup_def split: option.split)

lemma lru_delete_wan_table [simp]: "wan_table_map (lru_delete key st) = wan_table_map st"
  by (simp add: lru_delete_def)

lemma router_sticky_wan_table [simp]:
  "wan_table_map (snd (router_sticky k c key h d st)) = wan_table_map st"
  using lru_lookup_wan_table [of k c key st]
  by (cases "lru_lookup k c key st")
    (auto simp: router_sticky_def Let_def split: option.split if_splits)

lemma router_sticky_hit:
  assumes "fst (router_sticky k c key h d st) = Some t"
  shows "\<exists>s we. fst (lru_lookup k c key st) = Some s \<and> wan_idx s = t \<and>
    array_lookup (wan_table_map st) t = Some we \<and> wan_accepts_session we \<and> \<not> has_close_flag key"
  using assms lru_lookup_wan_table [of k c key st]
  by (cases "lru_lookup k c key st")
    (auto simp: router_sticky_def Let_def split: option.splits if_splits)

text \<open>
  C2. No packet is steered to a dead uplink while an eligible one exists. The
  WAN selected for any flow is eligible (active, positive weight, not
  draining), or it is the WAN of the flow's own session and that WAN still
  accepts established sessions.
\<close>

theorem router_select_live:
  assumes "length (wan_table_map st) = MAX_EBPF_WANS" "e \<in> set (wan_table_map st)" "wan_eligible e"
    and sel: "router_select k c key d st = (t, st')"
  shows "\<exists>we. array_lookup (wan_table_map st) t = Some we \<and>
    (wan_eligible we \<or> (wan_accepts_session we \<and>
       (\<exists>s. fst (lru_lookup k c key st) = Some s \<and> wan_idx s = t)))"
proof (cases "fst (router_sticky k c key (hash_5tuple key) d st)")
  case None
  let ?st = "snd (router_sticky k c key (hash_5tuple key) d st)"
  let ?pick = "router_pick k c key (hash_5tuple key) ?st"
  have "t = fst (router_dispatch k c key (hash_5tuple key) d ?st)"
    using sel None by (auto simp: router_select_def Let_def split: prod.splits)
  then show ?thesis
    using router_fallback_eligible [of "snd ?pick" e k c key "hash_5tuple key" d "fst ?pick"] assms(1-3)
    by (auto simp: router_dispatch_eq Let_def)
next
  case (Some u)
  then have "t = u" using sel by (auto simp: router_select_def Let_def split: prod.splits)
  then show ?thesis using router_sticky_hit [OF Some] by blast
qed

text \<open>A two-entry table: the first WAN is up, the second one is draining.\<close>

definition sample_wan :: "u32 \<Rightarrow> u32 \<Rightarrow> u32 \<Rightarrow> bpf_wan_entry" where
  "sample_wan weight active draining = zero_wan_entry\<lparr>we_weight := weight, we_is_active := active,
     we_is_draining := draining, we_ip_addr := 0x0100A8C0, we_mtu := 1500\<rparr>"

definition sample_maps :: router_maps where
  "sample_maps = empty_router_maps\<lparr>wan_table_map :=
     [sample_wan 10 1 0, sample_wan 0 1 1] @ replicate 254 zero_wan_entry\<rparr>"

definition sample_key :: flow_5tuple where
  "sample_key = \<lparr>src_ip = 0x0200000A, dst_ip = 0x08080808, src_port = 0x3930, dst_port = 0x5000,
     proto = IPPROTO_TCP, pkt_flags = PKT_FLAG_SYN, quic_token = 0\<rparr>"

theorem router_select_live_witness:
  "\<exists>we. array_lookup (wan_table_map sample_maps)
          (fst (router_select exact_kernel 0 sample_key 0 sample_maps)) = Some we \<and>
        (wan_eligible we \<or> (wan_accepts_session we \<and>
          (\<exists>s. fst (lru_lookup exact_kernel 0 sample_key sample_maps) = Some s \<and>
             wan_idx s = fst (router_select exact_kernel 0 sample_key 0 sample_maps))))"
proof (rule router_select_live [where e = "sample_wan 10 1 0"])
  show "length (wan_table_map sample_maps) = MAX_EBPF_WANS"
    by (simp add: sample_maps_def MAX_EBPF_WANS_def)
  show "sample_wan 10 1 0 \<in> set (wan_table_map sample_maps)" by (simp add: sample_maps_def)
  show "wan_eligible (sample_wan 10 1 0)" by code_simp
  show "router_select exact_kernel 0 sample_key 0 sample_maps =
    (fst (router_select exact_kernel 0 sample_key 0 sample_maps),
     snd (router_select exact_kernel 0 sample_key 0 sample_maps))" by simp
qed

section \<open>Session persistence\<close>

definition trackable :: "flow_5tuple \<Rightarrow> bool" where
  "trackable key \<longleftrightarrow> \<not> is_dns_or_ntp key \<and> \<not> has_close_flag key"

text \<open>A kernel whose session maps are not under memory pressure.\<close>

definition no_eviction :: "kernel \<Rightarrow> bool" where
  "no_eviction k \<longleftrightarrow> (\<forall>m key v. k_lru_update k m key v = m(key \<mapsto> v)) \<and>
     (\<forall>c m key v. k_percpu_update k c m key v = percpu_insert c m key v)"

lemma no_eviction_exact: "no_eviction exact_kernel"
  by (simp add: no_eviction_def exact_kernel_def)

lemma percpu_insert_self:
  "\<exists>vals. percpu_insert c m key v key = Some vals \<and> vals c = v"
  by (simp add: percpu_insert_def)

lemma router_insert_sessions:
  "local_lru_map (router_insert k c key h d t st) =
     (if trackable key then k_percpu_update k c (local_lru_map st) key
        \<lparr>wan_idx = t, wan_id = t + 1, orig_src_ip = src_ip key, last_seen_ns = 0\<rparr>
      else local_lru_map st)"
  "sticky_flow_map (router_insert k c key h d t st) =
     (if trackable key then k_lru_update k (sticky_flow_map st) key
        \<lparr>wan_idx = t, wan_id = t + 1, orig_src_ip = src_ip key, last_seen_ns = 0\<rparr>
      else sticky_flow_map st)"
  "wan_table_map (router_insert k c key h d t st) = wan_table_map st"
  by (auto simp: router_insert_def trackable_def Let_def)

lemma router_dispatch_sessions:
  assumes "router_dispatch k c key h d st = (t, st')"
  shows "local_lru_map st' = (if trackable key then k_percpu_update k c (local_lru_map st) key
        \<lparr>wan_idx = t, wan_id = t + 1, orig_src_ip = src_ip key, last_seen_ns = 0\<rparr>
      else local_lru_map st)"
    and "sticky_flow_map st' = (if trackable key then k_lru_update k (sticky_flow_map st) key
        \<lparr>wan_idx = t, wan_id = t + 1, orig_src_ip = src_ip key, last_seen_ns = 0\<rparr>
      else sticky_flow_map st)"
  using assms by (auto simp: router_dispatch_eq Let_def router_insert_sessions)

text \<open>After any packet of a trackable flow, the running CPU has the flow's WAN in its cache.\<close>

lemma router_select_caches:
  assumes k: "no_eviction k" and key: "trackable key" and sel: "router_select k c key d st = (t, st')"
  shows "\<exists>vals. local_lru_map st' key = Some vals \<and> wan_idx (vals c) = t"
proof (cases "fst (router_sticky k c key (hash_5tuple key) d st)")
  case None
  let ?st = "snd (router_sticky k c key (hash_5tuple key) d st)"
  have "router_dispatch k c key (hash_5tuple key) d ?st = (t, st')"
    using sel None by (auto simp: router_select_def Let_def split: prod.splits)
  from router_dispatch_sessions(1) [OF this] show ?thesis
    using k key by (simp add: no_eviction_def percpu_insert_def)
next
  case (Some u)
  have "st' = snd (router_sticky k c key (hash_5tuple key) d st)" "t = u"
    using sel Some by (auto simp: router_select_def Let_def split: prod.splits)
  then show ?thesis
    using Some k key
    by (auto simp: router_sticky_def lru_lookup_def no_eviction_def percpu_insert_def Let_def
        trackable_def split: option.splits if_splits prod.splits)
qed


text \<open>The flow's first packet makes WAN 0 its uplink; WAN 0 then drains and keeps the flow.\<close>

definition sample_maps_draining :: "router_maps \<Rightarrow> router_maps" where
  "sample_maps_draining st = st\<lparr>wan_table_map :=
     [sample_wan 0 1 1, sample_wan 10 1 0] @ replicate 254 zero_wan_entry\<rparr>"

lemma maglev_pick_zero:
  assumes "policy_route_map st = replicate n zero_policy" "maglev_lut_map st = replicate 65537 0"
  shows "maglev_pick key h st = 0"
proof -
  have "policy_group src (replicate m zero_policy) = 0" for src m
    by (induction m) (simp_all add: zero_policy_def)
  moreover have "unat (h mod 65537 :: u32) < 65537"
    using unat_mod [of h 65537] by simp
  ultimately show ?thesis
    using assms by (simp add: maglev_pick_def size_defs array_lookup_def)
qed

lemmas sample_select_simps = router_select_def router_sticky_def lru_lookup_def sample_maps_def
  empty_router_maps_def router_dispatch_eq router_pick_def exact_kernel_def router_fallback_def
  array_lookup_def size_defs sample_maps_draining_def maglev_pick_zero

lemma sample_first_packet:
  "router_select exact_kernel 0 sample_key 0 sample_maps =
     (0, snd (router_select exact_kernel 0 sample_key 0 sample_maps))"
proof -
  have "wan_eligible (sample_wan 10 1 0)" by code_simp
  then have "fst (router_select exact_kernel 0 sample_key 0 sample_maps) = 0"
    by (simp add: sample_select_simps Let_def)
  then show ?thesis by (metis prod.collapse)
qed


text \<open>
  Persistence does not carry over to the other CPUs. The per-CPU map shares
  its keys between CPUs and zero-fills the other CPUs' slots when a session is
  created, and the local tier is consulted first, so the next packet of a new
  flow that arrives on another CPU hits the zeroed slot and is steered to WAN 0,
  whatever uplink the flow was given, whenever WAN 0 accepts sessions.
\<close>

theorem router_select_other_cpu:
  assumes k: "no_eviction k" and key: "trackable key"
    and new: "local_lru_map st key = None" "sticky_flow_map st key = None"
    and first: "router_select k c key d st = (t, st1)"
    and other: "c' \<noteq> c"
    and wan0: "array_lookup (wan_table_map st1) 0 = Some w0" "wan_accepts_session w0"
  shows "fst (router_select k c' key d' st1) = 0"
proof -
  have "router_sticky k c key (hash_5tuple key) d st = (None, st)"
    using new by (simp add: router_sticky_def lru_lookup_def)
  then have "router_dispatch k c key (hash_5tuple key) d st = (t, st1)"
    using first by (simp add: router_select_def)
  from router_dispatch_sessions(1) [OF this] have
    "local_lru_map st1 key = Some ((\<lambda>_. zero_session)
       (c := \<lparr>wan_idx = t, wan_id = t + 1, orig_src_ip = src_ip key, last_seen_ns = 0\<rparr>))"
    using k key new by (simp add: no_eviction_def percpu_insert_def)
  then show ?thesis
    using key wan0 other
    by (simp add: router_select_def router_sticky_def lru_lookup_def trackable_def Let_def
        zero_session_def MAX_EBPF_WANS_def)
qed

text \<open>
  WAN 0 is draining, WAN 1 is up: the flow starts on WAN 1 and moves to the
  draining WAN 0 with its first packet on another CPU.
\<close>

theorem router_select_other_cpu_witness:
  "fst (router_select exact_kernel 0 sample_key 0 (sample_maps_draining sample_maps)) = 1 \<and>
   fst (router_select exact_kernel 1 sample_key 0
     (snd (router_select exact_kernel 0 sample_key 0 (sample_maps_draining sample_maps)))) = 0"
proof
  let ?st = "sample_maps_draining sample_maps"
  have e: "\<not> wan_eligible (sample_wan 0 1 1)" "wan_eligible (sample_wan 10 1 0)"
    "wan_accepts_session (sample_wan 0 1 1)" by code_simp+
  then show one: "fst (router_select exact_kernel 0 sample_key 0 ?st) = 1"
    by (simp add: sample_select_simps Let_def)
  have "wan_table_map (snd (router_select exact_kernel 0 sample_key 0 ?st)) = wan_table_map ?st"
    by (simp add: router_select_def router_sticky_def lru_lookup_def sample_maps_def
        sample_maps_draining_def empty_router_maps_def router_dispatch_eq Let_def
        router_insert_sessions)
  then have w0: "array_lookup (wan_table_map (snd (router_select exact_kernel 0 sample_key 0 ?st))) 0
      = Some (sample_wan 0 1 1)"
    by (simp add: sample_maps_draining_def array_lookup_def)
  show "fst (router_select exact_kernel 1 sample_key 0
     (snd (router_select exact_kernel 0 sample_key 0 ?st))) = 0"
  proof (rule router_select_other_cpu [OF no_eviction_exact])
    show "trackable sample_key" by code_simp
    show "router_select exact_kernel 0 sample_key 0 ?st =
      (fst (router_select exact_kernel 0 sample_key 0 ?st),
       snd (router_select exact_kernel 0 sample_key 0 ?st))" by simp
  qed (use e w0 in \<open>simp_all add: sample_maps_draining_def sample_maps_def empty_router_maps_def\<close>)
qed

section \<open>Invariant of the session maps\<close>

text \<open>Every stored session belongs to a trackable flow and names a WAN of the table.\<close>

definition sessions_wf :: "router_maps \<Rightarrow> bool" where
  "sessions_wf st \<longleftrightarrow>
     (\<forall>key vals c. local_lru_map st key = Some vals \<longrightarrow> trackable key \<and> unat (wan_idx (vals c)) < MAX_EBPF_WANS) \<and>
     (\<forall>key s. sticky_flow_map st key = Some s \<longrightarrow> trackable key \<and> unat (wan_idx s) < MAX_EBPF_WANS)"

lemma sessions_wfD:
  assumes "sessions_wf st"
  shows "local_lru_map st key = Some vals \<Longrightarrow> trackable key"
    and "local_lru_map st key = Some vals \<Longrightarrow> unat (wan_idx (vals c)) < MAX_EBPF_WANS"
    and "sticky_flow_map st key = Some s \<Longrightarrow> trackable key"
    and "sticky_flow_map st key = Some s \<Longrightarrow> unat (wan_idx s) < MAX_EBPF_WANS"
  using assms by (auto simp: sessions_wf_def)

lemma sessions_wf_cong:
  "local_lru_map st' = local_lru_map st \<Longrightarrow> sticky_flow_map st' = sticky_flow_map st \<Longrightarrow>
   sessions_wf st' \<longleftrightarrow> sessions_wf st"
  by (simp add: sessions_wf_def)

lemma sessions_wf_local_update:
  assumes k: "percpu_update_ok k" and wf: "sessions_wf st"
    and s: "trackable key" "unat (wan_idx s) < MAX_EBPF_WANS"
  shows "sessions_wf (st\<lparr>local_lru_map := k_percpu_update k c (local_lru_map st) key s\<rparr>)"
proof -
  have "trackable key' \<and> unat (wan_idx (vals c')) < MAX_EBPF_WANS"
    if "k_percpu_update k c (local_lru_map st) key s key' = Some vals" for key' vals c'
  proof -
    have "k_percpu_update k c (local_lru_map st) key s key' \<in>
      {None, local_lru_map st key', percpu_insert c (local_lru_map st) key s key'}"
      using k by (simp add: percpu_update_ok_def)
    then have "local_lru_map st key' = Some vals \<or> percpu_insert c (local_lru_map st) key s key' = Some vals"
      using that by auto
    then show ?thesis
      using sessions_wfD(1,2) [OF wf] s
      by (auto simp: percpu_insert_def zero_session_def MAX_EBPF_WANS_def split: if_splits option.splits)
  qed
  then show ?thesis using wf by (auto simp: sessions_wf_def)
qed

lemma sessions_wf_sticky_update:
  assumes k: "lru_update_ok k" and wf: "sessions_wf st"
    and s: "trackable key" "unat (wan_idx s) < MAX_EBPF_WANS"
  shows "sessions_wf (st\<lparr>sticky_flow_map := k_lru_update k (sticky_flow_map st) key s\<rparr>)"
proof -
  have "trackable key' \<and> unat (wan_idx s') < MAX_EBPF_WANS"
    if "k_lru_update k (sticky_flow_map st) key s key' = Some s'" for key' s'
  proof -
    have "k_lru_update k (sticky_flow_map st) key s key' \<in>
      {None, sticky_flow_map st key', ((sticky_flow_map st)(key \<mapsto> s)) key'}"
      using k by (simp add: lru_update_ok_def)
    then have "sticky_flow_map st key' = Some s' \<or> ((sticky_flow_map st)(key \<mapsto> s)) key' = Some s'"
      using that by auto
    then show ?thesis using sessions_wfD(3,4) [OF wf] s by (auto split: if_splits)
  qed
  then show ?thesis using wf by (auto simp: sessions_wf_def)
qed

lemma sessions_wf_delete: "sessions_wf st \<Longrightarrow> sessions_wf (lru_delete key st)"
  by (auto simp: sessions_wf_def lru_delete_def)

lemma sessions_wf_lookup:
  assumes "percpu_update_ok k" "sessions_wf st"
  shows "sessions_wf (snd (lru_lookup k c key st))"
  using assms sessions_wf_local_update [OF assms] sessions_wfD(3,4) [OF assms(2)]
  by (auto simp: lru_lookup_def split: option.split)

lemma sessions_wf_sticky:
  assumes "percpu_update_ok k" "sessions_wf st"
  shows "sessions_wf (snd (router_sticky k c key h d st))"
proof -
  obtain so st1 where l: "lru_lookup k c key st = (so, st1)" by (cases "lru_lookup k c key st")
  then have "sessions_wf st1" using sessions_wf_lookup [OF assms, of c key] by simp
  then have "sessions_wf st1" "sessions_wf (stats_inc_session_evict c (lru_delete key st1))"
    "sessions_wf (stats_inc_sticky_hit c st1)"
    using sessions_wf_cong [of "stats_inc_sticky_hit c st1" st1] sessions_wf_delete [of st1 key]
      sessions_wf_cong [of "stats_inc_session_evict c (lru_delete key st1)" "lru_delete key st1"]
    by simp_all
  moreover have "sessions_wf (flow_debug_emit k key w ip h e d s) \<longleftrightarrow> sessions_wf s" for w ip e s
    by (rule sessions_wf_cong) simp_all
  ultimately show ?thesis
    by (auto simp: router_sticky_def l Let_def split: option.split)
qed

lemma unat_mod_less: "0 < unat (m::u32) \<Longrightarrow> unat (a mod m) < unat m"
  by (simp add: unat_mod)

lemma maglev_pick_bound: "unat (maglev_pick key h st) < MAX_EBPF_WANS"
  using unat_mod_less [of 256 h]
  by (auto simp: maglev_pick_def Let_def size_defs split: option.split)

lemma router_pick_bound: "unat (fst (router_pick k c key h st)) < MAX_EBPF_WANS"
  by (auto simp: router_pick_def maglev_pick_bound split: option.split)

lemma router_fallback_bound:
  assumes "unat t < MAX_EBPF_WANS"
  shows "unat (fst (router_fallback k c key h d t st)) < MAX_EBPF_WANS"
proof -
  have "unat j < MAX_EBPF_WANS"
    if "first_eligible 0 (take MAX_EBPF_WANS (wan_table_map st)) = Some (j, e)" for j e
    using first_eligible_Some [OF that] by (auto simp: MAX_EBPF_WANS_def unat_of_nat)
  then show ?thesis
    using assms by (auto simp: router_fallback_def Let_def split: option.split)
qed

lemma sessions_wf_insert:
  assumes "lru_update_ok k" "percpu_update_ok k" "sessions_wf st" "unat t < MAX_EBPF_WANS"
  shows "sessions_wf (router_insert k c key h d t st)"
proof (cases "trackable key")
  case True
  let ?s = "\<lparr>wan_idx = t, wan_id = t + 1, orig_src_ip = src_ip key, last_seen_ns = 0\<rparr>"
  let ?st = "st\<lparr>local_lru_map := k_percpu_update k c (local_lru_map st) key ?s\<rparr>"
  have "sessions_wf ?st"
    using assms True by (intro sessions_wf_local_update) simp_all
  then have "sessions_wf (?st\<lparr>sticky_flow_map := k_lru_update k (sticky_flow_map ?st) key ?s\<rparr>)"
    using assms True by (intro sessions_wf_sticky_update) simp_all
  then show ?thesis
    using True by (subst sessions_wf_cong) (auto simp: router_insert_sessions)
next
  case False
  then show ?thesis using assms by (subst sessions_wf_cong) (auto simp: router_insert_sessions)
qed

lemma router_select_wf:
  assumes "lru_update_ok k" "percpu_update_ok k" "sessions_wf st"
  shows "sessions_wf (snd (router_select k c key d st))"
proof -
  let ?h = "hash_5tuple key"
  obtain so st1 where l: "router_sticky k c key ?h d st = (so, st1)"
    by (cases "router_sticky k c key ?h d st")
  then have wf: "sessions_wf st1" using sessions_wf_sticky [OF assms(2,3), of c key ?h d] by simp
  let ?p = "router_pick k c key ?h st1"
  let ?f = "router_fallback k c key ?h d (fst ?p) (snd ?p)"
  have "sessions_wf (snd ?f)" using wf by (subst sessions_wf_cong) simp_all
  then have "sessions_wf (snd (router_dispatch k c key ?h d st1))"
    using assms by (simp add: router_dispatch_eq Let_def sessions_wf_insert router_fallback_bound
        router_pick_bound)
  then show ?thesis using wf by (simp add: router_select_def l split: option.split)
qed

lemma router_egress_sessions:
  assumes "router_egress k c key snat d t p st = Some (act, q, st')"
  shows "local_lru_map st' = local_lru_map st" "sticky_flow_map st' = sticky_flow_map st"
  using assms
  by (auto simp: router_egress_def router_snat_def wan_stats_update_def Let_def bind_eq_Some_conv
      split: if_splits option.splits prod.splits)

lemma xdp_router_func_wf:
  assumes "lru_update_ok k" "percpu_update_ok k" "sessions_wf st"
    and "xdp_router_func k c p st = Some (act, q, st')"
  shows "sessions_wf st'"
proof -
  obtain r where r: "parse_flow p = Some r" using parse_flow_total by blast
  show ?thesis
  proof (cases r)
    case Reject
    then show ?thesis using assms r by (simp add: xdp_router_func_def)
  next
    case (Parsed key)
    define st1 where "st1 = stats_inc_rx c (of_nat (length p)) st"
    have wf1: "sessions_wf st1" using assms(3) by (subst sessions_wf_cong) (simp_all add: st1_def)
    have "st' = st1 \<or> (\<exists>d snat. router_egress k c key snat d (fst (router_select k c key d st1)) p
        (snd (router_select k c key d st1)) = Some (act, q, st'))"
      using assms(4) r Parsed
      by (fastforce simp: xdp_router_func_def Let_def st1_def bind_eq_Some_conv split_beta
          split: if_splits)
    then show ?thesis
    proof
      assume "\<exists>d snat. router_egress k c key snat d (fst (router_select k c key d st1)) p
        (snd (router_select k c key d st1)) = Some (act, q, st')"
      then obtain d snat where "router_egress k c key snat d (fst (router_select k c key d st1)) p
        (snd (router_select k c key d st1)) = Some (act, q, st')" by blast
      from router_egress_sessions [OF this] show ?thesis
        using router_select_wf [OF assms(1,2) wf1, of c key d] sessions_wf_cong by blast
    qed (simp add: wf1)
  qed
qed

section \<open>Reachable states\<close>

text \<open>
  A run of the data plane: packets processed by the XDP program on any CPU,
  interleaved with control plane updates, which never write the session maps.
\<close>

inductive router_reachable :: "router_maps \<Rightarrow> bool" where
  start: "router_reachable empty_router_maps"
| packet: "router_reachable st \<Longrightarrow> lru_update_ok k \<Longrightarrow> percpu_update_ok k \<Longrightarrow>
    xdp_router_func k c p st = Some (act, q, st') \<Longrightarrow> router_reachable st'"
| control: "router_reachable st \<Longrightarrow> local_lru_map st' = local_lru_map st \<Longrightarrow>
    sticky_flow_map st' = sticky_flow_map st \<Longrightarrow> router_reachable st'"

lemma reachable_sessions_wf:
  assumes "router_reachable st"
  shows "sessions_wf st"
  using assms
proof (induction rule: router_reachable.induct)
  case start
  show ?case by (simp add: sessions_wf_def empty_router_maps_def)
next
  case (packet st k c p act q st')
  then show ?case using xdp_router_func_wf by blast
next
  case (control st st')
  then show ?case using sessions_wf_cong by blast
qed

text \<open>
  C7. In every reachable state the sessions are well-formed: each belongs to a
  flow that is neither DNS nor NTP and carries no RST or FIN flag, and its WAN
  index lies within the WAN table.
\<close>

theorem router_reachable_sessions_wf:
  assumes "router_reachable st"
  shows "sessions_wf st"
  using assms by (rule reachable_sessions_wf)

text \<open>The state after one UDP datagram, which opens a session.\<close>

definition sample_run :: router_maps where
  "sample_run = snd (snd (the (xdp_router_func exact_kernel 0 sample_frame empty_router_maps)))"

lemma sample_run_reachable: "router_reachable sample_run"
proof -
  obtain act q st' where "xdp_router_func exact_kernel 0 sample_frame empty_router_maps = Some (act, q, st')"
    using xdp_router_func_total by blast
  then show ?thesis
    using router_reachable.packet [OF start exact_kernel_ok(1,2)] by (auto simp: sample_run_def)
qed

theorem router_reachable_sessions_wf_witness: "sessions_wf sample_run"
  by (rule router_reachable_sessions_wf [OF sample_run_reachable])

text \<open>
  Closing a connection never ends its session. The session key contains the
  packet flags, and no stored key has RST or FIN, so a packet with one of them
  misses both session maps: it is dispatched like a new flow, the maps are left
  as they are, and no session-close event is emitted.
\<close>

theorem close_packet_never_evicts:
  assumes "router_reachable st" "has_close_flag key" "router_select k c key d st = (t, st')"
  shows "t = fst (router_dispatch k c key (hash_5tuple key) d st) \<and>
    local_lru_map st' = local_lru_map st \<and> sticky_flow_map st' = sticky_flow_map st \<and>
    (\<forall>e \<in> set (flow_ringbuf st') - set (flow_ringbuf st). ev_type e \<noteq> EVT_SESSION_CLOSE)"
proof -
  have "\<not> trackable key" using assms(2) by (simp add: trackable_def)
  note nt = this and wf = reachable_sessions_wf [OF assms(1)]
  have "local_lru_map st key = None"
    using sessions_wfD(1) [OF wf, of key] nt by (cases "local_lru_map st key") auto
  moreover have "sticky_flow_map st key = None"
    using sessions_wfD(3) [OF wf, of key] nt by (cases "sticky_flow_map st key") auto
  ultimately have "router_sticky k c key (hash_5tuple key) d st = (None, st)"
    by (simp add: router_sticky_def lru_lookup_def)
  then have disp: "router_dispatch k c key (hash_5tuple key) d st = (t, st')"
    using assms(3) by (simp add: router_select_def)
  have "\<forall>e \<in> set (flow_ringbuf st') - set (flow_ringbuf st). ev_type e \<noteq> EVT_SESSION_CLOSE"
    using disp assms(2)
    by (auto simp: router_dispatch_eq Let_def router_insert_def router_fallback_def router_pick_def
        flow_debug_emit_def stats_defs split: if_splits option.splits)
  then show ?thesis
    using disp router_dispatch_sessions [OF disp] nt by simp
qed

theorem close_packet_never_evicts_witness:
  "sticky_flow_map (snd (router_select exact_kernel 0 (sample_key\<lparr>pkt_flags := PKT_FLAG_FIN\<rparr>) 1 sample_run))
   = sticky_flow_map sample_run"
proof -
  have "has_close_flag (sample_key\<lparr>pkt_flags := PKT_FLAG_FIN\<rparr>)" by code_simp
  then show ?thesis
    using close_packet_never_evicts [OF sample_run_reachable] by (metis prod.collapse)
qed

section \<open>QUIC connection ids\<close>

lemma parse_udp_token:
  assumes "parse_udp p cur f = Some (Parsed key)" "quic_token key \<noteq> 0"
  shows "\<exists>dport t. key = f\<lparr>src_ip := 0, src_port := 0, dst_port := dport, pkt_flags := PKT_FLAG_QUIC,
    quic_token := t\<rparr>"
proof -
  have "key = f\<lparr>src_ip := 0, src_port := 0, dst_port := dst_port key, pkt_flags := PKT_FLAG_QUIC,
    quic_token := quic_token key\<rparr>"
    using assms by (auto simp: parse_udp_def Let_def bind_eq_Some_conv split: if_splits)
  then show ?thesis by blast
qed

text \<open>
  QUIC connections roam. Two datagrams to the same server and port whose
  connection ids carry the same non-zero token have the same flow key, whatever
  client address and port they come from, so they share session and uplink.
\<close>

theorem quic_roaming_same_key:
  assumes "parse_udp p cur f = Some (Parsed k1)" "parse_udp p' cur' f' = Some (Parsed k2)"
    and "quic_token k1 \<noteq> 0" "quic_token k2 = quic_token k1" "dst_port k2 = dst_port k1"
    and "dst_ip f' = dst_ip f" "proto f' = proto f"
  shows "k1 = k2"
proof -
  obtain d1 t1 where k1: "k1 = f\<lparr>src_ip := 0, src_port := 0, dst_port := d1, pkt_flags := PKT_FLAG_QUIC,
    quic_token := t1\<rparr>" using parse_udp_token [OF assms(1,3)] by blast
  obtain d2 t2 where k2: "k2 = f'\<lparr>src_ip := 0, src_port := 0, dst_port := d2, pkt_flags := PKT_FLAG_QUIC,
    quic_token := t2\<rparr>" using parse_udp_token [OF assms(2)] assms(3,4) by auto
  show ?thesis using assms(4-7) by (simp add: k1 k2)
qed

text \<open>A QUIC short-header datagram to port 443 from a given source port.\<close>

definition quic_datagram :: "u8 \<Rightarrow> buf" where
  "quic_datagram sport = [0x30, sport, 0x01, 0xBB, 0, 13, 0, 0, 0x40, 0x41, 0x12, 0x34, 0x56]"

definition udp_flow :: "u32 \<Rightarrow> flow_5tuple" where
  "udp_flow src = empty_flow\<lparr>src_ip := src, dst_ip := 0x08080808, proto := IPPROTO_UDP\<rparr>"

definition quic_key :: flow_5tuple where
  "quic_key = (udp_flow 0)\<lparr>dst_port := 0xBB01, pkt_flags := PKT_FLAG_QUIC, quic_token := 0x1234\<rparr>"

lemma quic_sample_keys:
  "parse_udp (quic_datagram 1) 0 (udp_flow 0x0200000A) = Some (Parsed quic_key)"
  "parse_udp (quic_datagram 2) 0 (udp_flow 0x05060708) = Some (Parsed quic_key)"
  by code_simp+

theorem quic_roaming_same_key_witness:
  "\<exists>k1 k2. parse_udp (quic_datagram 1) 0 (udp_flow 0x0200000A) = Some (Parsed k1) \<and>
     parse_udp (quic_datagram 2) 0 (udp_flow 0x05060708) = Some (Parsed k2) \<and>
     quic_token k1 = 0x1234 \<and> k1 = k2"
proof (intro exI conjI)
  show "quic_token quic_key = 0x1234" by (simp add: quic_key_def)
  then show "quic_key = quic_key"
    using quic_roaming_same_key [OF quic_sample_keys] by (simp add: udp_flow_def)
qed (rule quic_sample_keys)+

text \<open>
  The same normalisation hides the client from the later steps: a datagram
  with a connection id token has source address 0 in its key, so it matches no
  policy route with a non-zero subnet and is never source-translated, although
  both rules are meant for the client address.
\<close>

theorem quic_bypasses_policy_and_snat:
  assumes "parse_udp p cur f = Some (Parsed key)" "quic_token key \<noteq> 0"
    and "\<And>pe. pe \<in> set pes \<Longrightarrow> subnet_ip pe \<noteq> 0"
  shows "policy_group (src_ip key) pes = 0 \<and>
    router_snat k c key snat_on d t wan pkt st = Some (pkt, st)"
proof -
  have src: "src_ip key = 0" using parse_udp_token [OF assms(1,2)] by auto
  have "\<not> is_rfc1918 (ntohl 0)" by code_simp
  moreover have "policy_group 0 pes = 0" using assms(3) by (induction pes) auto
  ultimately show ?thesis by (simp add: src router_snat_def split: option.split)
qed

theorem quic_bypasses_policy_and_snat_witness:
  "policy_group (src_ip quic_key)
     [\<lparr>subnet_ip = htonl 0x0A000000, netmask = htonl 0xFF000000, target_group = 1, pe_is_active = 1\<rparr>] = 0 \<and>
   router_snat exact_kernel 0 quic_key 1 0 0 (Some (sample_wan 10 1 0)) sample_frame empty_router_maps
     = Some (sample_frame, empty_router_maps)"
proof (rule quic_bypasses_policy_and_snat [OF quic_sample_keys(1)])
  show "quic_token quic_key \<noteq> 0" by code_simp
next
  fix pe
  assume "pe \<in> set [\<lparr>subnet_ip = htonl 0x0A000000, netmask = htonl 0xFF000000, target_group = 1,
    pe_is_active = 1\<rparr>]"
  moreover have "htonl 0x0A000000 \<noteq> 0" by code_simp
  ultimately show "subnet_ip pe \<noteq> 0" by simp
qed

end
