(* ===== verification/Xdp_Dispatcher.thy ===== *)
theory Xdp_Dispatcher
  imports Xdp_Rewrite
begin

text \<open>
  The tail-call pipeline (\<open>bpf/xdp_dispatcher.bpf.c\<close>): dispatcher, classifier, load
  balancer, SNAT rewriter and statistics, which hand a packet on through a per-CPU context.
  The programs installed in the jump table are the argument \<open>progs\<close>; a failed tail call
  returns \<open>XDP_PASS\<close>. Parsers and checksums that are the same code as in
  \<open>bpf/xdp_router.bpf.c\<close> are shared with its model.
\<close>

section \<open>Definitions\<close>

record xdp_pkt_ctx =
  pc_src_ip :: u32
  pc_dst_ip :: u32
  pc_src_port :: u16
  pc_dst_port :: u16
  pc_proto :: u8
  pc_pkt_flags :: u8
  pc_stage :: u8
  is_lan_src :: bool
  target_wan_idx :: u32
  pc_wan_ip :: u32
  pc_flow_hash :: u32

record disp_wan_entry =
  dw_wan_id :: u32
  dw_ifindex :: u32
  dw_ip_addr :: u32
  dw_gateway :: u32
  dw_weight :: u32
  dw_is_active :: u32
  dw_table_id :: u32
  dw_fwmark :: u32

record disp_maps =
  pkt_ctx_map :: xdp_pkt_ctx
  dm_maglev_lut :: "u32 list"
  dm_wan_table :: "disp_wan_entry list"
  dm_sticky_flow :: sticky_map
  dm_percpu_stats :: "bpf_wan_stats list"

datatype disp_prog = PROG_CLASSIFIER | PROG_LB | PROG_SNAT | PROG_STATS

type_synonym disp_result = "(xdp_action \<times> buf \<times> disp_maps) option"

definition upd_ctx :: "(xdp_pkt_ctx \<Rightarrow> xdp_pkt_ctx) \<Rightarrow> disp_maps \<Rightarrow> disp_maps" where
  "upd_ctx f st = st\<lparr>pkt_ctx_map := f (pkt_ctx_map st)\<rparr>"

definition hash_5tuple_ctx :: "xdp_pkt_ctx \<Rightarrow> u32" where
  "hash_5tuple_ctx c =
     (let h = pc_src_ip c XOR pc_dst_ip c;
          h = h XOR (push_bit 16 (ucast (pc_src_port c)) OR ucast (pc_dst_port c));
          h = h XOR ucast (pc_proto c);
          h = (h XOR drop_bit 16 h) * 0x45d9f3b;
          h = (h XOR drop_bit 16 h) * 0x45d9f3b
      in h XOR drop_bit 16 h)"

text \<open>Stage 4: statistics.\<close>

definition xdp_stats :: "buf \<Rightarrow> disp_maps \<Rightarrow> disp_result" where
  "xdp_stats p st =
     (let c = pkt_ctx_map st;
          i = (if unat (target_wan_idx c) \<ge> MAX_EBPF_WANS then 0 else target_wan_idx c)
      in Some (XDP_PASS, p, st\<lparr>dm_percpu_stats := array_modify
           (\<lambda>s. s\<lparr>ws_rx_packets := ws_rx_packets s + 1, ws_rx_bytes := ws_rx_bytes s + of_nat (length p),
                  ws_snat_packets := (if pc_wan_ip c \<noteq> 0 \<and> is_lan_src c then ws_snat_packets s + 1
                                      else ws_snat_packets s)\<rparr>) i (dm_percpu_stats st)\<rparr>))"

text \<open>Stage 3: the rewriting of the source address.\<close>

definition snat_rewrite :: "u32 \<Rightarrow> buf \<Rightarrow> buf option" where
  "snat_rewrite wan_ip p =
     (if length p < 14 then Some p
      else if length p < 34 then Some p
      else do {
        vihl \<leftarrow> ld8 p 14;
        if ip_version vihl \<noteq> 4 \<or> ip_ihl vihl < 5 then Some p
        else do {
          p \<leftarrow> st32 p 26 wan_ip;
          update_ip_checksum p 14
        }
      })"

definition xdp_snat :: "(disp_prog \<Rightarrow> bool) \<Rightarrow> buf \<Rightarrow> disp_maps \<Rightarrow> disp_result" where
  "xdp_snat progs p st = do {
     let c = pkt_ctx_map st;
     p \<leftarrow> (if is_lan_src c \<and> pc_wan_ip c \<noteq> 0 then snat_rewrite (pc_wan_ip c) p else Some p);
     let st = upd_ctx (\<lambda>c. c\<lparr>pc_stage := 3\<rparr>) st;
     if progs PROG_STATS then xdp_stats p st else Some (XDP_PASS, p, st)
   }"

text \<open>Stage 2: the choice of the WAN.\<close>

abbreviation disp_eligible :: "disp_wan_entry \<Rightarrow> bool" where
  "disp_eligible we \<equiv> dw_is_active we \<noteq> 0 \<and> dw_weight we > 0"

fun disp_first :: "u32 \<Rightarrow> disp_wan_entry list \<Rightarrow> u32 option" where
  "disp_first i [] = None"
| "disp_first i (e # es) = (if disp_eligible e then Some i else disp_first (i + 1) es)"

definition ctx_key :: "xdp_pkt_ctx \<Rightarrow> flow_5tuple" where
  "ctx_key c = \<lparr>src_ip = pc_src_ip c, dst_ip = pc_dst_ip c, src_port = pc_src_port c, dst_port = pc_dst_port c,
     proto = pc_proto c, pkt_flags = pc_pkt_flags c, quic_token = 0\<rparr>"

definition lb_sticky :: "flow_5tuple \<Rightarrow> disp_maps \<Rightarrow> u32 option \<times> disp_maps" where
  "lb_sticky fkey st =
     (case dm_sticky_flow st fkey of None \<Rightarrow> (None, st)
      | Some s \<Rightarrow>
          if unat (wan_idx s) < MAX_EBPF_WANS \<and>
             (case array_lookup (dm_wan_table st) (wan_idx s) of None \<Rightarrow> False | Some we \<Rightarrow> disp_eligible we)
          then if pkt_flags fkey AND (PKT_FLAG_RST OR PKT_FLAG_FIN) \<noteq> 0
               then (None, st\<lparr>dm_sticky_flow := (dm_sticky_flow st)(fkey := None)\<rparr>)
               else (Some (wan_idx s), st)
          else (None, st))"

definition lb_pick :: "u32 \<Rightarrow> disp_maps \<Rightarrow> u32" where
  "lb_pick flow_hash st =
     (let target = (case array_lookup (dm_maglev_lut st) (flow_hash mod of_nat MAGLEV_RING_SIZE) of
                      Some w \<Rightarrow> if unat w < MAX_EBPF_WANS then w else flow_hash mod of_nat MAX_EBPF_WANS
                    | None \<Rightarrow> flow_hash mod of_nat MAX_EBPF_WANS);
          ok = (case array_lookup (dm_wan_table st) target of None \<Rightarrow> False | Some we \<Rightarrow> disp_eligible we)
      in if ok then target
         else case disp_first 0 (take MAX_EBPF_WANS (dm_wan_table st)) of None \<Rightarrow> target | Some fi \<Rightarrow> fi)"

definition lb_save :: "kernel \<Rightarrow> flow_5tuple \<Rightarrow> u32 \<Rightarrow> disp_maps \<Rightarrow> disp_maps" where
  "lb_save k fkey target st =
     (if pkt_flags fkey AND (PKT_FLAG_RST OR PKT_FLAG_FIN) = 0
      then st\<lparr>dm_sticky_flow := k_lru_update k (dm_sticky_flow st) fkey
             \<lparr>wan_idx = target, wan_id = target + 1, orig_src_ip = src_ip fkey, last_seen_ns = 0\<rparr>\<rparr>
      else st)"

definition lb_select :: "kernel \<Rightarrow> disp_maps \<Rightarrow> u32 \<times> disp_maps" where
  "lb_select k st =
     (let fkey = ctx_key (pkt_ctx_map st)
      in case lb_sticky fkey st of
           (Some target, st) \<Rightarrow> (target, st)
         | (None, st) \<Rightarrow> let target = lb_pick (pc_flow_hash (pkt_ctx_map st)) st in (target, lb_save k fkey target st))"

definition lb_wan_ip :: "u32 \<Rightarrow> disp_maps \<Rightarrow> disp_maps" where
  "lb_wan_ip target st =
     (case array_lookup (dm_wan_table st) target of None \<Rightarrow> st
      | Some we \<Rightarrow> if dw_is_active we \<noteq> 0 then upd_ctx (\<lambda>c. c\<lparr>pc_wan_ip := dw_ip_addr we\<rparr>) st else st)"

definition xdp_lb :: "(disp_prog \<Rightarrow> bool) \<Rightarrow> kernel \<Rightarrow> buf \<Rightarrow> disp_maps \<Rightarrow> disp_result" where
  "xdp_lb progs k p st =
     (case lb_select k st of (target, st) \<Rightarrow>
        let st = lb_wan_ip target (upd_ctx (\<lambda>c. c\<lparr>target_wan_idx := target\<rparr>) st);
            st = upd_ctx (\<lambda>c. c\<lparr>pc_stage := 2\<rparr>) st
        in if progs PROG_SNAT then xdp_snat progs p st else Some (XDP_PASS, p, st))"

text \<open>Stage 1: the classifier. A rejected packet leaves what was parsed so far in the context.\<close>

definition classify_l4 :: "buf \<Rightarrow> nat \<Rightarrow> u8 \<Rightarrow> (u16 \<times> u16 \<times> u8) parsed option" where
  "classify_l4 p cur pr =
     (if pr = IPPROTO_TCP then
        if cur + 20 > length p then Some Reject
        else do {
          sport \<leftarrow> ld16 p cur;
          dport \<leftarrow> ld16 p (cur + 2);
          bits \<leftarrow> ld8 p (cur + 13);
          Some (Parsed (sport, dport, (if bit bits 1 then PKT_FLAG_SYN else 0) OR
            (if bit bits 2 then PKT_FLAG_RST else 0) OR (if bit bits 0 then PKT_FLAG_FIN else 0)))
        }
      else if pr = IPPROTO_UDP then
        if cur + 8 > length p then Some Reject
        else do {
          sport \<leftarrow> ld16 p cur;
          dport \<leftarrow> ld16 p (cur + 2);
          Some (Parsed (sport, dport, 0))
        }
      else if pr = IPPROTO_ICMP then
        if cur + 8 > length p then Some Reject
        else do {
          ident \<leftarrow> ld16 p (cur + 4);
          sequence \<leftarrow> ld16 p (cur + 6);
          Some (Parsed (ident, sequence, PKT_FLAG_ICMP))
        }
      else Some Reject)"

definition lan_source :: "u32 \<Rightarrow> bool" where
  "lan_source ip =
     (let src = ntohl ip
      in src AND 0xFF000000 = 0x0A000000 \<or> src AND 0xFFF00000 = 0xAC100000 \<or> src AND 0xFFFF0000 = 0xC0A80000)"

definition xdp_classifier :: "(disp_prog \<Rightarrow> bool) \<Rightarrow> kernel \<Rightarrow> buf \<Rightarrow> disp_maps \<Rightarrow> disp_result" where
  "xdp_classifier progs k p st = do {
     eth \<leftarrow> parse_eth p 0;
     case eth of Reject \<Rightarrow> Some (XDP_PASS, p, st)
     | Parsed (cur, h_proto) \<Rightarrow>
         if h_proto \<noteq> htons ETH_P_IP then Some (XDP_PASS, p, st)
         else do {
           ip \<leftarrow> parse_ipv4 p cur (ctx_key (pkt_ctx_map st));
           case ip of Reject \<Rightarrow> Some (XDP_PASS, p, st)
           | Parsed (cur, flow) \<Rightarrow> do {
               let st = upd_ctx (\<lambda>c. c\<lparr>pc_src_ip := src_ip flow, pc_dst_ip := dst_ip flow, pc_proto := proto flow\<rparr>) st;
               l4 \<leftarrow> classify_l4 p cur (proto flow);
               case l4 of Reject \<Rightarrow> Some (XDP_PASS, p, st)
               | Parsed (sport, dport, fl) \<Rightarrow>
                   let st = upd_ctx (\<lambda>c. c\<lparr>pc_src_port := sport, pc_dst_port := dport, pc_pkt_flags := fl,
                              is_lan_src := lan_source (pc_src_ip c)\<rparr>) st;
                       st = upd_ctx (\<lambda>c. c\<lparr>pc_flow_hash := hash_5tuple_ctx c, pc_stage := 1\<rparr>) st
                   in if progs PROG_LB then xdp_lb progs k p st else Some (XDP_PASS, p, st)
             }
         }
   }"

text \<open>Stage 0: the entry point.\<close>

definition xdp_dispatcher :: "(disp_prog \<Rightarrow> bool) \<Rightarrow> kernel \<Rightarrow> buf \<Rightarrow> disp_maps \<Rightarrow> disp_result" where
  "xdp_dispatcher progs k p st =
     (let st = upd_ctx (\<lambda>c. c\<lparr>pc_stage := 0, target_wan_idx := 0, pc_wan_ip := 0, pc_flow_hash := 0,
                 pc_pkt_flags := 0, is_lan_src := False\<rparr>) st
      in if progs PROG_CLASSIFIER then xdp_classifier progs k p st else Some (XDP_PASS, p, st))"

section \<open>Safety and SNAT\<close>

text \<open>What the pipeline may do to a frame: nothing, or a source rewrite with a valid checksum.\<close>

definition snat_effect :: "disp_maps \<Rightarrow> buf \<Rightarrow> buf \<Rightarrow> bool" where
  "snat_effect st p q \<longleftrightarrow> q = p \<or>
     (length q = length p \<and> csum_valid q 14 10 \<and>
      (\<exists>we \<in> set (dm_wan_table st). dw_is_active we \<noteq> 0 \<and> ld32 q 26 = Some (dw_ip_addr we)) \<and>
      (\<forall>i. i \<notin> {24..25} \<union> {26..29} \<longrightarrow> q ! i = p ! i))"

lemma snat_rewrite_spec:
  "\<exists>q. snat_rewrite ip p = Some q \<and>
    (q = p \<or> (length q = length p \<and> csum_valid q 14 10 \<and> ld32 q 26 = Some ip \<and>
      (\<forall>i. i \<notin> {24..25} \<union> {26..29} \<longrightarrow> q ! i = p ! i)))"
proof (cases "length p < 34 \<or> ip_version (p ! 14) \<noteq> 4 \<or> ip_ihl (p ! 14) < 5")
  case True
  then show ?thesis by (auto simp: snat_rewrite_def mem_simps)
next
  case False
  define r where "r = p[26 := byte_of32 0 ip, 27 := byte_of32 1 ip, 28 := byte_of32 2 ip, 29 := byte_of32 3 ip]"
  have l: "length r = length p" by (simp add: r_def)
  obtain q a b where q: "update_ip_checksum r 14 = Some q" "csum_valid q 14 10" "q = r[14 + 10 := a, Suc (14 + 10) := b]"
    by (rule update_ip_checksum_correct [of 14 r]) (use False l in auto)
  have "snat_rewrite ip p = Some q" using False q(1) by (simp add: snat_rewrite_def mem_simps r_def)
  moreover have "ld32 q 26 = Some ip" using False l q(3) by (simp add: r_def ld32_def nth_upd)
  moreover have "q ! i = p ! i" if "i \<notin> {24..25} \<union> {26..29}" for i
    using that False by (auto simp: q(3) r_def nth_upd)
  ultimately show ?thesis using q(2,3) l by auto
qed

lemma xdp_stats_frame: "\<exists>st'. xdp_stats p st = Some (XDP_PASS, p, st')"
  by (simp add: xdp_stats_def Let_def)

text \<open>The address for SNAT is zero or that of an active WAN of the table.\<close>

definition ctx_wan_ok :: "disp_wan_entry list \<Rightarrow> disp_maps \<Rightarrow> bool" where
  "ctx_wan_ok tbl st \<longleftrightarrow> pc_wan_ip (pkt_ctx_map st) = 0 \<or>
     (\<exists>we \<in> set tbl. dw_is_active we \<noteq> 0 \<and> pc_wan_ip (pkt_ctx_map st) = dw_ip_addr we)"

lemma xdp_snat_safe:
  assumes "ctx_wan_ok (dm_wan_table st0) st"
  shows "\<exists>q st'. xdp_snat progs p st = Some (XDP_PASS, q, st') \<and> snat_effect st0 p q"
proof -
  obtain q where q: "snat_rewrite (pc_wan_ip (pkt_ctx_map st)) p = Some q"
    "q = p \<or> length q = length p \<and> csum_valid q 14 10 \<and> ld32 q 26 = Some (pc_wan_ip (pkt_ctx_map st)) \<and>
      (\<forall>i. i \<notin> {24..25} \<union> {26..29} \<longrightarrow> q ! i = p ! i)"
    using snat_rewrite_spec by blast
  show ?thesis
  proof (cases "is_lan_src (pkt_ctx_map st) \<and> pc_wan_ip (pkt_ctx_map st) \<noteq> 0")
    case True
    then have "snat_effect st0 p q" using q(2) assms by (auto simp: snat_effect_def ctx_wan_ok_def)
    then show ?thesis
      using True q(1) xdp_stats_frame [of q "upd_ctx (\<lambda>c. c\<lparr>pc_stage := 3\<rparr>) st"]
      by (auto simp: xdp_snat_def Let_def)
  next
    case False
    then show ?thesis
      using xdp_stats_frame [of p "upd_ctx (\<lambda>c. c\<lparr>pc_stage := 3\<rparr>) st"]
      by (auto simp: xdp_snat_def Let_def snat_effect_def)
  qed
qed

lemma lb_select_frame:
  "dm_wan_table (snd (lb_select k st)) = dm_wan_table st \<and> pkt_ctx_map (snd (lb_select k st)) = pkt_ctx_map st"
  by (auto simp: lb_select_def lb_sticky_def lb_save_def Let_def split: option.splits)

lemma xdp_lb_safe:
  assumes "pc_wan_ip (pkt_ctx_map st) = 0"
  shows "\<exists>q st'. xdp_lb progs k p st = Some (XDP_PASS, q, st') \<and> snat_effect st p q"
proof -
  obtain target st1 where sel: "lb_select k st = (target, st1)" by (cases "lb_select k st")
  then have fr: "dm_wan_table st1 = dm_wan_table st" "pkt_ctx_map st1 = pkt_ctx_map st"
    using lb_select_frame [of k st] by simp_all
  define st2 where "st2 = lb_wan_ip target (upd_ctx (\<lambda>c. c\<lparr>target_wan_idx := target\<rparr>) st1)"
  let ?st3 = "upd_ctx (\<lambda>c. c\<lparr>pc_stage := 2\<rparr>) st2"
  have "ctx_wan_ok (dm_wan_table st) ?st3"
    using assms fr
    by (auto simp: ctx_wan_ok_def st2_def lb_wan_ip_def upd_ctx_def array_lookup_Some_iff split: option.splits intro!: bexI nth_mem)
  moreover have "xdp_lb progs k p st = (if progs PROG_SNAT then xdp_snat progs p ?st3 else Some (XDP_PASS, p, ?st3))"
    using sel by (simp add: xdp_lb_def Let_def st2_def)
  ultimately show ?thesis using xdp_snat_safe [of st ?st3 progs p] by (auto simp: snat_effect_def)
qed

lemma classify_l4_total: "\<exists>r. classify_l4 p cur pr = Some r"
  by (auto simp: classify_l4_def mem_simps)

lemma snat_effect_cong: "dm_wan_table st' = dm_wan_table st \<Longrightarrow> snat_effect st' p q = snat_effect st p q"
  by (simp add: snat_effect_def)

lemma upd_ctx_table [simp]: "dm_wan_table (upd_ctx f st) = dm_wan_table st"
  by (simp add: upd_ctx_def)

lemma xdp_classifier_safe:
  assumes "pc_wan_ip (pkt_ctx_map st) = 0"
  shows "\<exists>q st'. xdp_classifier progs k p st = Some (XDP_PASS, q, st') \<and> snat_effect st p q"
proof -
  have pass: "snat_effect st p p" by (simp add: snat_effect_def)
  obtain eth where eth: "parse_eth p 0 = Some eth" using parse_eth_total by blast
  show ?thesis
  proof (cases "\<exists>cur. eth = Parsed (cur, htons ETH_P_IP)")
    case False
    then show ?thesis using eth pass by (cases eth) (auto simp: xdp_classifier_def)
  next
    case True
    then obtain cur where e: "eth = Parsed (cur, htons ETH_P_IP)" ..
    obtain ip where ip: "parse_ipv4 p cur (ctx_key (pkt_ctx_map st)) = Some ip" using parse_ipv4_total by blast
    show ?thesis
    proof (cases ip)
      case Reject
      then show ?thesis using eth e ip pass by (simp add: xdp_classifier_def)
    next
      case (Parsed r)
      obtain cur2 flow where r: "r = (cur2, flow)" by (cases r)
      define st1 where "st1 = upd_ctx (\<lambda>c. c\<lparr>pc_src_ip := src_ip flow, pc_dst_ip := dst_ip flow, pc_proto := proto flow\<rparr>) st"
      obtain l4 where l4: "classify_l4 p cur2 (proto flow) = Some l4" using classify_l4_total by blast
      show ?thesis
      proof (cases l4)
        case Reject
        then show ?thesis using eth e ip Parsed r l4 pass by (simp add: xdp_classifier_def)
      next
        case l4p: (Parsed t)
        obtain sport dport fl where t: "t = (sport, dport, fl)" by (cases t)
        define st2 where "st2 = upd_ctx (\<lambda>c. c\<lparr>pc_flow_hash := hash_5tuple_ctx c, pc_stage := 1\<rparr>)
          (upd_ctx (\<lambda>c. c\<lparr>pc_src_port := sport, pc_dst_port := dport, pc_pkt_flags := fl,
             is_lan_src := lan_source (pc_src_ip c)\<rparr>) st1)"
        have "xdp_classifier progs k p st = (if progs PROG_LB then xdp_lb progs k p st2 else Some (XDP_PASS, p, st2))"
          using eth e ip Parsed r l4 l4p t by (simp add: xdp_classifier_def Let_def st2_def st1_def)
        moreover have "pc_wan_ip (pkt_ctx_map st2) = 0" using assms by (simp add: st2_def st1_def upd_ctx_def)
        moreover have "dm_wan_table st2 = dm_wan_table st" by (simp add: st2_def st1_def)
        ultimately show ?thesis
          using xdp_lb_safe [of st2 progs k p] pass snat_effect_cong [of st2 st p] by auto
      qed
    qed
  qed
qed


definition sample_disp :: disp_maps where
  "sample_disp = \<lparr>pkt_ctx_map = \<lparr>pc_src_ip = 0, pc_dst_ip = 0, pc_src_port = 0, pc_dst_port = 0, pc_proto = 0,
       pc_pkt_flags = 0, pc_stage = 0, is_lan_src = False, target_wan_idx = 0, pc_wan_ip = 0, pc_flow_hash = 0\<rparr>,
     dm_maglev_lut = [0], dm_wan_table = [\<lparr>dw_wan_id = 1, dw_ifindex = 3, dw_ip_addr = 0x01020304, dw_gateway = 0,
       dw_weight = 10, dw_is_active = 1, dw_table_id = 101, dw_fwmark = 0x101\<rparr>],
     dm_sticky_flow = Map.empty, dm_percpu_stats = [zero_wan_stats]\<rparr>"


end
