(* ===== verification/Xdp_Health.thy ===== *)
theory Xdp_Health
  imports Xdp_Types
begin

text \<open>
  The in-kernel health checker (\<open>bpf/xdp_healthchecker.bpf.c\<close>): the XDP program that takes
  echo replies with the probe identifier, and the TC program that accounts for the probes.
  Every read of the clock is an argument of its own; the rate limit map is that of the CPU
  the program runs on.
\<close>

section \<open>Definitions\<close>

abbreviation HC_PROBE_MAGIC_ID :: u16 where "HC_PROBE_MAGIC_ID \<equiv> 0xF1A7"
definition HC_PROBE_INTERVAL_NS :: u64 where "HC_PROBE_INTERVAL_NS = 500 * 1000000"

record hc_probe_key =
  hk_wan_ifindex :: u32
  hk_gateway_ip :: u32
  hk_wan_ip :: u32

record hc_result =
  last_probe_ns :: u64
  last_reply_ns :: u64
  rtt_us :: u32
  is_alive :: u32
  probe_count :: u32
  reply_count :: u32
  miss_count :: u32

record hc_maps =
  hc_probe_target_map :: "hc_probe_key list"
  hc_result_map :: "u32 \<rightharpoonup> hc_result"
  hc_rate_limit_map :: "u64 list"

definition record_reply :: "u64 \<Rightarrow> u64 \<Rightarrow> u32 \<Rightarrow> hc_maps \<Rightarrow> hc_maps" where
  "record_reply now later i st =
     (let res = (case hc_result_map st i of
          Some r \<Rightarrow>
            r\<lparr>rtt_us := (if last_probe_ns r > 0 \<and> now > last_probe_ns r
                         then ucast ((now - last_probe_ns r) div 1000) else rtt_us r),
              last_reply_ns := later, is_alive := 1, reply_count := reply_count r + 1, miss_count := 0\<rparr>
        | None \<Rightarrow> \<lparr>last_probe_ns = 0, last_reply_ns = later, rtt_us = 0, is_alive = 1, probe_count = 0,
                   reply_count = 1, miss_count = 0\<rparr>)
      in st\<lparr>hc_result_map := (hc_result_map st)(i \<mapsto> res)\<rparr>)"

definition xdp_hc_rx :: "u64 \<Rightarrow> u64 \<Rightarrow> buf \<Rightarrow> hc_maps \<Rightarrow> hc_maps option" where
  "xdp_hc_rx now later p st =
     (if length p < 14 then Some st
      else do {
        h_proto \<leftarrow> ld16 p 12;
        if h_proto \<noteq> htons ETH_P_IP \<or> length p < 34 then Some st
        else do {
          pr \<leftarrow> ld8 p 23;
          if pr \<noteq> IPPROTO_ICMP then Some st
          else do {
            vihl \<leftarrow> ld8 p 14;
            let icmph = 14 + unat (vihl AND 0x0F) * 4;
            if icmph + 8 > length p then Some st
            else do {
              ty \<leftarrow> ld8 p icmph;
              ident \<leftarrow> ld16 p (icmph + 4);
              sequence \<leftarrow> ld16 p (icmph + 6);
              if ty \<noteq> ICMP_ECHOREPLY \<or> htons ident \<noteq> HC_PROBE_MAGIC_ID then Some st
              else Some (record_reply now later (ucast (htons sequence) AND 0x07) st)
            }
          }
        }
      })"

definition count_probe :: "u64 \<Rightarrow> hc_result \<Rightarrow> hc_result" where
  "count_probe now r =
     (let m = (if miss_count r < 255 then miss_count r + 1 else miss_count r)
      in r\<lparr>last_probe_ns := now, probe_count := probe_count r + 1, miss_count := m,
           is_alive := (if m \<ge> 3 then 0 else is_alive r)\<rparr>)"

definition probe_due :: "u64 \<Rightarrow> u32 \<Rightarrow> hc_maps \<Rightarrow> bool" where
  "probe_due now i st \<longleftrightarrow>
     \<not> (case array_lookup (hc_rate_limit_map st) i of None \<Rightarrow> False | Some ts \<Rightarrow> now - ts < HC_PROBE_INTERVAL_NS) \<and>
     (case array_lookup (hc_probe_target_map st) i of None \<Rightarrow> False
      | Some t \<Rightarrow> hk_gateway_ip t \<noteq> 0 \<and> hk_wan_ip t \<noteq> 0)"

definition hc_tx_wan :: "u64 \<Rightarrow> hc_maps \<Rightarrow> nat \<Rightarrow> hc_maps" where
  "hc_tx_wan now st n =
     (let i = of_nat n
      in if probe_due now i st
         then st\<lparr>hc_rate_limit_map := array_modify (\<lambda>_. now) i (hc_rate_limit_map st),
                 hc_result_map := (case hc_result_map st i of None \<Rightarrow> hc_result_map st
                                   | Some r \<Rightarrow> (hc_result_map st)(i \<mapsto> count_probe now r))\<rparr>
         else st)"

definition tc_hc_tx :: "u64 \<Rightarrow> hc_maps \<Rightarrow> hc_maps" where
  "tc_hc_tx now st = foldl (hc_tx_wan now) st [0..<MAX_EBPF_WANS]"

text \<open>A history of the two programs: runs of the sender, and frames the receiver sees.\<close>

datatype hc_event = Tx u64 | Rx u64 u64 buf

fun hc_event_step :: "hc_maps \<Rightarrow> hc_event \<Rightarrow> hc_maps" where
  "hc_event_step st (Tx now) = tc_hc_tx now st"
| "hc_event_step st (Rx now later p) = the (xdp_hc_rx now later p st)"

text \<open>The runs of the sender are at least a probe interval apart.\<close>

fun spaced :: "u64 \<Rightarrow> hc_event list \<Rightarrow> bool" where
  "spaced l [] \<longleftrightarrow> True"
| "spaced l (Tx now # es) \<longleftrightarrow> HC_PROBE_INTERVAL_NS \<le> now - l \<and> spaced now es"
| "spaced l (Rx now later p # es) \<longleftrightarrow> spaced l es"

text \<open>The frame is credited to the link: it changes the link's result in some state.\<close>

definition hc_reply_to :: "buf \<Rightarrow> u32 option" where
  "hc_reply_to p =
     (if length p < 34 \<or> ld16 p 12 \<noteq> Some (htons ETH_P_IP) \<or> ld8 p 23 \<noteq> Some IPPROTO_ICMP then None
      else let icmph = 14 + unat (the (ld8 p 14) AND 0x0F) * 4
           in if icmph + 8 > length p \<or> ld8 p icmph \<noteq> Some ICMP_ECHOREPLY \<or>
                 htons (the (ld16 p (icmph + 4))) \<noteq> HC_PROBE_MAGIC_ID then None
              else Some (ucast (htons (the (ld16 p (icmph + 6)))) AND 0x07))"

fun sender_runs :: "hc_event list \<Rightarrow> nat" where
  "sender_runs [] = 0"
| "sender_runs (Tx now # es) = Suc (sender_runs es)"
| "sender_runs (Rx now later p # es) = sender_runs es"

fun silent :: "u32 \<Rightarrow> hc_event list \<Rightarrow> bool" where
  "silent i [] \<longleftrightarrow> True"
| "silent i (Tx now # es) \<longleftrightarrow> silent i es"
| "silent i (Rx now later p # es) \<longleftrightarrow> hc_reply_to p \<noteq> Some i \<and> silent i es"

section \<open>Replies\<close>

lemma xdp_hc_rx_eq:
  "xdp_hc_rx now later p st =
     Some (case hc_reply_to p of None \<Rightarrow> st | Some i \<Rightarrow> record_reply now later i st)"
  by (auto simp: xdp_hc_rx_def hc_reply_to_def mem_simps Let_def)

lemma and_7_less: "(x AND 0x07 :: u32) < 8"
proof -
  have "x AND 0x07 \<le> 7" by (rule word_and_le1)
  then show ?thesis by (simp add: word_le_nat_alt word_less_nat_alt)
qed

lemma hc_reply_to_less: "hc_reply_to p = Some i \<Longrightarrow> i < 8"
  by (auto simp: hc_reply_to_def Let_def and_7_less split: if_splits)

lemma record_reply_other: "j \<noteq> i \<Longrightarrow> hc_result_map (record_reply now later i st) j = hc_result_map st j"
  by (simp add: record_reply_def Let_def)

section \<open>One link at a time\<close>

text \<open>What the sender does to one link: its rate limit, target and result.\<close>

type_synonym link_view = "u64 option \<times> hc_probe_key option \<times> hc_result option"

definition link_view :: "u32 \<Rightarrow> hc_maps \<Rightarrow> link_view" where
  "link_view i st = (array_lookup (hc_rate_limit_map st) i, array_lookup (hc_probe_target_map st) i,
     hc_result_map st i)"

fun link_tx :: "u64 \<Rightarrow> link_view \<Rightarrow> link_view" where
  "link_tx now (ts, t, r) =
     (if (case ts of None \<Rightarrow> False | Some l \<Rightarrow> now - l < HC_PROBE_INTERVAL_NS) \<or>
         (case t of None \<Rightarrow> True | Some k \<Rightarrow> hk_gateway_ip k = 0 \<or> hk_wan_ip k = 0)
      then (ts, t, r)
      else (map_option (\<lambda>_. now) ts, t, map_option (count_probe now) r))"

lemma hc_tx_wan_view:
  "link_view i (hc_tx_wan now st n) =
     (if of_nat n = i then link_tx now (link_view i st) else link_view i st)"
  by (auto simp: hc_tx_wan_def Let_def probe_due_def link_view_def array_lookup_modify split: option.splits)

lemma foldl_hc_tx_wan_view:
  assumes "distinct ns" "\<forall>n \<in> set ns. n < 2 ^ 32"
  shows "link_view i (foldl (hc_tx_wan now) st ns) =
    (if unat i \<in> set ns then link_tx now (link_view i st) else link_view i st)"
  using assms
proof (induction ns arbitrary: st)
  case (Cons n ns)
  then have "of_nat n = i \<longleftrightarrow> unat i = n"
    by (auto simp: unat_of_nat take_bit_nat_eq_self)
  with Cons show ?case by (auto simp: hc_tx_wan_view)
qed simp

lemma tc_hc_tx_view:
  "link_view i (tc_hc_tx now st) =
    (if unat i < MAX_EBPF_WANS then link_tx now (link_view i st) else link_view i st)"
  unfolding tc_hc_tx_def by (subst foldl_hc_tx_wan_view) (auto simp: MAX_EBPF_WANS_def)

lemma link_view_Rx:
  "hc_reply_to p \<noteq> Some i \<Longrightarrow> link_view i (hc_event_step st (Rx now later p)) = link_view i st"
  by (auto simp: xdp_hc_rx_eq link_view_def record_reply_other split: option.split)
     (auto simp: record_reply_def Let_def)

text \<open>A probed link: its limiter is set, its target is known and it has a result.\<close>

definition probed :: "u64 \<Rightarrow> hc_result \<Rightarrow> link_view \<Rightarrow> bool" where
  "probed l r v \<longleftrightarrow> (\<exists>t. v = (Some l, Some t, Some r) \<and> hk_gateway_ip t \<noteq> 0 \<and> hk_wan_ip t \<noteq> 0)"

lemma link_tx_probed:
  "probed l r v \<Longrightarrow> HC_PROBE_INTERVAL_NS \<le> now - l \<Longrightarrow> probed now (count_probe now r) (link_tx now v)"
  by (auto simp: probed_def leD)

lemma count_probe_misses:
  "unat (miss_count (count_probe now r)) \<ge> min 3 (unat (miss_count r) + 1)"
  "miss_count (count_probe now r) \<ge> 3 \<Longrightarrow> is_alive (count_probe now r) = 0"
proof -
  have "unat (miss_count r + 1) = unat (miss_count r) + 1" if "miss_count r < 255"
    using that by (subst unat_add_lem [THEN iffD1]) (simp_all add: word_less_nat_alt)
  then show "unat (miss_count (count_probe now r)) \<ge> min 3 (unat (miss_count r) + 1)"
    by (auto simp: count_probe_def Let_def word_less_nat_alt)
qed (simp add: count_probe_def Let_def)

lemma silent_run_probed:
  assumes "probed l r (link_view i st)" "unat i < MAX_EBPF_WANS" "spaced l es" "silent i es"
    "miss_count r \<ge> 3 \<longrightarrow> is_alive r = 0"
  shows "\<exists>l' r'. probed l' r' (link_view i (foldl hc_event_step st es)) \<and>
    unat (miss_count r') \<ge> min 3 (unat (miss_count r) + sender_runs es) \<and>
    (miss_count r' \<ge> 3 \<longrightarrow> is_alive r' = 0)"
  using assms
proof (induction es arbitrary: l r st)
  case Nil
  then show ?case by (intro exI [of _ l] exI [of _ r]) simp
next
  case (Cons e es)
  show ?case
  proof (cases e)
    case (Tx now)
    with Cons.prems have "probed now (count_probe now r) (link_view i (tc_hc_tx now st))"
      by (simp add: tc_hc_tx_view link_tx_probed)
    from Cons.IH [OF this] Cons.prems Tx obtain l' r' where
      "probed l' r' (link_view i (foldl hc_event_step (tc_hc_tx now st) es))"
      "unat (miss_count r') \<ge> min 3 (unat (miss_count (count_probe now r)) + sender_runs es)"
      "miss_count r' \<ge> 3 \<longrightarrow> is_alive r' = 0"
      using count_probe_misses(2) by auto
    with count_probe_misses(1) [of r now] Tx show ?thesis
      by (intro exI [of _ l'] exI [of _ r']) (auto simp: min_def split: if_splits)
  next
    case (Rx now later p)
    with Cons.prems have "link_view i (hc_event_step st e) = link_view i st"
      using link_view_Rx by simp
    with Cons.IH [of l r "hc_event_step st e"] Cons.prems Rx show ?thesis by simp
  qed
qed

section \<open>Properties\<close>


definition sample_hc :: hc_maps where
  "sample_hc = \<lparr>hc_probe_target_map = [\<lparr>hk_wan_ifindex = 2, hk_gateway_ip = 0x0100A8C0, hk_wan_ip = 0x0200A8C0\<rparr>],
     hc_result_map = [0 \<mapsto> \<lparr>last_probe_ns = 0, last_reply_ns = 9, rtt_us = 0, is_alive = 1,
       probe_count = 0, reply_count = 1, miss_count = 0\<rparr>],
     hc_rate_limit_map = [0]\<rparr>"


text \<open>
  The receiver is total, only records and serves eight links. On every frame it stays inside
  the packet; if the frame is a reply to the checker's probe, the one result it touches is below
  index 8, where it sets the alive flag and clears the miss counter; every other result is
  unchanged, and so are the targets and the limiter. In particular a link with index 8 or more
  is never revived by a reply.
\<close>

theorem xdp_hc_rx_records:
  "\<exists>st'. xdp_hc_rx now later p st = Some st' \<and>
    hc_probe_target_map st' = hc_probe_target_map st \<and> hc_rate_limit_map st' = hc_rate_limit_map st \<and>
    (case hc_reply_to p of
       None \<Rightarrow> st' = st
     | Some i \<Rightarrow> i < 8 \<and> (\<forall>j. j \<noteq> i \<longrightarrow> hc_result_map st' j = hc_result_map st j) \<and>
         (\<exists>r. hc_result_map st' i = Some r \<and> is_alive r = 1 \<and> miss_count r = 0 \<and> last_reply_ns r = later))"
  by (auto simp: xdp_hc_rx_eq record_reply_other dest: hc_reply_to_less split: option.split)
     (auto simp: record_reply_def Let_def split: option.split)

definition sample_reply :: buf where
  "sample_reply = replicate 12 0 @ [0x08, 0x00, 0x45] @ replicate 8 0 @ [1] @ replicate 10 0 @
     [0, 0, 0, 0, 0xF1, 0xA7, 0, 0x0B]"

lemma xdp_hc_rx_records_witness:
  "hc_reply_to sample_reply = Some 3 \<and>
   (\<exists>st'. xdp_hc_rx 7 8 sample_reply sample_hc = Some st' \<and> hc_result_map st' 0 = hc_result_map sample_hc 0)"
proof -
  have r: "hc_reply_to sample_reply = Some 3" by code_simp
  from xdp_hc_rx_records [of 7 8 sample_reply sample_hc] r show ?thesis by auto
qed

end
