(* ===== verification/Nat46.thy ===== *)
theory Nat46
  imports Xdp_Types Checksum "HOL-Library.AList"
begin

text \<open>
  The stateless IPv4/IPv6 translator (\<open>bpf/xdp_nat46.bpf.c\<close>, \<open>bpf/nat46_maps.h\<close>): a frame to
  a synthetic address becomes an IPv6 frame to the real server, and a frame from that server
  becomes an IPv4 frame from the synthetic address. An IPv6 address is the list of its 16
  bytes. Moving the head of the packet is the kernel's \<open>bpf_xdp_adjust_head\<close>, the argument
  \<open>adj\<close>; what is used of it is \<open>adjust_head_ok\<close>.
\<close>

section \<open>Definitions\<close>

definition SYNTH_IPV4_NET :: u32 where "SYNTH_IPV4_NET = 0xC6120000"
definition SYNTH_IPV4_MASK :: u32 where "SYNTH_IPV4_MASK = 0xFFFE0000"

record nat46_forward_val =
  nf_target_v6 :: "u8 list"
  nf_client_v4 :: u32
  nf_last_seen_sec :: u32

record nat46_reverse_val =
  nr_synthetic_v4 :: u32
  nr_client_v4 :: u32
  nr_last_seen_sec :: u32

record nat46_config =
  router_v6_src :: "u8 list"
  starlink_ifindex :: u32
  n46_lan_ifindex :: u32
  starlink_gw_mac :: "u8 list"
  lan_gw_mac :: "u8 list"
  n46_enabled :: u32
  total_translated_egress :: u32
  total_translated_ingress :: u32

record nat46_maps =
  v4_to_v6_map :: "(u32 \<times> nat46_forward_val) list"
  v6_to_v4_map :: "(u8 list \<times> nat46_reverse_val) list"
  nat46_cfg :: nat46_config

datatype nat46_verdict = N46_PASS | N46_DROP | N46_REDIRECT u32

text \<open>\<open>bpf_map_update_elem\<close> on a hash map of bounded size; a full map refuses new keys.\<close>

definition hash_update :: "nat \<Rightarrow> 'k \<Rightarrow> 'v \<Rightarrow> ('k \<times> 'v) list \<Rightarrow> ('k \<times> 'v) list" where
  "hash_update max_entries k v m =
     (if k \<in> fst ` set m \<or> length m < max_entries then AList.update k v m else m)"

subsection \<open>The header checksum\<close>

fun csum_words32 :: "buf \<Rightarrow> nat \<Rightarrow> nat \<Rightarrow> u32 \<Rightarrow> u32 option" where
  "csum_words32 p off 0 acc = Some acc"
| "csum_words32 p off (Suc n) acc = do {
     w \<leftarrow> ld16 p off;
     csum_words32 p (off + 2) n (acc + ucast w)
   }"

function fold_carry :: "u32 \<Rightarrow> u32" where
  "fold_carry csum = (if drop_bit 16 csum \<noteq> 0 then fold_carry (fold32 csum) else csum)"
  by pat_completeness auto
termination
proof (relation "measure unat")
  fix csum :: u32 assume "drop_bit 16 csum \<noteq> 0"
  then have "unat csum div 65536 \<noteq> 0" using unat_drop16_32 [of csum] by (metis unat_eq_0)
  moreover have "unat csum div 65536 * 65536 + unat csum mod 65536 = unat csum" by (rule div_mult_mod_eq)
  ultimately have "unat csum mod 65536 + unat csum div 65536 < unat csum" by linarith
  then show "(fold32 csum, csum) \<in> measure unat" by (simp add: unat_fold32)
qed simp

declare fold_carry.simps [simp del]

definition calc_ip_csum :: "buf \<Rightarrow> nat \<Rightarrow> u16 option" where
  "calc_ip_csum p iph = do {
     csum \<leftarrow> csum_words32 p iph 10 0;
     Some (NOT (ucast (fold_carry csum)))
   }"

subsection \<open>Translation\<close>

definition build_ipv6 :: "buf \<Rightarrow> u16 \<Rightarrow> u8 \<Rightarrow> nat46_config \<Rightarrow> u8 list \<Rightarrow> buf option" where
  "build_ipv6 p payload_len pr cfg target_v6 = do {
     p \<leftarrow> st8 p 14 0x60;
     p \<leftarrow> st8 p 15 0;
     p \<leftarrow> st8 p 16 0;
     p \<leftarrow> st8 p 17 0;
     p \<leftarrow> st16 p 18 (htons payload_len);
     p \<leftarrow> st8 p 20 pr;
     p \<leftarrow> st8 p 21 64;
     p \<leftarrow> stn p 22 (router_v6_src cfg);
     p \<leftarrow> stn p 38 target_v6;
     p \<leftarrow> st16 p 12 (htons ETH_P_IPV6);
     stn p 0 (starlink_gw_mac cfg)
   }"

definition translate_egress ::
  "(int \<Rightarrow> buf \<Rightarrow> buf option) \<Rightarrow> nat46_maps \<Rightarrow> buf \<Rightarrow> u32 \<Rightarrow> nat46_forward_val \<Rightarrow>
   (nat46_verdict \<times> buf \<times> nat46_maps) option" where
  "translate_egress adj st p synth_ip fwd = do {
     client_ip \<leftarrow> ld32 p 26;
     tl \<leftarrow> ld16 p 16;
     vihl \<leftarrow> ld8 p 14;
     let tot_len = htons tl;
     let ihl_bytes = (vihl AND 0x0F) * 4;
     if tot_len < ucast ihl_bytes then Some (N46_PASS, p, st)
     else do {
       pr \<leftarrow> ld8 p 23;
       case adj (-20) p of
         None \<Rightarrow> Some (N46_DROP, p, st)
       | Some p \<Rightarrow>
           if length p < 14 then Some (N46_DROP, p, st)
           else if length p < 54 then Some (N46_DROP, p, st)
           else do {
             let cfg = nat46_cfg st;
             p \<leftarrow> build_ipv6 p (tot_len - ucast ihl_bytes) pr cfg (nf_target_v6 fwd);
             let rev_entry = \<lparr>nr_synthetic_v4 = synth_ip, nr_client_v4 = client_ip, nr_last_seen_sec = 0\<rparr>;
             Some (N46_REDIRECT (starlink_ifindex cfg), p,
               st\<lparr>v6_to_v4_map := hash_update 65536 (nf_target_v6 fwd) rev_entry (v6_to_v4_map st),
                  nat46_cfg := cfg\<lparr>total_translated_egress := total_translated_egress cfg + 1\<rparr>\<rparr>)
           }
     }
   }"

definition nat46_egress ::
  "(int \<Rightarrow> buf \<Rightarrow> buf option) \<Rightarrow> nat46_maps \<Rightarrow> buf \<Rightarrow> (nat46_verdict \<times> buf \<times> nat46_maps) option" where
  "nat46_egress adj st p =
     (if length p < 34 then Some (N46_PASS, p, st)
      else do {
        daddr \<leftarrow> ld32 p 30;
        if ntohl daddr AND SYNTH_IPV4_MASK = SYNTH_IPV4_NET then
          case map_of (v4_to_v6_map st) daddr of
            None \<Rightarrow> Some (N46_PASS, p, st)
          | Some fwd \<Rightarrow> translate_egress adj st p daddr fwd
        else Some (N46_PASS, p, st)
      })"

definition build_ipv4 :: "buf \<Rightarrow> u16 \<Rightarrow> u8 \<Rightarrow> u32 \<Rightarrow> u32 \<Rightarrow> buf option" where
  "build_ipv4 p payload_len pr synth_ip client_ip = do {
     p \<leftarrow> st8 p 14 0x45;
     p \<leftarrow> st8 p 15 0;
     p \<leftarrow> st16 p 16 (htons (payload_len + 20));
     p \<leftarrow> st16 p 18 0;
     p \<leftarrow> st16 p 20 (htons 0x4000);
     p \<leftarrow> st8 p 22 64;
     p \<leftarrow> st8 p 23 pr;
     p \<leftarrow> st16 p 24 0;
     p \<leftarrow> st32 p 26 synth_ip;
     p \<leftarrow> st32 p 30 client_ip;
     check \<leftarrow> calc_ip_csum p 14;
     st16 p 24 check
   }"

definition nat46_ingress ::
  "(int \<Rightarrow> buf \<Rightarrow> buf option) \<Rightarrow> nat46_maps \<Rightarrow> buf \<Rightarrow> (nat46_verdict \<times> buf \<times> nat46_maps) option" where
  "nat46_ingress adj st p =
     (if length p < 54 then Some (N46_PASS, p, st)
      else do {
        saddr \<leftarrow> ldn p 22 16;
        case map_of (v6_to_v4_map st) saddr of
          None \<Rightarrow> Some (N46_PASS, p, st)
        | Some entry \<Rightarrow> do {
            pl \<leftarrow> ld16 p 18;
            pr \<leftarrow> ld8 p 20;
            case adj 20 p of
              None \<Rightarrow> Some (N46_DROP, p, st)
            | Some p \<Rightarrow>
                if length p < 14 then Some (N46_DROP, p, st)
                else if length p < 34 then Some (N46_DROP, p, st)
                else do {
                  let cfg = nat46_cfg st;
                  p \<leftarrow> build_ipv4 p (htons pl) pr (nr_synthetic_v4 entry) (nr_client_v4 entry);
                  p \<leftarrow> st16 p 12 (htons ETH_P_IP);
                  p \<leftarrow> stn p 0 (lan_gw_mac cfg);
                  Some (N46_REDIRECT (n46_lan_ifindex cfg), p,
                    st\<lparr>nat46_cfg := cfg\<lparr>total_translated_ingress := total_translated_ingress cfg + 1\<rparr>\<rparr>)
                }
          }
      })"

definition xdp_nat46_handler ::
  "(int \<Rightarrow> buf \<Rightarrow> buf option) \<Rightarrow> nat46_maps \<Rightarrow> buf \<Rightarrow> (nat46_verdict \<times> buf \<times> nat46_maps) option" where
  "xdp_nat46_handler adj st p =
     (if length p < 14 then Some (N46_PASS, p, st)
      else if n46_enabled (nat46_cfg st) = 0 then Some (N46_PASS, p, st)
      else do {
        h_proto \<leftarrow> ld16 p 12;
        if h_proto = htons ETH_P_IP then nat46_egress adj st p
        else if h_proto = htons ETH_P_IPV6 then nat46_ingress adj st p
        else Some (N46_PASS, p, st)
      })"

section \<open>Correctness\<close>

definition adjust_head_ok :: "(int \<Rightarrow> buf \<Rightarrow> buf option) \<Rightarrow> bool" where
  "adjust_head_ok adj \<longleftrightarrow>
     (\<forall>p q. adj (-20) p = Some q \<longrightarrow> length q = length p + 20 \<and> drop 20 q = p) \<and>
     (\<forall>p q. adj 20 p = Some q \<longrightarrow> q = drop 20 p)"

definition nat46_wf :: "nat46_maps \<Rightarrow> bool" where
  "nat46_wf st \<longleftrightarrow> length (router_v6_src (nat46_cfg st)) = 16 \<and> length (starlink_gw_mac (nat46_cfg st)) = 6 \<and>
     length (lan_gw_mac (nat46_cfg st)) = 6 \<and> (\<forall>e \<in> set (v4_to_v6_map st). length (nf_target_v6 (snd e)) = 16)"

lemma csum_words32_nsum:
  assumes "off + 2 * n \<le> length p" "unat acc + 65535 * n < 4294967296"
  shows "\<exists>s. csum_words32 p off n acc = Some s \<and> unat s = unat acc + nsum p off n"
  using assms
proof (induction n arbitrary: off acc)
  case (Suc n)
  let ?w = "le16 (p ! off) (p ! (off + 1))"
  have w: "unat (acc + ucast ?w) = unat acc + unat ?w"
    using Suc.prems(2) unat_u16_less [of ?w] by (subst unat_add_32) simp_all
  obtain s where "csum_words32 p (off + 2) n (acc + ucast ?w) = Some s"
    "unat s = unat (acc + ucast ?w) + nsum p (off + 2) n"
    using Suc.IH [of "off + 2" "acc + ucast ?w"] Suc.prems w unat_u16_less [of ?w] by auto
  then show ?case
    using Suc.prems(1) w nsum_front [of p off n] by (simp add: mem_simps del: nsum.simps)
qed simp

lemma fold_carry_oc: "unat (fold_carry c) = oc (unat c)"
proof (induction c rule: fold_carry.induct)
  case (1 c)
  show ?case
  proof (cases "drop_bit 16 c = 0")
    case True
    then have "unat c div 65536 = 0" using unat_drop16_32 [of c] by simp
    then show ?thesis using True by (simp add: fold_carry.simps [of c] oc_small)
  next
    case False
    then show ?thesis using 1 by (simp add: fold_carry.simps [of c] unat_fold32 oc_fold)
  qed
qed

lemma calc_ip_csum_spec:
  assumes "iph + 20 \<le> length p"
  shows "\<exists>w. calc_ip_csum p iph = Some w \<and> unat w = 65535 - oc (nsum p iph 10)"
proof -
  obtain s where s: "csum_words32 p iph 10 0 = Some s" "unat s = nsum p iph 10"
    using csum_words32_nsum [of iph 10 p 0] assms by auto
  have "(NOT (ucast (fold_carry s)) :: u16) = ucast (NOT (fold_carry s))"
    by (rule bit_word_eqI) (simp add: bit_simps)
  then show ?thesis
    using s oc_le [of "nsum p iph 10"] unat_not_ucast_32 [of "fold_carry s"]
    by (simp add: calc_ip_csum_def fold_carry_oc)
qed

text \<open>A buffer split around the bytes 12 to 21.\<close>

lemma list_of_ten:
  "length xs = 10 \<Longrightarrow> \<exists>b0 b1 b2 b3 b4 b5 b6 b7 b8 b9. xs = [b0, b1, b2, b3, b4, b5, b6, b7, b8, b9]"
  by (auto simp: eval_nat_numeral length_Suc_conv)

lemma split_bytes10:
  assumes "22 \<le> length p"
  shows "\<exists>b0 b1 b2 b3 b4 b5 b6 b7 b8 b9. p = take 12 p @ [b0, b1, b2, b3, b4, b5, b6, b7, b8, b9] @ drop 22 p"
proof -
  have "p = take 12 p @ take 10 (drop 12 p) @ drop 10 (drop 12 p)" by (simp only: append_take_drop_id)
  moreover have "drop 10 (drop 12 p) = drop 22 p" by simp
  ultimately have eq: "p = take 12 p @ take 10 (drop 12 p) @ drop 22 p" by simp
  have "length (take 10 (drop 12 p)) = 10" using assms by simp
  from list_of_ten [OF this] show ?thesis by (elim exE) (intro exI, insert eq, simp)
qed

lemma build_ipv6_spec:
  assumes "54 \<le> length p" "length (router_v6_src cfg) = 16" "length (starlink_gw_mac cfg) = 6" "length v6 = 16"
  shows "build_ipv6 p pl pr cfg v6 = Some (starlink_gw_mac cfg @ take 6 (drop 6 p) @
    [0x86, 0xDD, 0x60, 0, 0, 0, byte_of16 1 pl, byte_of16 0 pl, pr, 64] @ router_v6_src cfg @ v6 @ drop 54 p)"
proof -
  define a where "a = take 12 p"
  have a: "a = take 12 p" "length a = 12" using assms(1) by (simp_all add: a_def)
  obtain b0 b1 b2 b3 b4 b5 b6 b7 b8 b9 where
    p: "p = a @ [b0, b1, b2, b3, b4, b5, b6, b7, b8, b9] @ drop 22 p"
    using split_bytes10 [of p] assms(1) unfolding a_def by auto
  define post where "post = drop 22 p"
  have post: "32 \<le> length post" "drop 32 post = drop 54 p" using assms(1) by (simp_all add: post_def)
  have b: "byte_of16 0 (htons ETH_P_IPV6) = 0x86" "byte_of16 (Suc 0) (htons ETH_P_IPV6) = 0xDD" by code_simp+
  have h: "byte_of16 0 (htons pl) = byte_of16 1 pl" "byte_of16 (Suc 0) (htons pl) = byte_of16 0 pl"
    by (simp_all add: htons_def)
  have a6: "drop 6 a = take 6 (drop 6 p)" by (simp add: a(1) drop_take)
  have "build_ipv6 (a @ [b0, b1, b2, b3, b4, b5, b6, b7, b8, b9] @ post) pl pr cfg v6 =
      Some (starlink_gw_mac cfg @ drop 6 a @
    [0x86, 0xDD, 0x60, 0, 0, 0, byte_of16 1 pl, byte_of16 0 pl, pr, 64] @ router_v6_src cfg @ v6 @ drop 32 post)"
    using assms(2-4) a(2) post(1) by (simp add: build_ipv6_def mem_simps list_update_append h b)
  then show ?thesis using p a6 post(2) by (simp add: post_def [symmetric])
qed

lemma build_ipv4_spec:
  assumes "34 \<le> length p"
  shows "\<exists>q. build_ipv4 p pl pr s d = Some q \<and> length q = length p \<and> csum_valid q 14 10 \<and>
    q ! 14 = 0x45 \<and> ld16 q 16 = Some (htons (pl + 20)) \<and> q ! 23 = pr \<and>
    ld32 q 26 = Some s \<and> ld32 q 30 = Some d \<and> (\<forall>i. i < 14 \<or> 34 \<le> i \<longrightarrow> q ! i = p ! i)"
proof -
  define r where "r = p[14 := 0x45, 15 := 0, 16 := byte_of16 0 (htons (pl + 20)), 17 := byte_of16 1 (htons (pl + 20)),
     18 := byte_of16 0 0, 19 := byte_of16 1 0, 20 := byte_of16 0 (htons 0x4000), 21 := byte_of16 1 (htons 0x4000),
     22 := 64, 23 := pr, 24 := byte_of16 0 0, 25 := byte_of16 1 0,
     26 := byte_of32 0 s, 27 := byte_of32 1 s, 28 := byte_of32 2 s, 29 := byte_of32 3 s,
     30 := byte_of32 0 d, 31 := byte_of32 1 d, 32 := byte_of32 2 d, 33 := byte_of32 3 d]"
  have l: "length r = length p" by (simp add: r_def)
  obtain w where w: "calc_ip_csum r 14 = Some w" "unat w = 65535 - oc (nsum r 14 10)"
    using calc_ip_csum_spec [of 14 r] assms l by auto
  let ?q = "r[24 := byte_of16 0 w, Suc 24 := byte_of16 1 w]"
  have "build_ipv4 p pl pr s d = Some ?q"
    using assms w(1) by (simp add: build_ipv4_def mem_simps r_def)
  moreover have "byte_of16 0 0 = 0" "byte_of16 1 0 = 0" by code_simp+
  then have "r ! 24 = 0" "r ! Suc 24 = 0" using assms by (simp_all add: r_def nth_upd)
  then have "csum_valid ?q 14 10" using assms l w(2) by (intro store_complement_valid [of 5]) simp_all
  ultimately show ?thesis using assms by (simp add: r_def ld16_def ld32_def nth_upd)
qed

lemma fwd_target:
  "nat46_wf st \<Longrightarrow> map_of (v4_to_v6_map st) daddr = Some fwd \<Longrightarrow> length (nf_target_v6 fwd) = 16"
  using map_of_SomeD [of "v4_to_v6_map st" daddr fwd] by (auto simp: nat46_wf_def)

lemma translate_egress_cases:
  assumes adj: "adjust_head_ok adj" and wf: "nat46_wf st" and len: "34 \<le> length p"
    and fwd: "map_of (v4_to_v6_map st) daddr = Some fwd"
  shows "\<exists>v q st'. translate_egress adj st p daddr fwd = Some (v, q, st') \<and>
    (htons (le16 (p ! 16) (p ! 17)) \<ge> ucast ((p ! 14 AND 0x0F) * 4) \<longrightarrow> (\<forall>p1. adj (-20) p = Some p1 \<longrightarrow>
      (let pl = htons (le16 (p ! 16) (p ! 17)) - ucast ((p ! 14 AND 0x0F) * 4); cfg = nat46_cfg st in
       v = N46_REDIRECT (starlink_ifindex cfg) \<and>
       q = starlink_gw_mac cfg @ take 6 (drop 6 p1) @
         [0x86, 0xDD, 0x60, 0, 0, 0, byte_of16 1 pl, byte_of16 0 pl, p ! 23, 64] @
         router_v6_src cfg @ nf_target_v6 fwd @ drop 34 p \<and>
       st' = st\<lparr>v6_to_v4_map := hash_update 65536 (nf_target_v6 fwd)
           \<lparr>nr_synthetic_v4 = daddr, nr_client_v4 = le32 (p ! 26) (p ! 27) (p ! 28) (p ! 29), nr_last_seen_sec = 0\<rparr>
           (v6_to_v4_map st),
         nat46_cfg := cfg\<lparr>total_translated_egress := total_translated_egress cfg + 1\<rparr>\<rparr>)))"
proof (cases "htons (le16 (p ! 16) (p ! 17)) < ucast ((p ! 14 AND 0x0F) * 4)")
  case True
  then show ?thesis using len by (auto simp: translate_egress_def mem_simps dest: leD)
next
  case False
  note lens = wf [unfolded nat46_wf_def] fwd_target [OF wf fwd]
  show ?thesis
  proof (cases "adj (-20) p")
    case None
    then show ?thesis using len by (auto simp: translate_egress_def mem_simps Let_def)
  next
    case (Some p1)
    then have p1: "length p1 = length p + 20" "drop 54 p1 = drop 34 p"
      using adj drop_drop [of 34 20 p1] by (auto simp: adjust_head_ok_def)
    then show ?thesis
      using Some False len lens by (simp add: translate_egress_def mem_simps Let_def build_ipv6_spec)
  qed
qed

lemma ingress_cases:
  assumes adj: "adjust_head_ok adj" and wf: "nat46_wf st" and len: "54 \<le> length p"
    and entry: "map_of (v6_to_v4_map st) (take 16 (drop 22 p)) = Some entry"
  shows "\<exists>v q st'. nat46_ingress adj st p = Some (v, q, st') \<and>
    (adj 20 p \<noteq> None \<longrightarrow> v = N46_REDIRECT (n46_lan_ifindex (nat46_cfg st)) \<and> length q = length p - 20 \<and>
     take 6 q = lan_gw_mac (nat46_cfg st) \<and> ld16 q 12 = Some (htons ETH_P_IP) \<and> q ! 14 = 0x45 \<and>
     ld16 q 16 = Some (htons (htons (le16 (p ! 18) (p ! 19)) + 20)) \<and> q ! 23 = p ! 20 \<and>
     ld32 q 26 = Some (nr_synthetic_v4 entry) \<and> ld32 q 30 = Some (nr_client_v4 entry) \<and>
     csum_valid q 14 10 \<and> drop 34 q = drop 54 p)"
proof (cases "adj 20 p")
  case None
  then show ?thesis using len entry by (auto simp: nat46_ingress_def mem_simps)
next
  case (Some p1)
  then have p1: "p1 = drop 20 p" using adj by (auto simp: adjust_head_ok_def)
  then have l1: "34 \<le> length p1" "length p1 = length p - 20" using len by simp_all
  obtain q1 where q1: "build_ipv4 p1 (htons (le16 (p ! 18) (p ! 19))) (p ! 20) (nr_synthetic_v4 entry) (nr_client_v4 entry) = Some q1"
    "length q1 = length p1" "csum_valid q1 14 10" "q1 ! 14 = 0x45"
    "ld16 q1 16 = Some (htons (htons (le16 (p ! 18) (p ! 19)) + 20))" "q1 ! 23 = p ! 20"
    "ld32 q1 26 = Some (nr_synthetic_v4 entry)" "ld32 q1 30 = Some (nr_client_v4 entry)"
    "\<forall>i. i < 14 \<or> 34 \<le> i \<longrightarrow> q1 ! i = p1 ! i"
    using build_ipv4_spec [OF l1(1)] by metis
  let ?m = "lan_gw_mac (nat46_cfg st)" and ?t = "htons ETH_P_IP"
  define q2 where "q2 = q1[12 := byte_of16 0 ?t, 13 := byte_of16 1 ?t]"
  define q where "q = ?m @ drop 6 q2"
  have lm: "length ?m = 6" using wf by (simp add: nat46_wf_def)
  have lq: "length q2 = length p1" "length q = length p1" using q1(2) lm l1 by (simp_all add: q2_def q_def)
  have st: "st16 q1 12 ?t = Some q2" "stn q2 0 ?m = Some q" using q1(2) l1 lm lq by (simp_all add: st16_def stn_def q2_def q_def)
  have nth: "q ! i = q2 ! i" if "6 \<le> i" "i < length p1" for i
    using that lm lq by (simp add: q_def nth_append)
  have nth1: "q ! i = q1 ! i" if "14 \<le> i" "i < length p1" for i
    using that nth [of i] by (simp add: q2_def nth_upd)
  have "nat46_ingress adj st p = Some (N46_REDIRECT (n46_lan_ifindex (nat46_cfg st)), q,
      st\<lparr>nat46_cfg := (nat46_cfg st)\<lparr>total_translated_ingress := total_translated_ingress (nat46_cfg st) + 1\<rparr>\<rparr>)"
    using len entry Some l1 q1(1) st by (simp add: nat46_ingress_def mem_simps Let_def)
  moreover have "drop 34 q = drop 54 p"
    by (rule nth_equalityI) (use lq l1 nth1 q1(9) p1 in \<open>auto simp: add.commute\<close>)
  moreover have "csum_valid q 14 10"
    using q1(3) nth1 l1 lq q1(2) by (subst csum_valid_cong [of 14 10 q q1]) simp_all
  moreover have "ld16 q 12 = Some ?t" "take 6 q = ?m"
    using nth [of 12] nth [of 13] l1 lq q1(2) lm by (simp_all add: ld16_def q2_def nth_upd q_def)
  moreover have "ld16 q 16 = ld16 q1 16" "ld32 q 26 = ld32 q1 26" "ld32 q 30 = ld32 q1 30" "q ! 14 = 0x45" "q ! 23 = p ! 20"
    using nth1 l1 lq q1(2,4,6) by (simp_all add: ld16_def ld32_def)
  ultimately show ?thesis using q1(5,7,8) lq l1 by auto
qed

text \<open>
  C18. The translator never accesses memory outside of the frame: for every frame, every
  well-formed configuration and mapping and every outcome of the head adjustment, the
  program returns a verdict.
\<close>

theorem nat46_memory_safe:
  assumes "adjust_head_ok adj" "nat46_wf st"
  shows "xdp_nat46_handler adj st p \<noteq> None"
proof -
  have "nat46_egress adj st p \<noteq> None"
    using translate_egress_cases [OF assms, of p]
    by (fastforce simp: nat46_egress_def mem_simps split: option.splits)
  moreover have "nat46_ingress adj st p \<noteq> None"
  proof (cases "54 \<le> length p \<and> map_of (v6_to_v4_map st) (take 16 (drop 22 p)) \<noteq> None")
    case True
    then show ?thesis using ingress_cases [OF assms, of p] by auto
  next
    case False
    then show ?thesis by (auto simp: nat46_ingress_def mem_simps)
  qed
  ultimately show ?thesis by (simp add: xdp_nat46_handler_def mem_simps)
qed

definition sample_adjust :: "int \<Rightarrow> buf \<Rightarrow> buf option" where
  "sample_adjust d p = (if d = -20 then Some (replicate 20 0xAA @ p) else if d = 20 then Some (drop 20 p) else None)"

definition sample_v6 :: "u8 list" where
  "sample_v6 = [0x20, 0x01, 0x0d, 0xb8] @ replicate 11 0 @ [1]"

definition sample_nat46 :: nat46_maps where
  "sample_nat46 = \<lparr>v4_to_v6_map = [(0x010012C6, \<lparr>nf_target_v6 = sample_v6, nf_client_v4 = 0, nf_last_seen_sec = 0\<rparr>)],
     v6_to_v4_map = [], nat46_cfg = \<lparr>router_v6_src = replicate 16 7, starlink_ifindex = 4, n46_lan_ifindex = 2,
       starlink_gw_mac = replicate 6 1, lan_gw_mac = replicate 6 2, n46_enabled = 1,
       total_translated_egress = 0, total_translated_ingress = 0\<rparr>\<rparr>"

lemma sample_nat46_ok: "adjust_head_ok sample_adjust" "nat46_wf sample_nat46"
  by (simp_all add: adjust_head_ok_def sample_adjust_def nat46_wf_def sample_nat46_def sample_v6_def)

theorem nat46_memory_safe_witness: "xdp_nat46_handler sample_adjust sample_nat46 (replicate 60 0) \<noteq> None"
  by (rule nat46_memory_safe [OF sample_nat46_ok])


definition sample_out :: buf where
  "sample_out = replicate 12 0 @ [8, 0, 0x45, 0, 0, 28, 0, 0, 0, 0, 64, 17, 0, 0, 192, 168, 90, 7, 198, 18, 0, 1] @ replicate 8 9"

definition sample_back :: buf where
  "sample_back = replicate 12 0 @ [0x86, 0xDD, 0x60, 0, 0, 0, 0, 8, 17, 64] @ sample_v6 @ replicate 16 7 @ replicate 8 5"


end
