(* ===== verification/Fluxwan_Types.thy ===== *)
theory Fluxwan_Types
  imports Prelude Complex_Main
begin

text \<open>
  The configuration data of \<open>include/fluxwan.h\<close> that the control plane works on:
  WAN links and their metrics, WAN groups, policy routes, the LAN with its DHCP
  settings and the prober settings. Fixed-size C character arrays are strings;
  the writes that may truncate go through \<open>cstr_copy\<close>. Addresses are 32-bit words in network byte order, as in
  the source. The two \<open>float\<close> fields are rationals: every value the code stores
  in them is a multiple of 3.125 and exact.
\<close>

definition MAX_WANS :: nat where "MAX_WANS = 256"
definition PROBE_WINDOW_SIZE :: nat where "PROBE_WINDOW_SIZE = 32"
definition MAX_SYSTEM_LOGS :: nat where "MAX_SYSTEM_LOGS = 32"
abbreviation MAX_WAN_GROUPS :: nat where "MAX_WAN_GROUPS \<equiv> 8"
abbreviation MAX_POLICY_ROUTES :: nat where "MAX_POLICY_ROUTES \<equiv> 16"
abbreviation MAX_GROUP_MEMBERS :: nat where "MAX_GROUP_MEMBERS \<equiv> 64"

text \<open>What fits into a C array of \<open>n\<close> characters with its terminator.\<close>

definition cstr_copy :: "nat \<Rightarrow> string \<Rightarrow> string" where
  "cstr_copy n s = take (n - 1) s"

datatype wan_type = WAN_TYPE_STATIC | WAN_TYPE_DHCP | WAN_TYPE_PPPOE | WAN_TYPE_WIFI

datatype wan_state = WAN_STATE_DOWN | WAN_STATE_DEGRADED | WAN_STATE_HEALTHY | WAN_STATE_DRAINING

record wan_metrics =
  rtt_ms :: u32
  jitter_ms :: u32
  packet_loss_pct :: rat
  m_rx_bytes :: u64
  m_tx_bytes :: u64
  m_rx_packets :: u64
  m_tx_packets :: u64
  last_probe_time :: u64

datatype proxy_proto = PROXY_PROTO_NONE | PROXY_PROTO_VLESS | PROXY_PROTO_VMESS
  | PROXY_PROTO_TROJAN | PROXY_PROTO_SHADOWSOCKS

datatype proxy_balancer_strategy = PROXY_STRATEGY_FAILOVER | PROXY_STRATEGY_ROUND_ROBIN
  | PROXY_STRATEGY_LEAST_LOAD

record proxy_endpoint =
  px_proto :: proxy_proto
  px_proto_str :: string
  px_server :: string
  px_port :: u16
  px_uuid :: string
  px_sni :: string
  px_host :: string
  px_path :: string
  px_transport :: string
  px_security :: string
  px_encryption :: string
  px_raw_uri :: string
  px_is_connected :: bool
  px_latency_ms :: u32
  px_weight :: u32
  px_active_flows :: u32

text \<open>
  The tunnel configuration; its legacy mirror of the first server is the endpoint
  \<open>proxy_primary\<close>.
\<close>

record wan_proxy_config =
  proxy_enabled :: bool
  proxy_strategy :: proxy_balancer_strategy
  proxy_servers :: "proxy_endpoint list"
  proxy_primary :: proxy_endpoint
  tun_dev :: string
  bind_interface :: string
  tun_ip :: u32
  proxy_pid :: int

record wan_config =
  w_id :: u32
  w_name :: string
  w_label :: string
  w_type :: wan_type
  w_ip_addr :: u32
  w_netmask :: u32
  w_gateway :: u32
  w_dns :: "u32 list"
  ip6_addr :: string
  custom_mac :: string
  ppp_username :: string
  ppp_password :: string
  mss_clamping :: u16
  wifi_ssid :: string
  wifi_password :: string
  wifi_security :: string
  wifi_bssid :: string
  wifi_signal_dbm :: int
  wifi_signal_pct :: int
  wifi_channel :: string
  w_table_id :: u32
  config_weight :: u32
  dynamic_weight :: u32
  bandwidth_down_mbps :: u32
  bandwidth_up_mbps :: u32
  w_state :: wan_state
  w_enabled :: bool
  probe_target :: string
  probe_target_ip :: u32
  w_metrics :: wan_metrics
  w_ifindex :: int
  session_start_sec :: u64
  lease_time_total :: u32
  lease_time_remaining :: u32
  w_ac_name :: string
  session_status :: string
  link_mtu :: u16
  w_mtu :: u32
  dns_servers :: string
  w_proxy :: wan_proxy_config

record policy_route =
  pr_subnet_str :: string
  pr_subnet_ip :: u32
  pr_netmask :: u32
  pr_prefix_len :: u32
  pr_gateway_ip_str :: string
  pr_gateway_ip :: u32
  pr_target_group :: string
  pr_target_group_id :: u32
  pr_description :: string
  pr_enabled :: bool

record wan_group =
  g_id :: u32
  g_name :: string
  g_description :: string
  g_wan_names :: "string list"
  wan_member_indices :: "u32 list"
  active_wan_count :: u32
  maglev_ring :: "u32 list"
  g_enabled :: bool

record static_lease =
  sl_mac_str :: string
  sl_mac_addr :: "u8 list"
  sl_ip_addr :: u32
  sl_hostname :: string
  sl_enabled :: bool

record rate_limit =
  rl_ip_str :: string
  rl_ip_addr :: u32
  max_down_mbps :: u32
  max_up_mbps :: u32
  rl_description :: string
  rl_enabled :: bool

record qos_config =
  qos_enabled :: bool
  qos_algorithm :: string
  qos_bandwidth_down_mbps :: u32
  qos_bandwidth_up_mbps :: u32
  diffserv4 :: bool

record dns_features =
  adblock_enabled :: bool
  fast_dns_enabled :: bool
  primary_dns :: string
  secondary_dns :: string
  smart_ipv6_bonding :: bool

record lan_config =
  lan_name :: string
  lan_ip_addr :: u32
  lan_netmask :: u32
  dhcp_enabled :: bool
  dhcp_start :: u32
  dhcp_end :: u32
  dhcp_lease_time :: u32
  lan_ifindex :: int
  policy_routes :: "policy_route list"
  static_leases :: "static_lease list"
  rate_limits :: "rate_limit list"
  lan_qos :: qos_config
  lan_dns :: dns_features

record prober_config =
  interval_ms :: u32
  timeout_ms :: u32
  loss_window :: u32
  max_acceptable_rtt_ms :: u32
  max_acceptable_loss_pct :: rat
  dynamic_latency_steering :: bool

record telegram_config =
  tg_enabled :: bool
  tg_bot_token :: string
  tg_chat_id :: string
  notify_on_failover :: bool
  notify_on_recovery :: bool

record system_log_entry =
  log_timestamp_sec :: u64
  log_time_str :: string
  log_level :: string
  log_message :: string

text \<open>
  The part of the global configuration that the modelled daemons share. A C array
  with a counter (\<open>wans\<close> and \<open>wan_count\<close>, the members of a group, the routes and
  leases of the LAN) is the list of its used elements.
\<close>

record fluxwan_config =
  lan :: lan_config
  wans :: "wan_config list"
  groups :: "wan_group list"
  prober :: prober_config
  telegram :: telegram_config
  stealth_ttl_value :: u8

abbreviation wan_count :: "fluxwan_config \<Rightarrow> nat" where "wan_count cfg \<equiv> length (wans cfg)"

definition upd_wan :: "nat \<Rightarrow> (wan_config \<Rightarrow> wan_config) \<Rightarrow> fluxwan_config \<Rightarrow> fluxwan_config" where
  "upd_wan i f cfg = cfg\<lparr>wans := (wans cfg)[i := f (wans cfg ! i)]\<rparr>"

lemma wan_count_upd_wan [simp]: "length (wans (upd_wan i f cfg)) = length (wans cfg)"
  by (simp add: upd_wan_def)

section \<open>Zero-initialised structures\<close>

definition zero_metrics :: wan_metrics where
  "zero_metrics = \<lparr>rtt_ms = 0, jitter_ms = 0, packet_loss_pct = 0, m_rx_bytes = 0, m_tx_bytes = 0,
     m_rx_packets = 0, m_tx_packets = 0, last_probe_time = 0\<rparr>"

definition zero_endpoint :: proxy_endpoint where
  "zero_endpoint = \<lparr>px_proto = PROXY_PROTO_NONE, px_proto_str = [], px_server = [], px_port = 0,
     px_uuid = [], px_sni = [], px_host = [], px_path = [], px_transport = [], px_security = [],
     px_encryption = [], px_raw_uri = [], px_is_connected = False, px_latency_ms = 0, px_weight = 0,
     px_active_flows = 0\<rparr>"

definition zero_proxy :: wan_proxy_config where
  "zero_proxy = \<lparr>proxy_enabled = False, proxy_strategy = PROXY_STRATEGY_FAILOVER, proxy_servers = [],
     proxy_primary = zero_endpoint, tun_dev = [], bind_interface = [], tun_ip = 0, proxy_pid = 0\<rparr>"

definition zero_wan :: wan_config where
  "zero_wan = \<lparr>w_id = 0, w_name = [], w_label = [], w_type = WAN_TYPE_STATIC, w_ip_addr = 0,
     w_netmask = 0, w_gateway = 0, w_dns = [0, 0], ip6_addr = [], custom_mac = [], ppp_username = [],
     ppp_password = [], mss_clamping = 0, wifi_ssid = [], wifi_password = [], wifi_security = [],
     wifi_bssid = [], wifi_signal_dbm = 0, wifi_signal_pct = 0, wifi_channel = [], w_table_id = 0,
     config_weight = 0, dynamic_weight = 0, bandwidth_down_mbps = 0, bandwidth_up_mbps = 0,
     w_state = WAN_STATE_DOWN, w_enabled = False, probe_target = [], probe_target_ip = 0,
     w_metrics = zero_metrics, w_ifindex = 0, session_start_sec = 0, lease_time_total = 0,
     lease_time_remaining = 0, w_ac_name = [], session_status = [], link_mtu = 0, w_mtu = 0,
     dns_servers = [], w_proxy = zero_proxy\<rparr>"

definition zero_lan :: lan_config where
  "zero_lan = \<lparr>lan_name = [], lan_ip_addr = 0, lan_netmask = 0, dhcp_enabled = False, dhcp_start = 0,
     dhcp_end = 0, dhcp_lease_time = 0, lan_ifindex = 0, policy_routes = [], static_leases = [],
     rate_limits = [], lan_qos = \<lparr>qos_enabled = False, qos_algorithm = [], qos_bandwidth_down_mbps = 0,
     qos_bandwidth_up_mbps = 0, diffserv4 = False\<rparr>,
     lan_dns = \<lparr>adblock_enabled = False, fast_dns_enabled = False, primary_dns = [],
       secondary_dns = [], smart_ipv6_bonding = False\<rparr>\<rparr>"

definition zero_config :: fluxwan_config where
  "zero_config = \<lparr>lan = zero_lan, wans = [], groups = [],
     prober = \<lparr>interval_ms = 0, timeout_ms = 0, loss_window = 0, max_acceptable_rtt_ms = 0,
       max_acceptable_loss_pct = 0, dynamic_latency_steering = False\<rparr>,
     telegram = \<lparr>tg_enabled = False, tg_bot_token = [], tg_chat_id = [], notify_on_failover = False,
       notify_on_recovery = False\<rparr>, stealth_ttl_value = 0\<rparr>"

end
