(* ===== verification/Dns64.thy ===== *)
theory Dns64
  imports Nat46 Fluxwan_Types
begin

text \<open>
  The DNS forwarder with its answer cache and the synthesis of addresses for the NAT46
  translator (\<open>src/dns64_daemon.c\<close>). The receive buffer of the worker is a list of 2048 bytes
  that keeps its stale contents, accessed by checked loads and stores; the sockets are the
  datagrams received and the list of the datagrams sent; the clock is an argument.
\<close>

section \<open>Definitions\<close>

definition SYNTH_START_IP_HOST :: u32 where "SYNTH_START_IP_HOST = 0xC6120001"
definition SYNTH_END_IP_HOST :: u32 where "SYNTH_END_IP_HOST = 0xC613FFFE"
definition DNS_CACHE_SIZE :: u32 where "DNS_CACHE_SIZE = 4096"
definition DNS_CACHE_TTL_SEC :: int where "DNS_CACHE_TTL_SEC = 7200"
definition AF_INET :: u16 where "AF_INET = 2"

record sockaddr_in =
  sin_family :: u16
  sin_port :: u16
  sin_addr :: u32

record dns_cache_entry =
  ce_hash :: u32
  expires_at :: int
  ce_len :: u16
  ce_valid :: bool
  ce_data :: buf

record pending_dns_entry =
  pe_client_addr :: sockaddr_in
  pe_timestamp :: int
  pe_qhash :: u32

record dns64_stats =
  total_queries :: u64
  synthesized_a_records :: u64
  passthrough_queries :: u64
  cache_hits :: u64
  cached_entries :: u32
  active_synthetic_mappings :: u64
  happy_eyeballs_ipv4_fallbacks :: u64
  current_pool_ip :: u32

record nat46_settings =
  nat46_enabled :: bool
  synthetic_prefix :: string
  upstream_dns :: string
  starlink_wan_name :: string

text \<open>
  The context: a descriptor is its validity, an upstream address the text given to
  \<open>inet_addr\<close>. The two maps behind the descriptors are those of the translator. The arrays
  are lists, so that an index out of range is a fault.
\<close>

record dns64_ctx =
  upstream_fd :: bool
  upstream_fd2 :: bool
  upstream_addr :: string
  upstream_addr2 :: string
  dx_dns :: dns_features
  dx_nat46 :: nat46_settings
  v4_map_fd :: bool
  v6_map_fd :: bool
  current_synth_ip_host :: u32
  dx_stats :: dns64_stats
  pending_queries :: "pending_dns_entry list"
  dx_cache :: "dns_cache_entry list"
  dx_maps :: nat46_maps

datatype dns_send = ToClient sockaddr_in buf | ToUpstream buf | ToUpstream2 buf

abbreviation upd_stats :: "(dns64_stats \<Rightarrow> dns64_stats) \<Rightarrow> dns64_ctx \<Rightarrow> dns64_ctx" where
  "upd_stats f ctx \<equiv> ctx\<lparr>dx_stats := f (dx_stats ctx)\<rparr>"

subsection \<open>The hash of the question\<close>

definition tolower :: "u8 \<Rightarrow> u8" where
  "tolower c = (if 65 \<le> c \<and> c \<le> 90 then c + 32 else c)"

definition fnv_step :: "u32 \<Rightarrow> u8 \<Rightarrow> u32" where
  "fnv_step hash c = (hash XOR ucast c) * 16777619"

text \<open>The pointer and its end are the list of the bytes between them.\<close>

fun hash_label :: "nat \<Rightarrow> u8 list \<Rightarrow> u32 \<Rightarrow> u32 \<times> u8 list" where
  "hash_label 0 p hash = (hash, p)"
| "hash_label (Suc k) [] hash = (hash, [])"
| "hash_label (Suc k) (c # p) hash = hash_label k p (fnv_step hash (tolower c))"

lemma hash_label_length: "length (snd (hash_label k p hash)) \<le> length p"
  by (induction k p hash rule: hash_label.induct) auto

function hash_labels :: "u8 list \<Rightarrow> u32 \<Rightarrow> u32 \<times> u8 list" where
  "hash_labels [] hash = (hash, [])"
| "hash_labels (labellen # p) hash =
     (if labellen = 0 then (hash, labellen # p)
      else hash_labels (snd (hash_label (unat labellen) p hash)) (fst (hash_label (unat labellen) p hash)))"
  by pat_completeness auto
termination
  by (relation "measure (length \<circ> fst)") (auto simp: hash_label_length le_imp_less_Suc)

definition dns_compute_question_hash :: "u8 list \<Rightarrow> u32" where
  "dns_compute_question_hash d =
     (if length d \<le> 12 then 0
      else case hash_labels (drop 12 d) 2166136261 of (hash, p) \<Rightarrow>
        let p = (case p of [] \<Rightarrow> [] | b # p' \<Rightarrow> if b = 0 then p' else p)
        in foldl fnv_step hash (take 4 p))"

subsection \<open>Synthetic addresses\<close>

definition allocate_synthetic_ip :: "dns64_ctx \<Rightarrow> u32 \<times> dns64_ctx" where
  "allocate_synthetic_ip ctx =
     (let ip = current_synth_ip_host ctx;
          c = ip + 1
      in (htonl ip, ctx\<lparr>current_synth_ip_host := (if c > SYNTH_END_IP_HOST then SYNTH_START_IP_HOST else c)\<rparr>))"

definition dns64_register_mapping :: "u32 \<Rightarrow> u8 list \<Rightarrow> dns64_ctx \<Rightarrow> dns64_ctx" where
  "dns64_register_mapping fake_v4 real_v6 ctx =
     (let maps = dx_maps ctx;
          maps = (if v4_map_fd ctx
                  then maps\<lparr>v4_to_v6_map := hash_update 65536 fake_v4
                         \<lparr>nf_target_v6 = real_v6, nf_client_v4 = 0, nf_last_seen_sec = 0\<rparr> (v4_to_v6_map maps)\<rparr>
                  else maps);
          maps = (if v6_map_fd ctx
                  then maps\<lparr>v6_to_v4_map := hash_update 65536 real_v6
                         \<lparr>nr_synthetic_v4 = fake_v4, nr_client_v4 = 0, nr_last_seen_sec = 0\<rparr> (v6_to_v4_map maps)\<rparr>
                  else maps)
      in upd_stats (\<lambda>s. s\<lparr>active_synthetic_mappings := active_synthetic_mappings s + 1\<rparr>) (ctx\<lparr>dx_maps := maps\<rparr>))"

subsection \<open>Queries\<close>

function skip_name :: "buf \<Rightarrow> nat \<Rightarrow> nat \<Rightarrow> nat option" where
  "skip_name p n q =
     (if q < n then do {
        b \<leftarrow> ld8 p q;
        if b = 0 then Some q else skip_name p n (q + unat b + 1)
      } else Some q)"
  by pat_completeness auto
termination by (relation "measure (\<lambda>(p, n, q). n - q)") auto

declare skip_name.simps [simp del]

text \<open>Where the question's type and class are, and the type.\<close>

definition query_qtype :: "buf \<Rightarrow> nat \<Rightarrow> (nat \<times> u16) option" where
  "query_qtype p n = do {
     q \<leftarrow> skip_name p n 12;
     q \<leftarrow> (if q < n then do { b \<leftarrow> ld8 p q; Some (if b = 0 then q + 1 else q) } else Some q);
     if q + 4 \<le> n then do {
       hi \<leftarrow> ld8 p q;
       lo \<leftarrow> ld8 p (q + 1);
       Some (q, push_bit 8 (ucast hi) OR ucast lo)
     } else Some (q, 0)
   }"

type_synonym dns_result = "(bool \<times> buf \<times> dns64_ctx \<times> dns_send list) option"

text \<open>The first component of a result tells whether the branch ends the iteration.\<close>

definition suppress_aaaa :: "buf \<Rightarrow> nat \<Rightarrow> sockaddr_in \<Rightarrow> dns64_ctx \<Rightarrow> dns_result" where
  "suppress_aaaa p q client ctx = do {
     p \<leftarrow> st16 p 2 (htons 0x8180);
     p \<leftarrow> st16 p 6 0;
     p \<leftarrow> st16 p 8 0;
     p \<leftarrow> st16 p 10 0;
     reply \<leftarrow> ldn p 0 (q + 4);
     Some (True, p, upd_stats (\<lambda>s. s\<lparr>happy_eyeballs_ipv4_fallbacks := happy_eyeballs_ipv4_fallbacks s + 1\<rparr>) ctx,
       [ToClient client reply])
   }"

definition target_v6_const :: "u8 list" where
  "target_v6_const = [0x20, 0x01, 0x48, 0x60, 0x48, 0x60, 0, 0, 0, 0, 0, 0, 0, 0, 0x88, 0x88]"

definition synthesize_a :: "buf \<Rightarrow> nat \<Rightarrow> sockaddr_in \<Rightarrow> dns64_ctx \<Rightarrow> dns_result" where
  "synthesize_a p n client ctx = (case allocate_synthetic_ip ctx of (synth_v4, ctx) \<Rightarrow>
     let ctx = dns64_register_mapping synth_v4 target_v6_const ctx in do {
       p \<leftarrow> st16 p 2 (htons 0x8180);
       p \<leftarrow> st16 p 6 (htons 1);
       p \<leftarrow> stn p n [0xc0, 0x0c, 0x00, 0x01, 0x00, 0x01, 0x00, 0x00, 0x00, 0x3c, 0x00, 0x04];
       p \<leftarrow> st32 p (n + 12) synth_v4;
       reply \<leftarrow> ldn p 0 (n + 16);
       Some (True, p, upd_stats (\<lambda>s. s\<lparr>synthesized_a_records := synthesized_a_records s + 1\<rparr>) ctx,
         [ToClient client reply])
     })"

text \<open>
  The cached answer with the client's identifier. Behind the answer the buffer on the stack
  is not initialised; these bytes are not sent, and zero here.
\<close>

definition cached_reply :: "int \<Rightarrow> u32 \<Rightarrow> u16 \<Rightarrow> dns64_ctx \<Rightarrow> buf option option" where
  "cached_reply now qhash ident ctx = do {
     e \<leftarrow> array_lookup (dx_cache ctx) (qhash mod DNS_CACHE_SIZE);
     if ce_valid e \<and> ce_hash e = qhash \<and> expires_at e > now \<and> unat (ce_len e) \<le> 512 then do {
       r \<leftarrow> ldn (ce_data e) 0 (unat (ce_len e));
       resp_buf \<leftarrow> st16 (r @ replicate (512 - unat (ce_len e)) 0) 0 ident;
       reply \<leftarrow> ldn resp_buf 0 (unat (ce_len e));
       Some (Some reply)
     } else Some None
   }"

definition forward_query :: "int \<Rightarrow> buf \<Rightarrow> nat \<Rightarrow> sockaddr_in \<Rightarrow> u16 \<Rightarrow> u32 \<Rightarrow> dns64_ctx \<Rightarrow> dns_result" where
  "forward_query now p n client qid qhash ctx = do {
     _ \<leftarrow> array_lookup (pending_queries ctx) (ucast qid);
     query \<leftarrow> ldn p 0 n;
     Some (False, p,
       ctx\<lparr>pending_queries := array_modify
         (\<lambda>_. \<lparr>pe_client_addr = client, pe_timestamp = now, pe_qhash = qhash\<rparr>) (ucast qid) (pending_queries ctx)\<rparr>,
       ToUpstream query # (if upstream_fd2 ctx then [ToUpstream2 query] else []))
   }"

definition answer_query :: "int \<Rightarrow> buf \<Rightarrow> nat \<Rightarrow> sockaddr_in \<Rightarrow> u16 \<Rightarrow> dns64_ctx \<Rightarrow> dns_result" where
  "answer_query now p n client ident ctx = do {
     let qhash = dns_compute_question_hash (take n p);
     hit \<leftarrow> (if qhash \<noteq> 0 then cached_reply now qhash ident ctx else Some None);
     case hit of
       Some reply \<Rightarrow> Some (True, p, upd_stats (\<lambda>s. s\<lparr>cache_hits := cache_hits s + 1\<rparr>) ctx, [ToClient client reply])
     | None \<Rightarrow> forward_query now p n client (htons ident) qhash ctx
   }"

definition handle_query :: "int \<Rightarrow> buf \<Rightarrow> nat \<Rightarrow> sockaddr_in \<Rightarrow> dns64_ctx \<Rightarrow> dns_result" where
  "handle_query now p n client ctx =
     (if n < 12 then Some (False, p, ctx, [])
      else do {
        let ctx = upd_stats (\<lambda>s. s\<lparr>total_queries := total_queries s + 1\<rparr>) ctx;
        ident \<leftarrow> ld16 p 0;
        (q, qtype) \<leftarrow> query_qtype p n;
        if smart_ipv6_bonding (dx_dns ctx) \<and> qtype = 0x001C then suppress_aaaa p q client ctx
        else if nat46_enabled (dx_nat46 ctx) \<and> qtype = 0x0001 then synthesize_a p n client ctx
        else answer_query now p n client ident ctx
      })"

subsection \<open>Responses\<close>

definition fill_cache :: "int \<Rightarrow> buf \<Rightarrow> nat \<Rightarrow> u32 \<Rightarrow> dns64_ctx \<Rightarrow> dns64_ctx option" where
  "fill_cache now p n qhash ctx = do {
     let idx = qhash mod DNS_CACHE_SIZE;
     e \<leftarrow> array_lookup (dx_cache ctx) idx;
     bytes \<leftarrow> ldn p 0 n;
     data \<leftarrow> stn (ce_data e) 0 bytes;
     let ctx = (if \<not> ce_valid e then upd_stats (\<lambda>s. s\<lparr>cached_entries := cached_entries s + 1\<rparr>) ctx else ctx);
     Some (ctx\<lparr>dx_cache := array_modify (\<lambda>_. \<lparr>ce_hash = qhash, expires_at = now + DNS_CACHE_TTL_SEC,
       ce_len = of_nat n, ce_valid = True, ce_data = data\<rparr>) idx (dx_cache ctx)\<rparr>)
   }"

definition handle_response :: "int \<Rightarrow> buf \<Rightarrow> nat \<Rightarrow> dns64_ctx \<Rightarrow> (dns64_ctx \<times> dns_send list) option" where
  "handle_response now p n ctx =
     (if n < 12 then Some (ctx, [])
      else do {
        ident \<leftarrow> ld16 p 0;
        let qid = htons ident;
        pe \<leftarrow> array_lookup (pending_queries ctx) (ucast qid);
        if sin_family (pe_client_addr pe) = AF_INET then do {
          reply \<leftarrow> ldn p 0 n;
          let qhash = pe_qhash pe;
          let ctx = upd_stats (\<lambda>s. s\<lparr>passthrough_queries := passthrough_queries s + 1\<rparr>)
            (ctx\<lparr>pending_queries := array_modify
              (\<lambda>e. e\<lparr>pe_client_addr := (pe_client_addr e)\<lparr>sin_family := 0\<rparr>\<rparr>) (ucast qid) (pending_queries ctx)\<rparr>);
          fl \<leftarrow> ld16 p 2;
          anc \<leftarrow> ld16 p 6;
          ctx \<leftarrow> (if htons fl AND 0x000F = 0 \<and> htons anc > 0 \<and> n \<le> 512 \<and> qhash \<noteq> 0
                   then fill_cache now p n qhash ctx else Some ctx);
          Some (ctx, [ToClient (pe_client_addr pe) reply])
        } else Some (ctx, [])
      })"

subsection \<open>The worker\<close>

text \<open>What one round of \<open>select\<close> finds: a client's query, and answers of the two servers.\<close>

record dns_input =
  in_query :: "(sockaddr_in \<times> u8 list) option"
  in_up :: "u8 list option"
  in_up2 :: "u8 list option"
  in_time :: int
  in_time_up :: int
  in_time_up2 :: int

text \<open>\<open>recvfrom\<close>: the datagram, cut to the size of the buffer, overwrites its front.\<close>

definition recv_buf :: "u8 list \<Rightarrow> buf \<Rightarrow> buf \<times> nat" where
  "recv_buf d p = (let d = take (length p) d in (d @ drop (length d) p, length d))"

definition recv_response ::
  "bool \<Rightarrow> u8 list option \<Rightarrow> int \<Rightarrow> buf \<times> dns64_ctx \<times> dns_send list \<Rightarrow> (buf \<times> dns64_ctx \<times> dns_send list) option" where
  "recv_response valid d now s = (case s of (p, ctx, out) \<Rightarrow>
     case d of
       Some d \<Rightarrow> if valid then do {
           let (p, n) = recv_buf d p;
           (ctx, out') \<leftarrow> handle_response now p n ctx;
           Some (p, ctx, out @ out')
         } else Some s
     | None \<Rightarrow> Some s)"

definition dns64_iteration :: "dns_input \<Rightarrow> buf \<times> dns64_ctx \<Rightarrow> (buf \<times> dns64_ctx \<times> dns_send list) option" where
  "dns64_iteration inp s = (case s of (p, ctx) \<Rightarrow> do {
     (done, p, ctx, out) \<leftarrow> (case in_query inp of
         None \<Rightarrow> Some (False, p, ctx, [])
       | Some (client, d) \<Rightarrow> let (p, n) = recv_buf d p in handle_query (in_time inp) p n client ctx);
     if done then Some (p, ctx, out)
     else do {
       s \<leftarrow> recv_response (upstream_fd ctx) (in_up inp) (in_time_up inp) (p, ctx, out);
       recv_response (upstream_fd2 ctx) (in_up2 inp) (in_time_up2 inp) s
     }
   })"

fun dns64_worker :: "dns_input list \<Rightarrow> buf \<times> dns64_ctx \<Rightarrow> (buf \<times> dns64_ctx \<times> dns_send list) option" where
  "dns64_worker [] (p, ctx) = Some (p, ctx, [])"
| "dns64_worker (inp # inps) s = do {
     (p, ctx, out) \<leftarrow> dns64_iteration inp s;
     (p, ctx, out') \<leftarrow> dns64_worker inps (p, ctx);
     Some (p, ctx, out @ out')
   }"

definition zero_dns64_stats :: dns64_stats where
  "zero_dns64_stats = \<lparr>total_queries = 0, synthesized_a_records = 0, passthrough_queries = 0, cache_hits = 0,
     cached_entries = 0, active_synthetic_mappings = 0, happy_eyeballs_ipv4_fallbacks = 0, current_pool_ip = 0\<rparr>"

abbreviation zero_pending :: pending_dns_entry where
  "zero_pending \<equiv> \<lparr>pe_client_addr = \<lparr>sin_family = 0, sin_port = 0, sin_addr = 0\<rparr>, pe_timestamp = 0, pe_qhash = 0\<rparr>"

definition zero_cache_entry :: dns_cache_entry where
  "zero_cache_entry = \<lparr>ce_hash = 0, expires_at = 0, ce_len = 0, ce_valid = False, ce_data = replicate 512 0\<rparr>"

text \<open>\<open>socks\<close> tells which of the three sockets could be opened.\<close>

definition dns64_init ::
  "bool \<times> bool \<times> bool \<Rightarrow> dns_features \<Rightarrow> nat46_settings \<Rightarrow> bool \<Rightarrow> bool \<Rightarrow> nat46_maps \<Rightarrow> dns64_ctx option" where
  "dns64_init socks dns n46 v4_fd v6_fd maps = (case socks of (server_ok, up_ok, up2_ok) \<Rightarrow>
     if \<not> server_ok then None
     else Some \<lparr>upstream_fd = up_ok, upstream_fd2 = up2_ok,
       upstream_addr = (if adblock_enabled dns then ''94.140.14.14''
                        else if primary_dns dns \<noteq> [] then primary_dns dns else ''1.1.1.1''),
       upstream_addr2 = (if secondary_dns dns \<noteq> [] then secondary_dns dns else ''8.8.8.8''),
       dx_dns = dns, dx_nat46 = n46, v4_map_fd = v4_fd, v6_map_fd = v6_fd,
       current_synth_ip_host = SYNTH_START_IP_HOST, dx_stats = zero_dns64_stats,
       pending_queries = replicate 65536 zero_pending, dx_cache = replicate 4096 zero_cache_entry, dx_maps = maps\<rparr>)"

definition dns64_get_stats :: "dns64_ctx \<Rightarrow> dns64_stats" where
  "dns64_get_stats ctx = (dx_stats ctx)\<lparr>current_pool_ip := htonl (current_synth_ip_host ctx)\<rparr>"

section \<open>Well-formed contexts\<close>

definition cache_wf :: "dns_cache_entry list \<Rightarrow> bool" where
  "cache_wf c \<longleftrightarrow> length c = 4096 \<and>
     (\<forall>i < 4096. length (ce_data (c ! i)) = 512 \<and>
       (ce_valid (c ! i) \<longrightarrow> 12 \<le> unat (ce_len (c ! i)) \<and> unat (ce_len (c ! i)) \<le> 512 \<and>
         unat (ce_hash (c ! i)) mod 4096 = i))"

definition dns64_wf :: "dns64_ctx \<Rightarrow> bool" where
  "dns64_wf ctx \<longleftrightarrow> cache_wf (dx_cache ctx) \<and> length (pending_queries ctx) = 65536 \<and>
     SYNTH_START_IP_HOST \<le> current_synth_ip_host ctx \<and> current_synth_ip_host ctx \<le> SYNTH_END_IP_HOST \<and>
     unat (cached_entries (dx_stats ctx)) = length (filter ce_valid (dx_cache ctx)) \<and> nat46_wf (dx_maps ctx)"

text \<open>What an operation that returns leaves behind.\<close>

definition dns_ok :: "dns_result \<Rightarrow> bool" where
  "dns_ok r \<longleftrightarrow> (\<exists>b p ctx out. r = Some (b, p, ctx, out) \<and> length p = 2048 \<and> dns64_wf ctx)"

lemma unat_mod_cache: "unat (h mod DNS_CACHE_SIZE) = unat h mod 4096"
  by (simp add: DNS_CACHE_SIZE_def unat_mod)

lemma cache_index [simp]: "unat (h mod DNS_CACHE_SIZE) < 4096"
  by (simp add: unat_mod_cache)

lemma skip_name_total: "n \<le> length p \<Longrightarrow> \<exists>q'. skip_name p n q = Some q'"
proof (induction p n q rule: skip_name.induct)
  case (1 p n q)
  show ?case
  proof (cases "q < n \<and> p ! q \<noteq> 0")
    case True
    with 1 show ?thesis by (simp add: skip_name.simps [of p n q] mem_simps)
  next
    case False
    with 1 show ?thesis by (auto simp: skip_name.simps [of p n q] mem_simps)
  qed
qed

lemma query_qtype_total:
  assumes "n \<le> length p"
  obtains q t where "query_qtype p n = Some (q, t)" "t \<noteq> 0 \<Longrightarrow> q + 4 \<le> n"
proof -
  obtain q where "skip_name p n 12 = Some q" using skip_name_total [OF assms] by blast
  with assms have "\<exists>q t. query_qtype p n = Some (q, t) \<and> (t \<noteq> 0 \<longrightarrow> q + 4 \<le> n)"
    by (auto simp: query_qtype_def mem_simps)
  with that show thesis by blast
qed

subsection \<open>The branches\<close>

lemma suppress_aaaa_ok:
  assumes "length p = 2048" "q + 4 \<le> 2048" "dns64_wf ctx"
  shows "dns_ok (suppress_aaaa p q client ctx)"
  using assms by (auto simp: suppress_aaaa_def mem_simps dns_ok_def dns64_wf_def)

lemma set_hash_update: "set (hash_update n k v m) \<subseteq> insert (k, v) (set m)"
proof -
  have "set (AList.update k v m) \<subseteq> insert (k, v) (set m)" by (induction m) auto
  then show ?thesis by (auto simp: hash_update_def)
qed

lemma register_wf:
  assumes "dns64_wf ctx" "length v6 = 16"
  shows "dns64_wf (dns64_register_mapping ip v6 ctx)"
proof -
  have "nat46_wf (dx_maps ctx)" using assms by (simp add: dns64_wf_def)
  then have "nat46_wf (dx_maps (dns64_register_mapping ip v6 ctx))"
    using assms(2) set_hash_update [where m = "v4_to_v6_map (dx_maps ctx)"]
    by (fastforce simp: dns64_register_mapping_def Let_def nat46_wf_def)
  then show ?thesis using assms(1) by (simp add: dns64_wf_def dns64_register_mapping_def Let_def)
qed

lemma synth_next:
  assumes "SYNTH_START_IP_HOST \<le> ip" "ip \<le> SYNTH_END_IP_HOST"
  defines "c \<equiv> (if ip + 1 > SYNTH_END_IP_HOST then SYNTH_START_IP_HOST else ip + 1)"
  shows "SYNTH_START_IP_HOST \<le> c \<and> c \<le> SYNTH_END_IP_HOST"
proof -
  have "unat ip < 4294967295" using assms(2) by (simp add: SYNTH_END_IP_HOST_def word_le_nat_alt)
  then have "unat (ip + 1) = unat ip + 1" by (subst unat_add_lem [THEN iffD1]) simp_all
  with assms show ?thesis
    by (auto simp: SYNTH_START_IP_HOST_def SYNTH_END_IP_HOST_def word_le_nat_alt word_less_nat_alt)
qed

lemma allocate_wf: "dns64_wf ctx \<Longrightarrow> dns64_wf (snd (allocate_synthetic_ip ctx))"
  using synth_next [of "current_synth_ip_host ctx"] by (simp add: dns64_wf_def allocate_synthetic_ip_def Let_def)

lemma synthesize_a_cases:
  assumes "length p = 2048" "12 \<le> n" "n \<le> 2048" "dns64_wf ctx"
  shows "synthesize_a p n client ctx = None \<longleftrightarrow> n > 2032"
    and "n \<le> 2032 \<Longrightarrow> dns_ok (synthesize_a p n client ctx)"
proof -
  obtain ip ctx' where a: "allocate_synthetic_ip ctx = (ip, ctx')" by (cases "allocate_synthetic_ip ctx")
  then have "dns64_wf (dns64_register_mapping ip target_v6_const ctx')"
    using allocate_wf [OF assms(4)] by (simp add: register_wf target_v6_const_def)
  then show "n \<le> 2032 \<Longrightarrow> dns_ok (synthesize_a p n client ctx)"
    using a assms by (auto simp: synthesize_a_def Let_def mem_simps dns_ok_def dns64_wf_def)
  then show "synthesize_a p n client ctx = None \<longleftrightarrow> n > 2032"
    using a assms by (auto simp: synthesize_a_def Let_def mem_simps dns_ok_def stn_def st32_def)
qed

lemma cache_entry:
  assumes "dns64_wf ctx"
  obtains e where "array_lookup (dx_cache ctx) (h mod DNS_CACHE_SIZE) = Some e" "length (ce_data e) = 512"
    "e = dx_cache ctx ! unat (h mod DNS_CACHE_SIZE)"
    "ce_valid e \<longrightarrow> 12 \<le> unat (ce_len e) \<and> unat (ce_len e) \<le> 512"
  using assms cache_index [of h] that by (simp add: dns64_wf_def cache_wf_def array_lookup_def)

lemma cached_reply_total:
  assumes "dns64_wf ctx"
  shows "\<exists>r. cached_reply now h ident ctx = Some r"
  by (rule cache_entry [OF assms, of h]) (auto simp: cached_reply_def mem_simps)

lemma ucast_u16_less: "unat (ucast (x :: u16) :: u32) < 65536"
  using unsigned_less [of x, where ?'a = nat] by (simp add: unsigned_ucast_eq take_bit_nat_eq_self)

lemma answer_query_ok:
  assumes "length p = 2048" "n \<le> 2048" "dns64_wf ctx"
  shows "dns_ok (answer_query now p n client ident ctx)"
proof -
  let ?h = "dns_compute_question_hash (take n p)"
  obtain r where r: "cached_reply now ?h ident ctx = Some r" using cached_reply_total [OF assms(3)] by blast
  have "dns_ok (forward_query now p n client (htons ident) ?h ctx)"
    using assms ucast_u16_less [of "htons ident"]
    by (auto simp: forward_query_def dns_ok_def dns64_wf_def array_lookup_def mem_simps)
  with r assms show ?thesis
    by (cases r) (auto simp: answer_query_def Let_def dns_ok_def dns64_wf_def)
qed

lemma handle_query_cases:
  assumes "length p = 2048" "n \<le> 2048" "dns64_wf ctx"
  defines "overflow \<equiv> 2032 < n \<and> nat46_enabled (dx_nat46 ctx) \<and> (\<exists>q. query_qtype p n = Some (q, 1))"
  shows "handle_query now p n client ctx = None \<longleftrightarrow> overflow"
    and "\<not> overflow \<Longrightarrow> dns_ok (handle_query now p n client ctx)"
proof -
  let ?ctx = "upd_stats (\<lambda>s. s\<lparr>total_queries := total_queries s + 1\<rparr>) ctx"
  have wf: "dns64_wf ?ctx" using assms(3) by (simp add: dns64_wf_def)
  obtain q t where q: "query_qtype p n = Some (q, t)" "t \<noteq> 0 \<Longrightarrow> q + 4 \<le> n"
    by (rule query_qtype_total [of n p]) (use assms in auto)
  have ok: "dns_ok (handle_query now p n client ctx)" if "\<not> overflow"
  proof (cases "n < 12")
    case True
    then show ?thesis using assms by (auto simp: handle_query_def dns_ok_def)
  next
    case False
    show ?thesis
      using that False q assms(1,2) suppress_aaaa_ok [OF assms(1) _ wf, of q client]
        synthesize_a_cases(2) [OF assms(1) _ assms(2) wf, of client] answer_query_ok [OF assms(1,2) wf, of now client]
      by (auto simp: handle_query_def mem_simps Let_def overflow_def)
  qed
  have "handle_query now p n client ctx = None" if "overflow"
    using that q assms(1,2) synthesize_a_cases(1) [OF assms(1) _ assms(2) wf, of client]
    by (auto simp: handle_query_def mem_simps Let_def overflow_def)
  with ok show "handle_query now p n client ctx = None \<longleftrightarrow> overflow" unfolding dns_ok_def by fastforce
  from ok show "\<not> overflow \<Longrightarrow> dns_ok (handle_query now p n client ctx)" .
qed

subsection \<open>Responses\<close>

lemma length_filter_upd:
  "i < length xs \<Longrightarrow> P x \<Longrightarrow>
   length (filter P (xs[i := x])) = (if P (xs ! i) then length (filter P xs) else Suc (length (filter P xs)))"
  by (induction xs arbitrary: i) (auto simp: nth_Cons split: nat.split)

lemma cache_wf_upd:
  assumes "cache_wf c" "unat h mod 4096 = i" "i < 4096" "12 \<le> n" "n \<le> 512" "length data = 512"
  shows "cache_wf (c[i := \<lparr>ce_hash = h, expires_at = t, ce_len = of_nat n, ce_valid = True, ce_data = data\<rparr>])"
proof -
  have "unat (of_nat n :: u16) = n" using assms by (simp add: unat_of_nat take_bit_nat_eq_self)
  with assms show ?thesis by (simp add: cache_wf_def nth_upd)
qed

lemma fill_cache_ok:
  assumes "dns64_wf ctx" "length p = 2048" "12 \<le> n" "n \<le> 512"
  shows "\<exists>ctx'. fill_cache now p n h ctx = Some ctx' \<and> dns64_wf ctx'"
proof -
  let ?i = "unat (h mod DNS_CACHE_SIZE)" and ?c = "dx_cache ctx"
  obtain e where e: "array_lookup ?c (h mod DNS_CACHE_SIZE) = Some e" "length (ce_data e) = 512" "e = ?c ! ?i"
    by (rule cache_entry [OF assms(1), of h])
  have l: "length ?c = 4096" using assms(1) by (simp add: dns64_wf_def cache_wf_def)
  have "length (filter ce_valid ?c) < 2 ^ 32 - 1" using l by (intro le_less_trans [OF length_filter_le]) simp
  then have inc: "unat (cached_entries (dx_stats ctx) + 1) = Suc (length (filter ce_valid ?c))"
    using assms(1) by (subst unat_add_lem [THEN iffD1]) (simp_all add: dns64_wf_def)
  have "\<And>t data. length data = 512 \<Longrightarrow>
      cache_wf (?c[?i := \<lparr>ce_hash = h, expires_at = t, ce_len = of_nat n, ce_valid = True, ce_data = data\<rparr>])"
    using assms by (intro cache_wf_upd) (simp_all add: dns64_wf_def unat_mod_cache)
  with e inc l assms show ?thesis
    by (auto simp: fill_cache_def Let_def mem_simps dns64_wf_def array_modify_def length_filter_upd)
qed

lemma handle_response_ok:
  assumes "dns64_wf ctx" "length p = 2048" "n \<le> 2048"
  shows "\<exists>ctx' out. handle_response now p n ctx = Some (ctx', out) \<and> dns64_wf ctx'"
proof (cases "n < 12")
  case True
  then show ?thesis using assms by (simp add: handle_response_def)
next
  case False
  let ?i = "ucast (htons (le16 (p ! 0) (p ! 1))) :: u32"
  let ?ctx = "upd_stats (\<lambda>s. s\<lparr>passthrough_queries := passthrough_queries s + 1\<rparr>)
            (ctx\<lparr>pending_queries := array_modify
              (\<lambda>e. e\<lparr>pe_client_addr := (pe_client_addr e)\<lparr>sin_family := 0\<rparr>\<rparr>) ?i (pending_queries ctx)\<rparr>)"
  have "array_lookup (pending_queries ctx) ?i = Some (pending_queries ctx ! unat ?i)"
    using assms ucast_u16_less by (simp add: dns64_wf_def array_lookup_def)
  moreover have wf: "dns64_wf ?ctx" using assms(1) by (simp add: dns64_wf_def)
  moreover obtain ctx' where "n \<le> 512 \<Longrightarrow> fill_cache now p n (pe_qhash (pending_queries ctx ! unat ?i)) ?ctx = Some ctx' \<and> dns64_wf ctx'"
    using fill_cache_ok [OF wf assms(2)] False by (meson not_le)
  ultimately show ?thesis using False assms by (auto simp: handle_response_def mem_simps Let_def)
qed

subsection \<open>Rounds of the worker\<close>

text \<open>A round overflows the buffer exactly if it synthesises an answer behind a long query.\<close>

definition long_query :: "dns_input \<Rightarrow> buf \<times> dns64_ctx \<Rightarrow> bool" where
  "long_query inp s \<longleftrightarrow> (case in_query inp of None \<Rightarrow> False
     | Some (client, d) \<Rightarrow> nat46_enabled (dx_nat46 (snd s)) \<and> length d > 2032 \<and>
         (\<exists>q. query_qtype (fst (recv_buf d (fst s))) (snd (recv_buf d (fst s))) = Some (q, 1)))"

lemma recv_buf_length: "length (fst (recv_buf d p)) = length p" "snd (recv_buf d p) \<le> length p"
  by (auto simp: recv_buf_def Let_def)

lemma recv_response_ok:
  assumes "length p = 2048" "dns64_wf ctx"
  shows "\<exists>p' ctx' out'. recv_response v d now (p, ctx, out) = Some (p', ctx', out') \<and> length p' = 2048 \<and> dns64_wf ctx'"
proof (cases "v \<and> d \<noteq> None")
  case True
  then obtain d' where d: "d = Some d'" by auto
  obtain p' n where r: "recv_buf d' p = (p', n)" by (cases "recv_buf d' p")
  then have "length p' = 2048" "n \<le> 2048" using recv_buf_length [of d' p] assms by simp_all
  with handle_response_ok [OF assms(2), of p' n now] True d r show ?thesis by (auto simp: recv_response_def)
next
  case False
  then show ?thesis using assms by (auto simp: recv_response_def split: option.split)
qed

lemma dns64_iteration_cases:
  assumes "length p = 2048" "dns64_wf ctx"
  shows "dns64_iteration inp (p, ctx) = None \<longleftrightarrow> long_query inp (p, ctx)"
    and "\<not> long_query inp (p, ctx) \<Longrightarrow>
      \<exists>p' ctx' out. dns64_iteration inp (p, ctx) = Some (p', ctx', out) \<and> length p' = 2048 \<and> dns64_wf ctx'"
proof -
  let ?q = "(case in_query inp of
         None \<Rightarrow> Some (False, p, ctx, [])
       | Some (client, d) \<Rightarrow> let (p, n) = recv_buf d p in handle_query (in_time inp) p n client ctx)"
  have q: "?q = None \<longleftrightarrow> long_query inp (p, ctx)" "\<not> long_query inp (p, ctx) \<Longrightarrow> dns_ok ?q"
  proof -
    have "(?q = None \<longleftrightarrow> long_query inp (p, ctx)) \<and> (\<not> long_query inp (p, ctx) \<longrightarrow> dns_ok ?q)"
    proof (cases "in_query inp")
      case None
      then show ?thesis using assms by (auto simp: long_query_def dns_ok_def)
    next
      case (Some cd)
      obtain client d where cd: "cd = (client, d)" by (cases cd)
      obtain p' n where r: "recv_buf d p = (p', n)" by (cases "recv_buf d p")
      then have l: "length p' = 2048" "n \<le> 2048" "n = min 2048 (length d)"
        using recv_buf_length [of d p] assms by (auto simp: recv_buf_def Let_def)
      show ?thesis
        using handle_query_cases [OF l(1,2) assms(2), of "in_time inp" client] Some cd r l(3)
        by (auto simp: long_query_def)
    qed
    then show "?q = None \<longleftrightarrow> long_query inp (p, ctx)" "\<not> long_query inp (p, ctx) \<Longrightarrow> dns_ok ?q" by auto
  qed
  have it: "dns64_iteration inp (p, ctx) = Option.bind ?q (\<lambda>(done, p, ctx, out). if done then Some (p, ctx, out)
     else do {
       s \<leftarrow> recv_response (upstream_fd ctx) (in_up inp) (in_time_up inp) (p, ctx, out);
       recv_response (upstream_fd2 ctx) (in_up2 inp) (in_time_up2 inp) s
     })"
    by (simp add: dns64_iteration_def)
  show ok: "\<exists>p' ctx' out. dns64_iteration inp (p, ctx) = Some (p', ctx', out) \<and> length p' = 2048 \<and> dns64_wf ctx'"
    if n: "\<not> long_query inp (p, ctx)"
  proof -
    obtain b p1 ctx1 out1 where "?q = Some (b, p1, ctx1, out1)" and l1: "length p1 = 2048" "dns64_wf ctx1"
      using q(2) [OF n] by (auto simp: dns_ok_def)
    then have eq: "dns64_iteration inp (p, ctx) = (if b then Some (p1, ctx1, out1)
       else do {
         s \<leftarrow> recv_response (upstream_fd ctx1) (in_up inp) (in_time_up inp) (p1, ctx1, out1);
         recv_response (upstream_fd2 ctx1) (in_up2 inp) (in_time_up2 inp) s
       })"
      using it by simp
    obtain p2 ctx2 out2 where r2: "recv_response (upstream_fd ctx1) (in_up inp) (in_time_up inp) (p1, ctx1, out1)
        = Some (p2, ctx2, out2)" "length p2 = 2048" "dns64_wf ctx2"
      using recv_response_ok [OF l1] by blast
    from recv_response_ok [OF r2(2,3)] r2(1) l1 eq show ?thesis by auto
  qed
  show "dns64_iteration inp (p, ctx) = None \<longleftrightarrow> long_query inp (p, ctx)"
    using ok it q(1) by fastforce
qed

section \<open>Properties\<close>

lemma dns64_init_wf:
  assumes "dns64_init socks dns n46 v4 v6 maps = Some ctx" "nat46_wf maps"
  shows "dns64_wf ctx"
  using assms by (auto simp: dns64_init_def dns64_wf_def cache_wf_def zero_cache_entry_def zero_dns64_stats_def
    SYNTH_START_IP_HOST_def SYNTH_END_IP_HOST_def split: prod.splits if_splits)

lemma dns64_worker_wf:
  assumes "length p = 2048" "dns64_wf ctx" "\<forall>inp \<in> set inps. \<forall>c d. in_query inp = Some (c, d) \<longrightarrow> length d \<le> 2032"
  shows "\<exists>p' ctx' out. dns64_worker inps (p, ctx) = Some (p', ctx', out) \<and> dns64_wf ctx'"
  using assms
proof (induction inps arbitrary: p ctx)
  case (Cons inp inps)
  then have "\<not> long_query inp (p, ctx)" by (auto simp: long_query_def split: option.split)
  with dns64_iteration_cases(2) Cons.prems obtain p1 ctx1 out1 where
    it: "dns64_iteration inp (p, ctx) = Some (p1, ctx1, out1)" and l: "length p1 = 2048" "dns64_wf ctx1" by blast
  from Cons.IH [OF l] Cons.prems obtain p2 ctx2 out2 where
    "dns64_worker inps (p1, ctx1) = Some (p2, ctx2, out2)" "dns64_wf ctx2" by auto
  with it show ?case by simp
qed simp


definition sample_dns :: dns_features where
  "sample_dns = \<lparr>adblock_enabled = False, fast_dns_enabled = True, primary_dns = [], secondary_dns = [],
     smart_ipv6_bonding = False\<rparr>"

definition sample_settings :: "bool \<Rightarrow> nat46_settings" where
  "sample_settings b = \<lparr>nat46_enabled = b, synthetic_prefix = [], upstream_dns = [], starlink_wan_name = []\<rparr>"

definition sample_client :: sockaddr_in where
  "sample_client = \<lparr>sin_family = AF_INET, sin_port = 0x1234, sin_addr = 0x0502000A\<rparr>"

definition query_input :: "sockaddr_in \<Rightarrow> u8 list \<Rightarrow> int \<Rightarrow> dns_input" where
  "query_input client d now = \<lparr>in_query = Some (client, d), in_up = None, in_up2 = None,
     in_time = now, in_time_up = 0, in_time_up2 = 0\<rparr>"

definition response_input :: "u8 list \<Rightarrow> int \<Rightarrow> dns_input" where
  "response_input d now = \<lparr>in_query = None, in_up = Some d, in_up2 = None,
     in_time = 0, in_time_up = now, in_time_up2 = 0\<rparr>"

definition sample_ctx :: "bool \<Rightarrow> dns64_ctx" where
  "sample_ctx b = the (dns64_init (True, True, True) sample_dns (sample_settings b) True True sample_nat46)"

lemma sample_ctx_init:
  "dns64_init (True, True, True) sample_dns (sample_settings b) True True sample_nat46 = Some (sample_ctx b)"
  by (simp add: sample_ctx_def dns64_init_def)

lemma sample_ctx_fields [simp]:
  "nat46_enabled (dx_nat46 (sample_ctx b)) = b" "smart_ipv6_bonding (dx_dns (sample_ctx b)) = False"
  "v4_map_fd (sample_ctx b)" "upstream_fd (sample_ctx b)" "upstream_fd2 (sample_ctx b)"
  "dx_maps (sample_ctx b) = sample_nat46" "dx_cache (sample_ctx b) = replicate 4096 zero_cache_entry"
  by (simp_all add: sample_ctx_def dns64_init_def sample_settings_def sample_dns_def)


text \<open>
  C23. The one buffer overflow of the worker. In a well-formed state a round accesses memory
  outside of the buffers exactly if NAT46 is enabled and the client's datagram is a query for an
  address of more than 2032 bytes: the synthesised answer is then appended beyond the end of the
  receive buffer.
\<close>

theorem dns64_round_fault:
  assumes "length p = 2048" "dns64_wf ctx"
  shows "dns64_iteration inp (p, ctx) = None \<longleftrightarrow>
    nat46_enabled (dx_nat46 ctx) \<and> (\<exists>client d q. in_query inp = Some (client, d) \<and> length d > 2032 \<and>
      query_qtype (take 2048 d @ drop (length d) p) (min 2048 (length d)) = Some (q, 1))"
proof -
  have "recv_buf d p = (take 2048 d @ drop (length d) p, min 2048 (length d))" for d
    using assms(1) by (cases "length d \<le> 2048") (simp_all add: recv_buf_def Let_def min_def)
  then show ?thesis
    using dns64_iteration_cases(1) [OF assms] by (auto simp: long_query_def split: option.split)
qed

definition long_a_query :: "u8 list" where
  "long_a_query = replicate 13 0 @ [0, 1, 0, 1] @ replicate 2020 0"

lemma dns64_round_fault_witness:
  "dns64_iteration (query_input sample_client long_a_query 0) (replicate 2048 0, sample_ctx True) = None"
proof -
  have wf: "dns64_wf (sample_ctx True)" by (rule dns64_init_wf [OF sample_ctx_init sample_nat46_ok(2)])
  have l: "length long_a_query = 2037" by (simp add: long_a_query_def)
  have b: "long_a_query ! 12 = 0" "long_a_query ! 13 = 0" "long_a_query ! 14 = 1"
    by (simp_all add: long_a_query_def nth_append)
  have "query_qtype (take 2048 long_a_query @ drop 2037 (replicate 2048 0)) 2037 = Some (13, 1)"
    using b by (simp add: query_qtype_def skip_name.simps [of _ 2037 12] ld8_def nth_append l)
  with dns64_round_fault [OF _ wf, of "replicate 2048 0" "query_input sample_client long_a_query 0"] l show ?thesis
    by (auto simp: query_input_def)
qed

subsection \<open>Cached answers\<close>

definition name_bytes :: "u8 list list \<Rightarrow> u8 list" where
  "name_bytes ls = concat (map (\<lambda>l. of_nat (length l) # l) ls) @ [0]"

lemma hash_label_fnv:
  "k \<le> length p \<Longrightarrow> hash_label k p h = (foldl fnv_step h (map tolower (take k p)), drop k p)"
  by (induction k p h rule: hash_label.induct) auto

lemma hash_labels_name:
  "\<forall>l \<in> set ls. l \<noteq> [] \<and> length l < 256 \<Longrightarrow>
   hash_labels (name_bytes ls @ rest) h = (foldl fnv_step h (map tolower (concat ls)), 0 # rest)"
proof (induction ls arbitrary: h)
  case Nil
  then show ?case by (simp add: name_bytes_def)
next
  case (Cons l ls)
  then have u: "unat (of_nat (length l) :: u8) = length l" by (simp add: unat_of_nat take_bit_nat_eq_self)
  then have "(of_nat (length l) :: u8) \<noteq> 0" using Cons.prems by auto
  moreover have nb: "name_bytes (l # ls) @ rest = of_nat (length l) # l @ name_bytes ls @ rest"
    by (simp add: name_bytes_def)
  ultimately show ?case
    using Cons u by (simp only: nb hash_labels.simps) (simp add: hash_label_fnv)
qed

lemma question_hash_name:
  assumes "length hdr = 12" "length qt = 4" "\<forall>l \<in> set ls. l \<noteq> [] \<and> length l < 256"
  shows "dns_compute_question_hash (hdr @ name_bytes ls @ qt @ rest) =
    foldl fnv_step 2166136261 (map tolower (concat ls) @ qt)"
proof -
  have "hash_labels (name_bytes ls @ qt @ rest) 2166136261 =
      (foldl fnv_step 2166136261 (map tolower (concat ls)), 0 # qt @ rest)"
    by (rule hash_labels_name [OF assms(3)])
  moreover have "name_bytes ls \<noteq> []" by (simp add: name_bytes_def)
  ultimately show ?thesis using assms by (simp add: dns_compute_question_hash_def)
qed

text \<open>
  The hash that identifies a question is insensitive to case and to the label boundaries.
  For a question with the labels \<open>ls\<close>, the type and class \<open>qt\<close>, whatever follows, it is the
  FNV-1a hash of the lower-case bytes of all labels, written one after the other, and \<open>qt\<close>.
\<close>

theorem question_hash_labels:
  assumes "length hdr = 12" "length qt = 4" "\<forall>l \<in> set ls. l \<noteq> [] \<and> length l < 256"
  shows "dns_compute_question_hash (hdr @ concat (map (\<lambda>l. of_nat (length l) # l) ls) @ 0 # qt @ rest) =
    foldl (\<lambda>h c. (h XOR ucast c) * 16777619) 2166136261 (map tolower (concat ls) @ qt)"
proof -
  have "fnv_step = (\<lambda>h c. (h XOR ucast c) * 16777619)" by (intro ext) (rule fnv_step_def)
  then show ?thesis using question_hash_name [OF assms] by (simp add: name_bytes_def)
qed

lemma question_hash_labels_witness:
  "dns_compute_question_hash (replicate 12 0 @ [2, 97, 98, 1, 99, 0, 0, 1, 0, 1]) =
   dns_compute_question_hash (replicate 12 7 @ [1, 65, 2, 66, 67, 0, 0, 1, 0, 1])"
  using question_hash_labels [of "replicate 12 0" "[0, 1, 0, 1]" "[[97, 98], [99]]" "[]"]
    question_hash_labels [of "replicate 12 7" "[0, 1, 0, 1]" "[[65], [66, 67]]" "[]"]
  by (simp add: tolower_def)

lemma recv_buf_fits:
  assumes "length p = 2048" "length d \<le> 2048"
  shows "recv_buf d p = (d @ drop (length d) p, length d)"
  using assms by (simp add: recv_buf_def Let_def)

text \<open>A round with a query to be looked up, and nothing else.\<close>

lemma query_round:
  assumes "length p = 2048" "12 \<le> length d" "length d \<le> 2048"
    and "\<not> smart_ipv6_bonding (dx_dns ctx)" "\<not> nat46_enabled (dx_nat46 ctx)"
    and a: "answer_query now (d @ drop (length d) p) (length d) client (le16 (d ! 0) (d ! 1))
      (upd_stats (\<lambda>s. s\<lparr>total_queries := total_queries s + 1\<rparr>) ctx) = Some (b, p', ctx', out)"
  shows "dns64_iteration (query_input client d now) (p, ctx) = Some (p', ctx', out)"
proof -
  let ?p = "d @ drop (length d) p"
  have l: "length d \<le> length ?p" by simp
  obtain q t where "query_qtype ?p (length d) = Some (q, t)" by (rule query_qtype_total [OF l])
  then have "handle_query now ?p (length d) client ctx = Some (b, p', ctx', out)"
    using assms by (auto simp: handle_query_def mem_simps nth_append Let_def)
  then show ?thesis
    by (simp add: dns64_iteration_def query_input_def recv_buf_fits [OF assms(1,3)] recv_response_def)
qed

lemma answer_query_miss:
  assumes "length p = 2048" "n \<le> 2048" "dns64_wf ctx" "dns_compute_question_hash (take n p) = h"
    and "cached_reply now h ident ctx = Some None"
  shows "answer_query now p n client ident ctx = Some (False, p,
    ctx\<lparr>pending_queries := (pending_queries ctx)[unat (htons ident) :=
      \<lparr>pe_client_addr = client, pe_timestamp = now, pe_qhash = h\<rparr>]\<rparr>,
    ToUpstream (take n p) # (if upstream_fd2 ctx then [ToUpstream2 (take n p)] else []))"
  using assms unsigned_less [of "htons ident", where ?'a = nat]
  by (simp add: answer_query_def forward_query_def array_lookup_def array_modify_def dns64_wf_def mem_simps)

lemma handle_response_fills:
  assumes "length p = 2048" "12 \<le> n" "n \<le> 512" "dns64_wf ctx" "h \<noteq> 0"
    and pe: "pending_queries ctx ! unat (htons (le16 (p ! 0) (p ! 1))) = pe" "sin_family (pe_client_addr pe) = AF_INET"
      "pe_qhash pe = h"
    and fl: "htons (le16 (p ! 2) (p ! 3)) AND 0x000F = 0" "htons (le16 (p ! 6) (p ! 7)) \<noteq> 0"
  obtains ctx' data where "handle_response now p n ctx = Some (ctx', [ToClient (pe_client_addr pe) (take n p)])"
    "dns64_wf ctx'" "dx_cache ctx' ! (unat h mod 4096) = \<lparr>ce_hash = h, expires_at = now + 7200, ce_len = of_nat n,
      ce_valid = True, ce_data = data\<rparr>" "take n data = take n p"
    "dx_dns ctx' = dx_dns ctx" "dx_nat46 ctx' = dx_nat46 ctx"
proof -
  let ?i = "htons (le16 (p ! 0) (p ! 1))" and ?c = "dx_cache ctx"
  obtain e where e: "array_lookup ?c (h mod DNS_CACHE_SIZE) = Some e" "length (ce_data e) = 512"
    by (rule cache_entry [OF assms(4), of h])
  have lk: "array_lookup (pending_queries ctx) (ucast ?i) = Some pe"
    using assms(4) pe(1) unsigned_less [of ?i, where ?'a = nat] by (simp add: dns64_wf_def array_lookup_def)
  obtain ctx' out where r: "handle_response now p n ctx = Some (ctx', out)" "dns64_wf ctx'"
    using handle_response_ok [OF assms(4,1), of n now] assms(3) by auto
  have gt: "htons (le16 (p ! 6) (p ! 7)) > 0" using fl(2) by (simp add: word_neq_0_conv)
  define data where "data = take n p @ drop n (ce_data e)"
  have "\<exists>f. handle_response now p n ctx = Some (f, [ToClient (pe_client_addr pe) (take n p)]) \<and>
      dx_cache f ! (unat h mod 4096) = \<lparr>ce_hash = h, expires_at = now + 7200, ce_len = of_nat n,
        ce_valid = True, ce_data = data\<rparr> \<and> dx_dns f = dx_dns ctx \<and> dx_nat46 f = dx_nat46 ctx"
    using assms(1-4) e lk pe fl(1) gt \<open>h \<noteq> 0\<close>
    by (simp add: handle_response_def fill_cache_def mem_simps Let_def array_modify_def data_def unat_mod_cache
      DNS_CACHE_TTL_SEC_def dns64_wf_def cache_wf_def)
  moreover have "take n data = take n p" using assms(1,3) by (simp add: data_def)
  ultimately show thesis using that r by auto
qed

lemma cached_reply_hit:
  assumes "dns64_wf ctx" "dx_cache ctx ! (unat h mod 4096) = e" "ce_hash e = h" "ce_valid e" "expires_at e > now"
  shows "cached_reply now h ident ctx =
    Some (Some ([byte_of16 0 ident, byte_of16 1 ident] @ drop 2 (take (unat (ce_len e)) (ce_data e))))"
proof -
  obtain e' where e': "array_lookup (dx_cache ctx) (h mod DNS_CACHE_SIZE) = Some e'" "length (ce_data e') = 512"
    "e' = dx_cache ctx ! unat (h mod DNS_CACHE_SIZE)"
    and len: "ce_valid e' \<longrightarrow> 12 \<le> unat (ce_len e') \<and> unat (ce_len e') \<le> 512"
    by (rule cache_entry [OF assms(1), of h])
  then have ee: "e' = e" using assms(2) by (simp add: unat_mod_cache)
  let ?n = "unat (ce_len e)"
  have n: "12 \<le> ?n" "?n \<le> 512" using len assms(4) ee by auto
  obtain a b t where t: "take ?n (ce_data e) = a # b # t" "length t = ?n - 2"
  proof -
    have "length (take ?n (ce_data e)) = ?n" using e' ee n by simp
    with that n show thesis by (cases "take ?n (ce_data e)" rule: remdups_adj.cases) auto
  qed
  then have "?n = Suc (Suc (length t))" using n by simp
  then show ?thesis
    using assms(3-5) e'(1,2) [unfolded ee] n(2) t(1) by (simp add: cached_reply_def mem_simps)
qed

text \<open>
  A cached answer. With the synthesis and the suppression off, a query that misses the cache
  goes to the upstream servers; their answer, without error and with records, is passed to the
  client; and for two hours each query whose question has the same hash is answered with these
  bytes and the identifier of the query, without asking upstream. The questions themselves are
  not compared.
\<close>

theorem cached_answer_served:
  assumes st: "length p = 2048" "dns64_wf ctx" "\<not> smart_ipv6_bonding (dx_dns ctx)" "\<not> nat46_enabled (dx_nat46 ctx)"
      "upstream_fd ctx"
    and q1: "12 \<le> length q1" "length q1 \<le> 2048" "sin_family c1 = AF_INET"
    and h: "dns_compute_question_hash q1 = h" "h \<noteq> 0" "cached_reply t1 h (le16 (q1 ! 0) (q1 ! 1)) ctx = Some None"
    and r: "12 \<le> length r" "length r \<le> 512" "take 2 r = take 2 q1" "htons (le16 (r ! 2) (r ! 3)) AND 0x000F = 0"
      "htons (le16 (r ! 6) (r ! 7)) \<noteq> 0"
    and q2: "12 \<le> length q2" "length q2 \<le> 2048" "dns_compute_question_hash q2 = h" "t3 < t2 + 7200"
  shows "\<exists>p' ctx'. dns64_worker [query_input c1 q1 t1, response_input r t2, query_input c2 q2 t3] (p, ctx) =
    Some (p', ctx', ToUpstream q1 # (if upstream_fd2 ctx then [ToUpstream2 q1] else []) @
      [ToClient c1 r, ToClient c2 (take 2 q2 @ drop 2 r)])"
proof -
  let ?id = "le16 (q1 ! 0) (q1 ! 1)"
  define p1 where "p1 = q1 @ drop (length q1) p"
  define p2 where "p2 = r @ drop (length r) p1"
  let ?cnt = "\<lambda>ctx :: dns64_ctx. upd_stats (\<lambda>s. s\<lparr>total_queries := total_queries s + 1\<rparr>) ctx"
  define pe where "pe = \<lparr>pe_client_addr = c1, pe_timestamp = t1, pe_qhash = h\<rparr>"
  define ctx1 where "ctx1 = (?cnt ctx)\<lparr>pending_queries := (pending_queries ctx)[unat (htons ?id) := pe]\<rparr>"
  have wf1: "dns64_wf ctx1" using st(2) by (simp add: ctx1_def dns64_wf_def)
  have l1: "length p1 = 2048" using st(1) q1(2) by (simp add: p1_def)
  have c: "cached_reply t1 h ?id (?cnt ctx) = Some None" using h(3) by (simp add: cached_reply_def)
  have "answer_query t1 p1 (length q1) c1 ?id (?cnt ctx) =
      Some (False, p1, ctx1, ToUpstream q1 # (if upstream_fd2 ctx then [ToUpstream2 q1] else []))"
    using answer_query_miss [OF l1 q1(2) _ _ c, of c1] st(2) h(1) by (simp add: ctx1_def pe_def dns64_wf_def p1_def)
  from query_round [OF st(1) q1(1,2) st(3,4) this [unfolded p1_def]] have it1: "dns64_iteration (query_input c1 q1 t1) (p, ctx) =
      Some (p1, ctx1, ToUpstream q1 # (if upstream_fd2 ctx then [ToUpstream2 q1] else []))" by (simp only: p1_def)
  have l2: "length p2 = 2048" using l1 r(2) by (simp add: p2_def)
  have "r ! 0 = q1 ! 0" "r ! 1 = q1 ! 1" using arg_cong [OF r(3), of "\<lambda>x. x ! 0"] arg_cong [OF r(3), of "\<lambda>x. x ! 1"] by simp_all
  then have rid: "p2 ! 0 = q1 ! 0" "p2 ! 1 = q1 ! 1" using r(1) by (auto simp: nth_append p2_def)
  have "pending_queries ctx1 ! unat (htons (le16 (p2 ! 0) (p2 ! 1))) = pe"
    unfolding rid using st(2) unsigned_less [of "htons ?id", where ?'a = nat] by (simp add: ctx1_def dns64_wf_def)
  then obtain ctx2 data where r2: "handle_response t2 p2 (length r) ctx1 = Some (ctx2, [ToClient c1 (take (length r) p2)])"
    and wf2: "dns64_wf ctx2"
    and e: "dx_cache ctx2 ! (unat h mod 4096) = \<lparr>ce_hash = h, expires_at = t2 + 7200, ce_len = of_nat (length r),
      ce_valid = True, ce_data = data\<rparr>" "take (length r) data = take (length r) p2"
    and cfg: "dx_dns ctx2 = dx_dns ctx1" "dx_nat46 ctx2 = dx_nat46 ctx1"
    by (rule handle_response_fills [OF l2 r(1,2) wf1 h(2), of pe]) (use r q1(3) in \<open>simp_all add: pe_def p2_def nth_append\<close>)
  then have it2: "dns64_iteration (response_input r t2) (p1, ctx1) = Some (p2, ctx2, [ToClient c1 r])"
    using st(5) recv_buf_fits [OF l1, of r] r(2)
    by (simp add: dns64_iteration_def response_input_def recv_response_def ctx1_def flip: p2_def) (simp add: p2_def)
  let ?p3 = "q2 @ drop (length q2) p2"
  have "cached_reply t3 h (le16 (q2 ! 0) (q2 ! 1)) (?cnt ctx2) = Some (Some ([q2 ! 0, q2 ! 1] @ drop 2 r))"
  proof -
    have "unat (of_nat (length r) :: u16) = length r" using r(2) by (simp add: unat_of_nat take_bit_nat_eq_self)
    moreover have "dns64_wf (?cnt ctx2)" using wf2 by (simp add: dns64_wf_def)
    ultimately show ?thesis using cached_reply_hit [of "?cnt ctx2" h, OF _ _ _ _ _] e q2(4) by (simp add: p2_def)
  qed
  moreover have "[q2 ! 0, q2 ! 1] = take 2 q2"
    using q2(1) by (cases q2 rule: remdups_adj.cases) auto
  ultimately have "answer_query t3 ?p3 (length q2) c2 (le16 (q2 ! 0) (q2 ! 1)) (?cnt ctx2) =
      Some (True, ?p3, upd_stats (\<lambda>s. s\<lparr>cache_hits := cache_hits s + 1\<rparr>) (?cnt ctx2), [ToClient c2 (take 2 q2 @ drop 2 r)])"
    using h(2) q2(3) by (simp add: answer_query_def)
  from query_round [OF l2 q2(1,2) _ _ this] it1 it2 cfg st(3,4) show ?thesis by (simp add: ctx1_def)
qed

definition sample_query :: "u8 \<Rightarrow> u8 list" where
  "sample_query i = [0, i, 1, 0, 0, 1, 0, 0, 0, 0, 0, 0, 2, 97, 98, 1, 99, 0, 0, 1, 0, 1]"

definition sample_other_query :: "u8 list" where
  "sample_other_query = [0, 9, 1, 0, 0, 1, 0, 0, 0, 0, 0, 0, 1, 97, 2, 98, 99, 0, 0, 1, 0, 1]"

definition sample_answer :: "u8 list" where
  "sample_answer = [0, 7, 0x81, 0x80, 0, 1, 0, 1, 0, 0, 0, 0, 2, 97, 98, 1, 99, 0, 0, 1, 0, 1,
     0xc0, 0x0c, 0, 1, 0, 1, 0, 0, 0, 60, 0, 4, 10, 1, 2, 3]"

lemma cached_answer_served_witness:
  "\<exists>p' ctx'. dns64_worker [query_input sample_client (sample_query 7) 100, response_input sample_answer 101,
      query_input sample_client sample_other_query 7000] (replicate 2048 0, sample_ctx False) =
    Some (p', ctx', [ToUpstream (sample_query 7), ToUpstream2 (sample_query 7), ToClient sample_client sample_answer,
      ToClient sample_client ([0, 9] @ drop 2 sample_answer)])"
proof -
  let ?h = "dns_compute_question_hash (sample_query 7)"
  have h: "?h \<noteq> 0" "dns_compute_question_hash sample_other_query = ?h" by code_simp+
  have wf: "dns64_wf (sample_ctx False)" by (rule dns64_init_wf [OF sample_ctx_init sample_nat46_ok(2)])
  have miss: "cached_reply 100 ?h (le16 (sample_query 7 ! 0) (sample_query 7 ! 1)) (sample_ctx False) = Some None"
    using cache_index [of ?h] by (simp add: cached_reply_def array_lookup_def zero_cache_entry_def)
  have r: "take 2 sample_answer = take 2 (sample_query 7)"
    "htons (le16 (sample_answer ! 2) (sample_answer ! 3)) AND 0x000F = 0"
    "htons (le16 (sample_answer ! 6) (sample_answer ! 7)) \<noteq> 0"
    by code_simp+
  have l: "length (sample_query 7) = 22" "length sample_other_query = 22" "length sample_answer = 38"
    "take 2 sample_other_query = [0, 9]"
    by (simp_all add: sample_query_def sample_other_query_def sample_answer_def)
  show ?thesis
    using cached_answer_served [of "replicate 2048 0" "sample_ctx False" "sample_query 7" sample_client ?h 100
        sample_answer sample_other_query 7000 101 sample_client, OF _ wf _ _ _ _ _ _ refl h(1) miss _ _ r _ _ h(2)] l
    by (simp add: sample_client_def)
qed

subsection \<open>Synthetic addresses and the translator\<close>

lemma synth_in_pool:
  assumes "SYNTH_START_IP_HOST \<le> ip" "ip \<le> SYNTH_END_IP_HOST"
  shows "ip AND SYNTH_IPV4_MASK = SYNTH_IPV4_NET"
proof -
  have "unat ip div 131072 = 25353"
    using assms by (simp add: SYNTH_START_IP_HOST_def SYNTH_END_IP_HOST_def word_le_nat_alt)
  then have d: "drop_bit 17 ip = 25353"
    by (simp add: word_unat_eq_iff drop_bit_eq_div unat_div)
  have m: "(0xFFFE0000 :: u32) = push_bit 17 (mask 15)" by code_simp
  have "ip AND 0xFFFE0000 = push_bit 17 (drop_bit 17 ip)"
    unfolding m by (rule bit_word_eqI) (auto simp: bit_simps)
  also have "\<dots> = 0xC6120000" by (simp add: d push_bit_eq_mult)
  finally show ?thesis by (simp add: SYNTH_IPV4_MASK_def SYNTH_IPV4_NET_def)
qed

lemma synthesize_a_reply:
  assumes "length p = 2048" "12 \<le> n" "n \<le> 2032"
  shows "\<exists>p' ctx' reply. synthesize_a p n client ctx = Some (True, p', ctx', [ToClient client reply]) \<and>
    dx_maps ctx' = dx_maps (dns64_register_mapping (htonl (current_synth_ip_host ctx)) target_v6_const ctx) \<and>
    take 2 reply = take 2 p \<and> length reply = n + 16 \<and> ld32 reply (n + 12) = Some (htonl (current_synth_ip_host ctx))"
proof -
  let ?ip = "htonl (current_synth_ip_host ctx)"
  let ?ans = "[0xc0, 0x0c, 0x00, 0x01, 0x00, 0x01, 0x00, 0x00, 0x00, 0x3c, 0x00, 0x04] :: u8 list"
  obtain p1 where p1: "st16 p 2 (htons 0x8180) = Some p1" "length p1 = 2048"
    using st16_ex [of 2 p "htons 0x8180"] st16_length [of p 2 "htons 0x8180"] assms by fastforce
  obtain p2 where p2: "st16 p1 6 (htons 1) = Some p2" "length p2 = 2048"
    using st16_ex [of 6 p1 "htons 1"] st16_length [of p1 6 "htons 1"] p1 by fastforce
  obtain p3 where p3: "stn p2 n ?ans = Some p3" "length p3 = 2048"
    using stn_ex [of n ?ans p2] stn_length [of p2 n ?ans] p2 assms by fastforce
  obtain p4 where p4: "st32 p3 (n + 12) ?ip = Some p4" "length p4 = 2048"
    using st32_ex [of "n + 12" p3 ?ip] st32_length [of p3 "n + 12" ?ip] p3 assms by fastforce
  have "ld32 p4 (n + 12) = Some ?ip" by (rule ld32_st32 [OF p4(1)])
  then have "ld32 (take (n + 16) p4) (n + 12) = Some ?ip" using p4(2) assms by (simp add: ld32_def)
  moreover have "take 2 (take (n + 16) p4) = take 2 p"
  proof -
    have "p4 ! j = p ! j" if "j < 2" for j
      using that assms nth_st32 [OF p4(1), of j] nth_stn [OF p3(1), of j] nth_st16 [OF p2(1), of j]
        nth_st16 [OF p1(1), of j] by simp
    then show ?thesis using p4(2) assms by (intro nth_equalityI) simp_all
  qed
  moreover have "ldn p4 0 (n + 16) = Some (take (n + 16) p4)" using p4(2) assms by (simp add: ldn_def)
  then have "\<exists>ctx'. synthesize_a p n client ctx = Some (True, p4, ctx', [ToClient client (take (n + 16) p4)]) \<and>
      dx_maps ctx' = dx_maps (dns64_register_mapping ?ip target_v6_const ctx)"
    using p1(1) p2(1) p3(1) p4(1)
    by (simp add: synthesize_a_def allocate_synthetic_ip_def Let_def dns64_register_mapping_def)
  ultimately show ?thesis using p4(2) assms by auto
qed

lemma synthesis_round:
  assumes "length p = 2048" "nat46_enabled (dx_nat46 ctx)" "12 \<le> length d" "length d \<le> 2032"
    and q: "query_qtype (d @ drop (length d) p) (length d) = Some (q, 1)"
  shows "\<exists>p' ctx' reply. dns64_iteration (query_input client d now) (p, ctx) = Some (p', ctx', [ToClient client reply]) \<and>
    dx_maps ctx' = dx_maps (dns64_register_mapping (htonl (current_synth_ip_host ctx)) target_v6_const ctx) \<and>
    take 2 reply = take 2 d \<and> length reply = length d + 16 \<and>
    ld32 reply (length d + 12) = Some (htonl (current_synth_ip_host ctx))"
proof -
  let ?p = "d @ drop (length d) p" and ?ctx = "upd_stats (\<lambda>s. s\<lparr>total_queries := total_queries s + 1\<rparr>) ctx"
  have l: "length ?p = 2048" using assms by simp
  have h: "handle_query now ?p (length d) client ctx = synthesize_a ?p (length d) client ?ctx"
    using assms by (auto simp: handle_query_def mem_simps nth_append Let_def)
  have "dns64_iteration (query_input client d now) (p, ctx) =
      map_option snd (synthesize_a ?p (length d) client ?ctx)"
    if "synthesize_a ?p (length d) client ?ctx = Some (True, r)" for r
    using that h assms by (simp add: dns64_iteration_def query_input_def recv_buf_fits split: prod.split)
  with synthesize_a_reply [OF l assms(3,4), of client ?ctx] assms(3) show ?thesis
    by (fastforce simp: dns64_register_mapping_def Let_def)
qed


lemma sample_query_type:
  "query_qtype (sample_query 7 @ drop 22 (replicate 2048 0)) 22 = Some (18, 1)"
proof -
  let ?p = "sample_query 7 @ drop 22 (replicate 2048 0)"
  have b: "?p ! 12 = 2" "?p ! 15 = 1" "?p ! 17 = 0" "?p ! 18 = 0" "?p ! 19 = 1"
    by (simp_all add: sample_query_def nth_append)
  have l: "length ?p = 2048" by (simp add: sample_query_def)
  have "skip_name ?p 22 17 = Some 17"
    by (subst skip_name.simps) (simp add: ld8_def b l del: drop_replicate)
  then have "skip_name ?p 22 15 = Some 17"
    by (subst skip_name.simps) (simp add: ld8_def b l del: drop_replicate)
  then have "skip_name ?p 22 12 = Some 17"
    by (subst skip_name.simps) (simp add: ld8_def b l del: drop_replicate)
  then show ?thesis by (simp add: query_qtype_def ld8_def b l del: drop_replicate)
qed

lemma sample_ctx_ip [simp]: "current_synth_ip_host (sample_ctx b) = 0xC6120001"
  by (simp add: sample_ctx_def dns64_init_def SYNTH_START_IP_HOST_def)


text \<open>
  When the map of the translator is full, clients get addresses that lead nowhere. The pool
  has 131070 addresses and the map 65536 entries; the failure of the update is ignored, so the
  query is answered with an address whose frames the translator does not touch.
\<close>

theorem synthetic_address_unmapped:
  assumes st: "length p = 2048" "dns64_wf ctx" "nat46_enabled (dx_nat46 ctx)"
      "length (v4_to_v6_map (dx_maps ctx)) = 65536"
      "htonl (current_synth_ip_host ctx) \<notin> fst ` set (v4_to_v6_map (dx_maps ctx))"
    and d: "12 \<le> length d" "length d \<le> 2032" "query_qtype (d @ drop (length d) p) (length d) = Some (q, 1)"
    and f: "34 \<le> length f" "ld16 f 12 = Some (htons ETH_P_IP)" "ld32 f 30 = Some (htonl (current_synth_ip_host ctx))"
  shows "\<exists>p' ctx' reply. dns64_iteration (query_input client d now) (p, ctx) = Some (p', ctx', [ToClient client reply]) \<and>
    ld32 reply (length d + 12) = ld32 f 30 \<and> xdp_nat46_handler adj (dx_maps ctx') f = Some (N46_PASS, f, dx_maps ctx')"
proof -
  let ?ip = "htonl (current_synth_ip_host ctx)"
  obtain p' ctx' reply where r: "dns64_iteration (query_input client d now) (p, ctx) = Some (p', ctx', [ToClient client reply])"
    "dx_maps ctx' = dx_maps (dns64_register_mapping ?ip target_v6_const ctx)" "ld32 reply (length d + 12) = Some ?ip"
    using synthesis_round [OF st(1,3) d, of client now] by blast
  have "v4_to_v6_map (dx_maps ctx') = v4_to_v6_map (dx_maps ctx)"
    using st(4,5) by (simp add: r(2) dns64_register_mapping_def Let_def hash_update_def)
  then have "map_of (v4_to_v6_map (dx_maps ctx')) ?ip = None" using st(5) by (simp add: map_of_eq_None_iff)
  then have "xdp_nat46_handler adj (dx_maps ctx') f = Some (N46_PASS, f, dx_maps ctx')"
    using f by (simp add: xdp_nat46_handler_def nat46_egress_def)
  with r f(3) show ?thesis by auto
qed

definition full_nat46 :: nat46_maps where
  "full_nat46 = sample_nat46\<lparr>v4_to_v6_map := map (\<lambda>i. (of_nat i, \<lparr>nf_target_v6 = sample_v6, nf_client_v4 = 0,
     nf_last_seen_sec = 0\<rparr>)) [0..<65536]\<rparr>"

definition full_ctx :: dns64_ctx where
  "full_ctx = (sample_ctx True)\<lparr>dx_maps := full_nat46\<rparr>"

lemma synthetic_address_unmapped_witness:
  "\<exists>p' ctx' reply. dns64_iteration (query_input sample_client (sample_query 7) 100) (replicate 2048 0, full_ctx) =
      Some (p', ctx', [ToClient sample_client reply]) \<and> ld32 reply 34 = ld32 sample_out 30 \<and>
    xdp_nat46_handler sample_adjust (dx_maps ctx') sample_out = Some (N46_PASS, sample_out, dx_maps ctx')"
proof -
  have "dns64_wf (sample_ctx True)" by (rule dns64_init_wf [OF sample_ctx_init sample_nat46_ok(2)])
  moreover have "nat46_wf full_nat46"
    using sample_nat46_ok(2) by (auto simp: nat46_wf_def full_nat46_def sample_v6_def)
  ultimately have wf: "dns64_wf full_ctx" by (simp add: dns64_wf_def full_ctx_def)
  have ip: "htonl 0xC6120001 = (16782022 :: u32)" by code_simp
  have "(16782022 :: u32) \<noteq> of_nat i" if "i < 65536" for i
    using that by (auto simp: word_unat_eq_iff unat_of_nat take_bit_nat_eq_self)
  then have nin: "htonl (current_synth_ip_host full_ctx) \<notin> fst ` set (v4_to_v6_map (dx_maps full_ctx))"
    by (auto simp: full_ctx_def full_nat46_def ip)
  have f: "34 \<le> length sample_out" "ld16 sample_out 12 = Some (htons ETH_P_IP)" "ld32 sample_out 30 = Some (htonl 0xC6120001)"
    by code_simp+
  have l: "length (sample_query 7) = 22" by (simp add: sample_query_def)
  have c: "length (v4_to_v6_map (dx_maps full_ctx)) = 65536" "nat46_enabled (dx_nat46 full_ctx)"
    "current_synth_ip_host full_ctx = 0xC6120001"
    by (simp_all add: full_ctx_def full_nat46_def)
  show ?thesis
    using synthetic_address_unmapped [of "replicate 2048 0" full_ctx "sample_query 7" 18 sample_out sample_client 100 sample_adjust,
        OF _ wf c(2,1) nin _ _ _ f(1,2)] f(3) c(3) l sample_query_type
    by (auto simp del: drop_replicate)
qed

end
