(* ===== verification/Gf25519.thy ===== *)
theory Gf25519
  imports Prelude
begin

text \<open>
  Arithmetic in the field of $2^{255} - 19$ elements (\<open>src/crypto_ed25519.c\<close>). An element is an
  array of 16 limbs of type \<open>int64_t\<close>, here a list of integers; every sum and product of the
  code is reduced to the range of the type by \<open>s64\<close>. The lemmas show that no reduction ever
  takes effect on the values that occur, and what the limbs stand for.
\<close>

section \<open>Definitions\<close>

definition s64 :: "int \<Rightarrow> int" where
  "s64 x = (x + 2 ^ 63) mod 2 ^ 64 - 2 ^ 63"

type_synonym gf = "int list"

definition gf0 :: gf where "gf0 = replicate 16 0"
definition gf1 :: gf where "gf1 = 1 # replicate 15 0"

definition car_step :: "gf \<Rightarrow> nat \<Rightarrow> gf" where
  "car_step t i =
     (let t = t[i := s64 (t ! i + push_bit 16 1)];
          c = drop_bit 16 (t ! i);
          k = (i + 1) * (if i < 15 then 1 else 0);
          t = t[k := s64 (t ! k + (c - 1 + 37 * (c - 1) * (if i = 15 then 1 else 0)))]
      in t[i := s64 (t ! i - push_bit 16 c)])"

definition car25519 :: "gf \<Rightarrow> gf" where
  "car25519 t = foldl car_step t [0..<16]"

definition sel_mask :: "int \<Rightarrow> int \<Rightarrow> int \<Rightarrow> int" where
  "sel_mask b x y = NOT (b - 1) AND (x XOR y)"

definition sel25519 :: "gf \<Rightarrow> gf \<Rightarrow> int \<Rightarrow> gf \<times> gf" where
  "sel25519 p q b = (map2 (\<lambda>x y. x XOR sel_mask b x y) p q, map2 (\<lambda>x y. y XOR sel_mask b x y) p q)"

text \<open>One trial subtraction of the prime, with its borrow.\<close>

definition sub_limb :: "gf \<Rightarrow> gf \<Rightarrow> nat \<Rightarrow> gf" where
  "sub_limb t m i =
     (let m = m[i := s64 (t ! i - 0xffff - (drop_bit 16 (m ! (i - 1)) AND 1))]
      in m[i - 1 := m ! (i - 1) AND 0xffff])"

definition pack_step :: "gf \<Rightarrow> gf \<Rightarrow> gf \<times> gf" where
  "pack_step t m =
     (let m = m[0 := s64 (t ! 0 - 0xffed)];
          m = foldl (sub_limb t) m [1..<15];
          m = m[15 := s64 (t ! 15 - 0x7fff - (drop_bit 16 (m ! 14) AND 1))];
          b = drop_bit 16 (m ! 15) AND 1;
          m = m[14 := m ! 14 AND 0xffff]
      in sel25519 t m (1 - b))"

text \<open>The array \<open>m\<close> is not initialised; its contents are the argument \<open>stack\<close>.\<close>

definition pack25519 :: "gf \<Rightarrow> gf \<Rightarrow> u8 list" where
  "pack25519 stack n =
     (let t = car25519 (car25519 (car25519 n));
          (t, m) = pack_step t stack;
          (t, m) = pack_step t m
      in concat (map (\<lambda>x. [word_of_int (x AND 0xff), word_of_int (drop_bit 8 x)]) t))"

definition unpack25519 :: "u8 list \<Rightarrow> gf" where
  "unpack25519 n =
     (let g = map (\<lambda>i. uint (n ! (2 * i)) + push_bit 8 (uint (n ! (2 * i + 1)))) [0..<16]
      in g[15 := g ! 15 AND 0x7fff])"

definition A25519 :: "gf \<Rightarrow> gf \<Rightarrow> gf" where "A25519 a b = map2 (\<lambda>x y. s64 (x + y)) a b"
definition Z25519 :: "gf \<Rightarrow> gf \<Rightarrow> gf" where "Z25519 a b = map2 (\<lambda>x y. s64 (x - y)) a b"

definition mul_limbs :: "gf \<Rightarrow> gf \<Rightarrow> gf" where
  "mul_limbs a b =
     foldl (\<lambda>t i. foldl (\<lambda>t j. t[i + j := s64 (t ! (i + j) + a ! i * b ! j)]) t [0..<16]) (replicate 31 0) [0..<16]"

definition M25519 :: "gf \<Rightarrow> gf \<Rightarrow> gf" where
  "M25519 a b =
     (let t = mul_limbs a b;
          t = foldl (\<lambda>t i. t[i := s64 (t ! i + 38 * t ! (i + 16))]) t [0..<15]
      in car25519 (car25519 (take 16 t)))"

definition S25519 :: "gf \<Rightarrow> gf" where "S25519 a = M25519 a a"

definition inv25519 :: "gf \<Rightarrow> gf" where
  "inv25519 i = foldl (\<lambda>c a. let c = S25519 c in if a \<noteq> 2 \<and> a \<noteq> 4 then M25519 c i else c) i (rev [0..<254])"

definition pow2523 :: "gf \<Rightarrow> gf" where
  "pow2523 i = foldl (\<lambda>c a. let c = S25519 c in if a \<noteq> 1 then M25519 c i else c) i (rev [0..<251])"

definition crypto_verify_32 :: "u8 list \<Rightarrow> u8 list \<Rightarrow> int" where
  "crypto_verify_32 x y =
     (let d = foldl (\<lambda>d i. d OR ucast (x ! i XOR y ! i)) (0 :: u32) [0..<32]
      in uint (1 AND drop_bit 8 (d - 1)) - 1)"

definition neq25519 :: "gf \<Rightarrow> gf \<Rightarrow> gf \<Rightarrow> int" where
  "neq25519 stack a b = crypto_verify_32 (pack25519 stack a) (pack25519 stack b)"

definition par25519 :: "gf \<Rightarrow> gf \<Rightarrow> u8" where
  "par25519 stack a = pack25519 stack a ! 0 AND 1"

section \<open>What the limbs stand for\<close>

definition p25519 :: int where "p25519 = 2 ^ 255 - 19"

definition gval :: "int list \<Rightarrow> int" where
  "gval t = (\<Sum>i < length t. t ! i * 2 ^ (16 * i))"

definition gfb :: "int \<Rightarrow> gf \<Rightarrow> bool" where
  "gfb B a \<longleftrightarrow> length a = 16 \<and> (\<forall>i < 16. \<bar>a ! i\<bar> \<le> B)"

lemma s64_id: "- (2 ^ 63) \<le> x \<Longrightarrow> x < 2 ^ 63 \<Longrightarrow> s64 x = x"
  by (simp add: s64_def)

lemma gval_upd: "k < length t \<Longrightarrow> gval (t[k := x]) = gval t + (x - t ! k) * 2 ^ (16 * k)"
proof -
  assume k: "k < length t"
  have "gval (t[k := x]) = (\<Sum>i < length t. t ! i * 2 ^ (16 * i) + (if i = k then (x - t ! k) * 2 ^ (16 * k) else 0))"
    unfolding gval_def by (rule sum.cong) (auto simp: nth_upd algebra_simps)
  also have "\<dots> = gval t + (x - t ! k) * 2 ^ (16 * k)"
    using k by (simp add: sum.distrib gval_def)
  finally show ?thesis .
qed

subsection \<open>Carries\<close>

fun limb_carry :: "gf \<Rightarrow> nat \<Rightarrow> int" where
  "limb_carry t 0 = 0"
| "limb_carry t (Suc i) = (t ! i + limb_carry t i) div 65536"

lemma carry_bound: "(\<forall>i < n. \<bar>t ! i\<bar> \<le> 2 ^ 60) \<Longrightarrow> \<bar>limb_carry t n\<bar> \<le> 2 ^ 45"
proof (induction n)
  case (Suc n)
  then have "\<bar>t ! n\<bar> \<le> 2 ^ 60" "\<bar>limb_carry t n\<bar> \<le> 2 ^ 45" by auto
  then show ?case by (simp add: abs_le_iff) linarith
qed simp

lemma car_step_limb:
  assumes "i < 16" "length t = 16" "\<bar>t ! i\<bar> \<le> 2 ^ 61" "\<bar>t ! ((i + 1) mod 16)\<bar> \<le> 2 ^ 61"
  shows "car_step t i = t[i := t ! i mod 65536, (i + 1) mod 16 :=
    t ! ((i + 1) mod 16) + (if i = 15 then 38 else 1) * (t ! i div 65536)]"
proof -
  define x where "x = t ! i + 65536"
  define k where "k = (i + 1) * (if i < 15 then 1 else 0)"
  have "i < 15 \<or> i = 15" using assms(1) by auto
  then have k: "k = (i + 1) mod 16" "k < 16" "k \<noteq> i" by (auto simp: k_def)
  have x: "s64 (t ! i + push_bit 16 1) = x"
    using assms(3) by (simp add: x_def push_bit_eq_mult s64_id abs_le_iff)
  have c: "drop_bit 16 x = t ! i div 65536 + 1" by (simp add: x_def drop_bit_eq_div)
  have q: "\<bar>t ! i div 65536\<bar> \<le> 2 ^ 46" using assms(3) by (auto simp: abs_le_iff)
  have s1: "s64 (t ! k + (drop_bit 16 x - 1 + 37 * (drop_bit 16 x - 1) * (if i = 15 then 1 else 0))) =
      t ! k + (if i = 15 then 38 else 1) * (t ! i div 65536)"
    using assms(4) q by (auto simp: c k(1) abs_le_iff intro!: s64_id)
  have "x - push_bit 16 (drop_bit 16 x) = t ! i mod 65536"
    unfolding c push_bit_eq_mult by (simp add: minus_mult_div_eq_mod [symmetric] x_def algebra_simps)
  then have s2: "s64 (x - push_bit 16 (drop_bit 16 x)) = t ! i mod 65536"
    by (simp add: s64_id pos_mod_bound order.strict_trans2 [OF pos_mod_bound])
  have nth: "t[i := x] ! i = x" "t[i := x] ! k = t ! k" "t[i := x, k := y] ! i = x" for y
    using k assms(1,2) by (simp_all add: nth_upd)
  have "car_step t i = t[i := x, k := t ! k + (if i = 15 then 38 else 1) * (t ! i div 65536), i := t ! i mod 65536]"
    unfolding car_step_def Let_def x k_def [symmetric] nth s1 s2 ..
  then show ?thesis using k by (simp add: list_update_swap)
qed

text \<open>One pass over the limbs, in closed form.\<close>

lemma car25519_prefix:
  assumes "gfb (2 ^ 60) t" "n \<le> 15"
  shows "foldl car_step t [0..<n] =
    map (\<lambda>i. if i < n then (t ! i + limb_carry t i) mod 65536 else if i = n then t ! i + limb_carry t i else t ! i) [0..<16]"
  using assms(2)
proof (induction n)
  case 0
  have "length t = 16" using assms(1) by (simp add: gfb_def)
  then show ?case by (intro nth_equalityI) auto
next
  case (Suc n)
  let ?t = "map (\<lambda>i. if i < n then (t ! i + limb_carry t i) mod 65536 else if i = n then t ! i + limb_carry t i else t ! i) [0..<16]"
  have b: "\<bar>t ! n\<bar> \<le> 2 ^ 60" "\<bar>t ! Suc n\<bar> \<le> 2 ^ 60" "\<bar>limb_carry t n\<bar> \<le> 2 ^ 45"
    using assms(1) Suc.prems carry_bound [of n t] by (auto simp: gfb_def)
  have "car_step ?t n = ?t[n := ?t ! n mod 65536, Suc n := ?t ! Suc n + ?t ! n div 65536]"
    using car_step_limb [of n ?t] Suc.prems b by (simp add: abs_le_iff)
  also have "\<dots> = map (\<lambda>i. if i < Suc n then (t ! i + limb_carry t i) mod 65536
      else if i = Suc n then t ! i + limb_carry t i else t ! i) [0..<16]"
    using Suc.prems by (intro nth_equalityI) (auto simp: nth_upd less_Suc_eq)
  finally show ?case using Suc by simp
qed

lemma car25519_eq:
  assumes "gfb (2 ^ 60) t"
  shows "car25519 t = map (\<lambda>i. (t ! i + limb_carry t i) mod 65536 + (if i = 0 then 38 * limb_carry t 16 else 0)) [0..<16]"
proof -
  let ?t = "map (\<lambda>i. if i < 15 then (t ! i + limb_carry t i) mod 65536 else if i = 15 then t ! i + limb_carry t i else t ! i) [0..<16]"
  have c: "\<bar>limb_carry t 15\<bar> \<le> 2 ^ 45" "\<bar>t ! 15\<bar> \<le> 2 ^ 60" using assms carry_bound [of 15 t] by (auto simp: gfb_def)
  have "car25519 t = car_step (foldl car_step t [0..<15]) 15"
    by (simp add: car25519_def upt_Suc_append [of 0 15, simplified])
  also have "\<dots> = car_step ?t 15" by (simp only: car25519_prefix [OF assms order_refl])
  also have "\<dots> = ?t[15 := ?t ! 15 mod 65536, 0 := ?t ! 0 + 38 * (?t ! 15 div 65536)]"
  proof (subst car_step_limb)
    show "\<bar>?t ! 15\<bar> \<le> 2 ^ 61" using c by (simp add: abs_le_iff)
    have "0 \<le> t ! 0 mod 65536" "t ! 0 mod 65536 < 65536" by simp_all
    then show "\<bar>?t ! ((15 + 1) mod 16)\<bar> \<le> 2 ^ 61" by (simp add: abs_le_iff del: pos_mod_bound)
  qed simp_all
  also have "\<dots> = map (\<lambda>i. (t ! i + limb_carry t i) mod 65536 + (if i = 0 then 38 * limb_carry t 16 else 0)) [0..<16]"
  proof (intro nth_equalityI, goal_cases)
    case (2 i)
    have "limb_carry t 16 = (t ! 15 + limb_carry t 15) div 65536" using limb_carry.simps(2) [of t 15] by simp
    with 2 show ?case by (auto simp: nth_upd)
  qed simp
  finally show ?thesis .
qed

lemma gval_map: "gval (map f [0..<n]) = (\<Sum>i < n. f i * 2 ^ (16 * i))"
  by (simp add: gval_def)

lemma gval_sum: "length t = 16 \<Longrightarrow> gval t = (\<Sum>i < 16. t ! i * 2 ^ (16 * i))"
  by (simp add: gval_def)

lemma carry_telescope:
  "(\<Sum>i < n. (t ! i + limb_carry t i) mod 65536 * 2 ^ (16 * i)) + limb_carry t n * 2 ^ (16 * n) = (\<Sum>i < n. t ! i * 2 ^ (16 * i))"
proof (induction n)
  case (Suc n)
  let ?x = "t ! n + limb_carry t n" and ?p = "2 ^ (16 * n) :: int"
  have p: "2 ^ (16 * Suc n) = 65536 * ?p" by (simp add: power_add)
  have "?x mod 65536 * ?p + (?x div 65536) * 2 ^ (16 * Suc n) = (?x mod 65536 + ?x div 65536 * 65536) * ?p"
    unfolding p by (simp only: distrib_right mult.assoc)
  also have "\<dots> = ?x * ?p" by (simp only: mod_div_mult_eq)
  finally have "?x mod 65536 * ?p + limb_carry t (Suc n) * 2 ^ (16 * Suc n) = t ! n * ?p + limb_carry t n * ?p"
    by (simp add: distrib_right)
  with Suc show ?case by (simp only: sum.lessThan_Suc)
qed simp

lemma gval_car25519:
  assumes "gfb (2 ^ 60) t"
  shows "gval (car25519 t) = gval t - limb_carry t 16 * (2 * p25519)"
proof -
  have "gval (car25519 t) = (\<Sum>i < 16. ((t ! i + limb_carry t i) mod 65536 + (if i = 0 then 38 * limb_carry t 16 else 0)) * 2 ^ (16 * i))"
    by (simp only: car25519_eq [OF assms] gval_map)
  also have "\<dots> = (\<Sum>i < 16. (t ! i + limb_carry t i) mod 65536 * 2 ^ (16 * i)) + 38 * limb_carry t 16"
    by (simp add: distrib_right sum.distrib if_distrib [of "\<lambda>x. x * _"] sum.delta cong: if_cong)
  also have "\<dots> = gval t - limb_carry t 16 * 2 ^ 256 + 38 * limb_carry t 16"
    using carry_telescope [of t 16] assms by (simp add: gval_sum gfb_def)
  finally show ?thesis by (simp add: p25519_def algebra_simps)
qed

lemma cong_car25519: "gfb (2 ^ 60) t \<Longrightarrow> gval (car25519 t) mod p25519 = gval t mod p25519"
  by (simp add: gval_car25519 mod_eq_dvd_iff)

text \<open>
  Bounds after each pass. Limbs are \<open>reduced\<close> when all but the first are 16 bits wide and the
  first is at most 38 off.
\<close>

definition upper16 :: "gf \<Rightarrow> bool" where
  "upper16 t \<longleftrightarrow> length t = 16 \<and> (\<forall>i. 1 \<le> i \<longrightarrow> i < 16 \<longrightarrow> 0 \<le> t ! i \<and> t ! i \<le> 65535)"

definition reduced :: "gf \<Rightarrow> bool" where
  "reduced t \<longleftrightarrow> upper16 t \<and> - 38 \<le> t ! 0 \<and> t ! 0 \<le> 65573"

lemma car25519_upper16: "gfb (2 ^ 60) t \<Longrightarrow> upper16 (car25519 t)"
  using pos_mod_bound [of 65536] by (auto simp: car25519_eq upper16_def)

lemma car25519_first: "gfb (2 ^ 60) t \<Longrightarrow> car25519 t ! 0 = t ! 0 mod 65536 + 38 * limb_carry t 16"
  by (simp add: car25519_eq)

lemma carry_small:
  assumes "upper16 t" "\<bar>limb_carry t k\<bar> \<le> 1" "1 \<le> k" "k \<le> n" "n \<le> 16"
  shows "\<bar>limb_carry t n\<bar> \<le> 1 \<and> (limb_carry t n = 1 \<longrightarrow> limb_carry t k = 1) \<and> (limb_carry t n = - 1 \<longrightarrow> limb_carry t k = - 1)"
  using assms(4,5)
proof (induction n rule: dec_induct)
  case base
  then show ?case using assms(2) by simp
next
  case (step n)
  then have "0 \<le> t ! n" "t ! n \<le> 65535" using assms(1,3) by (auto simp: upper16_def)
  with step show ?case by auto
qed

lemma carry_16_small:
  assumes "upper16 t" "\<bar>t ! 0\<bar> \<le> 2 ^ 51"
  shows "\<bar>limb_carry t 16\<bar> \<le> 1"
proof -
  have l: "0 \<le> t ! i \<and> t ! i \<le> 65535" if "i \<in> {1, 2, 3}" for i using assms(1) that by (auto simp: upper16_def)
  have c: "limb_carry t 1 = t ! 0 div 65536" "limb_carry t 2 = (t ! 1 + limb_carry t 1) div 65536"
    "limb_carry t 3 = (t ! 2 + limb_carry t 2) div 65536" "limb_carry t 4 = (t ! 3 + limb_carry t 3) div 65536"
    by (simp_all add: eval_nat_numeral)
  have "\<bar>limb_carry t 1\<bar> \<le> 2 ^ 35" using assms(2) by (auto simp: c abs_le_iff)
  then have "\<bar>limb_carry t 2\<bar> \<le> 2 ^ 19 + 1" using l [of 1] unfolding c(2) abs_le_iff by auto
  then have "\<bar>limb_carry t 3\<bar> \<le> 10" using l [of 2] unfolding c(3) abs_le_iff by auto
  then have "\<bar>limb_carry t 4\<bar> \<le> 1" using l [of 3] unfolding c(4) abs_le_iff by auto
  from carry_small [OF assms(1) this] show ?thesis by simp
qed

lemma gfb_upper16: "upper16 t \<Longrightarrow> \<bar>t ! 0\<bar> \<le> B \<Longrightarrow> 65535 \<le> B \<Longrightarrow> gfb B t"
  by (auto simp: upper16_def gfb_def) (metis One_nat_def Suc_leI abs_of_nonneg gr0I order_trans)

lemma car25519_reduced:
  assumes "upper16 t" "\<bar>t ! 0\<bar> \<le> 2 ^ 51"
  shows "reduced (car25519 t)"
proof -
  have g: "gfb (2 ^ 60) t" by (rule gfb_upper16) (use assms in \<open>auto simp: abs_le_iff\<close>)
  define r where "r = t ! 0 mod 65536"
  have "0 \<le> r" "r \<le> 65535" using pos_mod_bound [of 65536 "t ! 0"] by (auto simp: r_def)
  with carry_16_small [OF assms] car25519_upper16 [OF g] show ?thesis
    by (auto simp: reduced_def car25519_first [OF g] abs_le_iff simp flip: r_def)
qed

lemma gfb_reduced: "reduced t \<Longrightarrow> gfb (2 ^ 17) t"
  by (rule gfb_upper16) (auto simp: reduced_def)

lemma car25519_twice:
  assumes "gfb (2 ^ 60) t"
  shows "reduced (car25519 (car25519 t))" "gval (car25519 (car25519 t)) mod p25519 = gval t mod p25519"
proof -
  have "\<bar>limb_carry t 16\<bar> \<le> 2 ^ 45" using assms by (intro carry_bound) (auto simp: gfb_def)
  moreover have "0 \<le> t ! 0 mod 65536" "t ! 0 mod 65536 \<le> 65535" using pos_mod_bound [of 65536 "t ! 0"] by auto
  ultimately have f: "\<bar>car25519 t ! 0\<bar> \<le> 2 ^ 51" by (auto simp: car25519_first [OF assms] abs_le_iff)
  from car25519_reduced [OF car25519_upper16 [OF assms] f] show "reduced (car25519 (car25519 t))" .
  have "gfb (2 ^ 60) (car25519 t)"
    by (rule gfb_upper16 [OF car25519_upper16 [OF assms]]) (use f in auto)
  then show "gval (car25519 (car25519 t)) mod p25519 = gval t mod p25519"
    using cong_car25519 assms by simp
qed

subsection \<open>Sums and products\<close>

lemma A25519_val:
  assumes "gfb B a" "gfb C b" "B + C < 2 ^ 63"
  shows "gfb (B + C) (A25519 a b)" "gval (A25519 a b) = gval a + gval b"
proof -
  have l: "length a = 16" "length b = 16" using assms by (simp_all add: gfb_def)
  have i: "A25519 a b ! i = a ! i + b ! i" "\<bar>a ! i + b ! i\<bar> \<le> B + C" if "i < 16" for i
  proof -
    show "\<bar>a ! i + b ! i\<bar> \<le> B + C" using assms(1,2) that by (force simp: gfb_def)
    with assms(3) show "A25519 a b ! i = a ! i + b ! i"
      using l that by (simp add: A25519_def s64_id abs_le_iff)
  qed
  have l': "length (A25519 a b) = 16" using l by (simp add: A25519_def)
  with i show "gfb (B + C) (A25519 a b)" by (simp add: gfb_def)
  have "gval (A25519 a b) = (\<Sum>i < 16. (a ! i + b ! i) * 2 ^ (16 * i))"
    unfolding gval_sum [OF l'] by (rule sum.cong) (simp_all add: i(1))
  then show "gval (A25519 a b) = gval a + gval b"
    by (simp add: gval_sum l distrib_right sum.distrib)
qed

lemma Z25519_val:
  assumes "gfb B a" "gfb C b" "B + C < 2 ^ 63"
  shows "gfb (B + C) (Z25519 a b)" "gval (Z25519 a b) = gval a - gval b"
proof -
  have l: "length a = 16" "length b = 16" using assms by (simp_all add: gfb_def)
  have i: "Z25519 a b ! i = a ! i - b ! i" "\<bar>a ! i - b ! i\<bar> \<le> B + C" if "i < 16" for i
  proof -
    show "\<bar>a ! i - b ! i\<bar> \<le> B + C" using assms(1,2) that by (force simp: gfb_def)
    with assms(3) show "Z25519 a b ! i = a ! i - b ! i"
      using l that by (simp add: Z25519_def s64_id abs_le_iff)
  qed
  have l': "length (Z25519 a b) = 16" using l by (simp add: Z25519_def)
  with i show "gfb (B + C) (Z25519 a b)" by (simp add: gfb_def)
  have "gval (Z25519 a b) = (\<Sum>i < 16. (a ! i - b ! i) * 2 ^ (16 * i))"
    unfolding gval_sum [OF l'] by (rule sum.cong) (simp_all add: i(1))
  then show "gval (Z25519 a b) = gval a - gval b"
    by (simp add: gval_sum l left_diff_distrib sum_subtractf)
qed

text \<open>The loops of the product keep \<open>bnd\<close>, with a bound that grows by one product per step.\<close>

definition bnd :: "int \<Rightarrow> int list \<Rightarrow> bool" where
  "bnd C t \<longleftrightarrow> length t = 31 \<and> (\<forall>k < 31. \<bar>t ! k\<bar> \<le> C)"

lemma mul_row:
  assumes "gfb B a" "gfb B b" "0 \<le> B" "B \<le> 2 ^ 20" "bnd C t" "C \<le> 2 ^ 49" "i < 16" "n \<le> 16"
  defines "t' \<equiv> foldl (\<lambda>t j. t[i + j := s64 (t ! (i + j) + a ! i * b ! j)]) t [0..<n]"
  shows "bnd (C + int n * 2 ^ 40) t' \<and> gval t' = gval t + a ! i * 2 ^ (16 * i) * (\<Sum>j < n. b ! j * 2 ^ (16 * j))"
  using \<open>n \<le> 16\<close> unfolding t'_def
proof (induction n)
  case 0
  then show ?case using assms(5) by simp
next
  case (Suc n)
  let ?f = "\<lambda>t j. t[i + j := s64 (t ! (i + j) + a ! i * b ! j)]"
  let ?t = "foldl ?f t [0..<n]"
  have IH: "bnd (C + int n * 2 ^ 40) ?t" "gval ?t = gval t + a ! i * 2 ^ (16 * i) * (\<Sum>j < n. b ! j * 2 ^ (16 * j))"
    using Suc by simp_all
  have "\<bar>a ! i\<bar> \<le> B" "\<bar>b ! n\<bar> \<le> B" using assms(1,2,7) Suc.prems by (auto simp: gfb_def)
  then have "\<bar>a ! i\<bar> \<le> 2 ^ 20" "\<bar>b ! n\<bar> \<le> 2 ^ 20" using assms(4) by linarith+
  then have ab: "\<bar>a ! i * b ! n\<bar> \<le> 2 ^ 40"
    using mult_mono [of "\<bar>a ! i\<bar>" "2 ^ 20" "\<bar>b ! n\<bar>" "2 ^ 20"] by (simp add: abs_mult)
  have k: "i + n < 31" "length ?t = 31" using assms(7) Suc.prems IH(1) by (auto simp: bnd_def)
  have tk: "\<bar>?t ! (i + n)\<bar> \<le> C + int n * 2 ^ 40" using IH(1) k(1) by (simp add: bnd_def)
  have n16: "int n \<le> 15" using Suc.prems by simp
  have "s64 (?t ! (i + n) + a ! i * b ! n) = ?t ! (i + n) + a ! i * b ! n"
  proof (rule s64_id)
    define x y where "x = ?t ! (i + n)" and "y = a ! i * b ! n"
    have "\<bar>x\<bar> \<le> 2 ^ 49 + 15 * 2 ^ 40" "\<bar>y\<bar> \<le> 2 ^ 40"
      using tk ab n16 assms(6) by (simp_all add: x_def y_def)
    then show "- (2 ^ 63) \<le> ?t ! (i + n) + a ! i * b ! n" "?t ! (i + n) + a ! i * b ! n < 2 ^ 63"
      unfolding x_def [symmetric] y_def [symmetric] by (simp_all add: abs_le_iff)
  qed
  then have eq: "foldl ?f t [0..<Suc n] = ?t[i + n := ?t ! (i + n) + a ! i * b ! n]" by simp
  have "bnd (C + int (Suc n) * 2 ^ 40) (?t[i + n := ?t ! (i + n) + a ! i * b ! n])"
    unfolding bnd_def
  proof (intro conjI allI impI)
    fix j :: nat assume j: "j < 31"
    have "\<bar>?t ! j\<bar> \<le> C + int n * 2 ^ 40" using IH(1) j by (simp add: bnd_def)
    then show "\<bar>?t[i + n := ?t ! (i + n) + a ! i * b ! n] ! j\<bar> \<le> C + int (Suc n) * 2 ^ 40"
      using tk ab k by (auto simp: nth_upd distrib_right)
  qed (use k in simp)
  moreover have "gval (?t[i + n := ?t ! (i + n) + a ! i * b ! n]) =
      gval t + a ! i * 2 ^ (16 * i) * (\<Sum>j < Suc n. b ! j * 2 ^ (16 * j))"
    using k by (simp add: gval_upd IH(2) distrib_left power_add)
  ultimately show ?case by (simp only: eq)
qed

lemma mul_limbs_val:
  assumes "gfb B a" "gfb B b" "0 \<le> B" "B \<le> 2 ^ 20"
  shows "bnd (2 ^ 48) (mul_limbs a b) \<and> gval (mul_limbs a b) = gval a * gval b"
proof -
  let ?f = "\<lambda>t i. foldl (\<lambda>t j. t[i + j := s64 (t ! (i + j) + a ! i * b ! j)]) t [0..<16]"
  have "bnd (int n * 2 ^ 44) (foldl ?f (replicate 31 0) [0..<n]) \<and>
      gval (foldl ?f (replicate 31 0) [0..<n]) = (\<Sum>i < n. a ! i * 2 ^ (16 * i)) * gval b" if "n \<le> 16" for n
    using that
  proof (induction n)
    case 0
    then show ?case by (simp add: bnd_def gval_def)
  next
    case (Suc n)
    let ?t = "foldl ?f (replicate 31 0) [0..<n]"
    have IH: "bnd (int n * 2 ^ 44) ?t" "gval ?t = (\<Sum>i < n. a ! i * 2 ^ (16 * i)) * gval b" using Suc by simp_all
    have "int n * 2 ^ 44 \<le> 2 ^ 49" using Suc.prems by simp
    from mul_row [OF assms IH(1) this, of n 16] Suc.prems
    have "bnd (int n * 2 ^ 44 + 2 ^ 44) (?f ?t n)" "gval (?f ?t n) = gval ?t + a ! n * 2 ^ (16 * n) * gval b"
      using assms(2) by (simp_all add: gval_sum gfb_def)
    then show ?case by (simp add: IH(2) distrib_right add.commute [of 17592186044416])
  qed
  from this [of 16] show ?thesis using assms(1) by (simp add: mul_limbs_def gval_sum gfb_def)
qed

lemma fold38:
  assumes "bnd (2 ^ 48) t" "n \<le> 15"
  shows "foldl (\<lambda>t i. t[i := s64 (t ! i + 38 * t ! (i + 16))]) t [0..<n] =
    map (\<lambda>i. if i < n then t ! i + 38 * t ! (i + 16) else t ! i) [0..<31]"
  using assms(2)
proof (induction n)
  case 0
  have "length t = 31" using assms(1) by (simp add: bnd_def)
  then show ?case by (intro nth_equalityI) auto
next
  case (Suc n)
  have "\<bar>t ! n\<bar> \<le> 2 ^ 48" "\<bar>t ! (n + 16)\<bar> \<le> 2 ^ 48" using assms(1) Suc.prems by (auto simp: bnd_def)
  then have "s64 (t ! n + 38 * t ! (n + 16)) = t ! n + 38 * t ! (n + 16)" by (intro s64_id) auto
  then show ?case using Suc by (simp, intro nth_equalityI) (auto simp: nth_upd less_Suc_eq)
qed

lemma sum_lessThan_add: "(\<Sum>i < m + n. f i) = (\<Sum>i < m. f i) + (\<Sum>i < n. f (i + m) :: int)" for n m :: nat
  by (induction n) (simp_all add: add.commute [of m])

lemma M25519_val:
  assumes "gfb B a" "gfb B b" "0 \<le> B" "B \<le> 2 ^ 20"
  shows "reduced (M25519 a b)" "gval (M25519 a b) mod p25519 = (gval a * gval b) mod p25519"
proof -
  define t where "t = mul_limbs a b"
  have t: "bnd (2 ^ 48) t" "gval t = gval a * gval b" using mul_limbs_val [OF assms] by (simp_all add: t_def)
  define u where "u = map (\<lambda>i. if i < 15 then t ! i + 38 * t ! (i + 16) else t ! i) [0..<16]"
  have M: "M25519 a b = car25519 (car25519 u)"
    by (simp add: M25519_def Let_def fold38 [OF t(1) order_refl] take_map u_def flip: t_def)
  have g: "gfb (2 ^ 60) u"
    unfolding gfb_def
  proof (intro conjI allI impI)
    fix i :: nat assume "i < 16"
    then have "\<bar>t ! i\<bar> \<le> 2 ^ 48" "i < 15 \<Longrightarrow> \<bar>t ! (i + 16)\<bar> \<le> 2 ^ 48" using t(1) by (auto simp: bnd_def)
    with \<open>i < 16\<close> show "\<bar>u ! i\<bar> \<le> 2 ^ 60" by (auto simp: u_def abs_le_iff)
  qed (simp add: u_def)
  have "gval t = (\<Sum>i < 16 + 15. t ! i * 2 ^ (16 * i))" using t(1) by (simp add: gval_def bnd_def)
  also have "\<dots> = (\<Sum>i < 16. t ! i * 2 ^ (16 * i)) + (\<Sum>i < 15. t ! (i + 16) * 2 ^ (16 * (i + 16)))"
    by (rule sum_lessThan_add)
  also have "(\<Sum>i < 15. t ! (i + 16) * 2 ^ (16 * (i + 16))) = 2 ^ 256 * (\<Sum>i < 15. t ! (i + 16) * 2 ^ (16 * i))"
    unfolding sum_distrib_left by (rule sum.cong) (simp_all add: power_add mult.commute)
  finally have vt: "gval t = (\<Sum>i < 16. t ! i * 2 ^ (16 * i)) + 2 ^ 256 * (\<Sum>i < 15. t ! (i + 16) * 2 ^ (16 * i))" .
  have "gval u = (\<Sum>i < 15. (t ! i + 38 * t ! (i + 16)) * 2 ^ (16 * i)) + t ! 15 * 2 ^ 240"
    unfolding u_def gval_map using sum.lessThan_Suc [of "\<lambda>i. (if i < 15 then t ! i + 38 * t ! (i + 16) else t ! i) * 2 ^ (16 * i)" 15]
    by simp
  also have "\<dots> = (\<Sum>i < 16. t ! i * 2 ^ (16 * i)) + 38 * (\<Sum>i < 15. t ! (i + 16) * 2 ^ (16 * i))"
    using sum.lessThan_Suc [of "\<lambda>i. t ! i * 2 ^ (16 * i)" 15]
    by (simp add: distrib_right sum.distrib sum_distrib_left mult.assoc)
  finally have "gval t - gval u = p25519 * (2 * (\<Sum>i < 15. t ! (i + 16) * 2 ^ (16 * i)))"
    by (simp add: vt p25519_def)
  then have "gval u mod p25519 = gval t mod p25519"
    by (metis dvd_triv_left mod_eq_dvd_iff)
  then show "gval (M25519 a b) mod p25519 = (gval a * gval b) mod p25519"
    unfolding M t(2) [symmetric] using car25519_twice(2) [OF g] by simp
  show "reduced (M25519 a b)" unfolding M by (rule car25519_twice(1) [OF g])
qed

subsection \<open>Selection and packing\<close>

lemma sel25519_eq:
  assumes "length p = length q" "b = 0 \<or> b = 1"
  shows "sel25519 p q b = (if b = 1 then (q, p) else (p, q))"
proof -
  have m: "sel_mask 1 x y = x XOR y" "sel_mask 0 x y = 0" for x y
    by (simp_all add: sel_mask_def)
  have x: "x XOR (x XOR y) = y" "y XOR (x XOR y) = x" for x y :: int
    by (simp_all add: xor.left_commute flip: xor.assoc)
  have "map2 (\<lambda>x y. x) p q = p \<and> map2 (\<lambda>x y. y) p q = q"
    using assms(1) by (induction p q rule: list_induct2) auto
  then show ?thesis using assms(2) by (auto simp: sel25519_def m x)
qed

definition canon16 :: "gf \<Rightarrow> bool" where
  "canon16 t \<longleftrightarrow> length t = 16 \<and> (\<forall>i < 16. 0 \<le> t ! i \<and> t ! i \<le> 65535)"

definition p_limbs :: gf where
  "p_limbs = 0xffed # replicate 14 0xffff @ [0x7fff]"

lemma p_limbs_nth: "length p_limbs = 16" "p_limbs ! 0 = 0xffed" "1 \<le> i \<Longrightarrow> i < 15 \<Longrightarrow> p_limbs ! i = 0xffff" "p_limbs ! 15 = 0x7fff"
  by (auto simp: p_limbs_def nth_Cons' nth_append)

lemma gval_p_limbs: "gval p_limbs = p25519"
  by (simp add: gval_def p_limbs_def p25519_def lessThan_Suc numeral_eq_Suc)

lemma drop_and_1: "- 65536 \<le> d \<Longrightarrow> d \<le> 65535 \<Longrightarrow> drop_bit 16 d AND 1 = - (d div 65536 :: int)"
proof -
  assume d: "- 65536 \<le> d" "d \<le> 65535"
  then have "d div 65536 = 0 \<or> d div 65536 = - 1" by auto
  then show ?thesis by (auto simp: drop_bit_eq_div)
qed

lemma and_ffff: "(d :: int) AND 0xffff = d mod 65536"
  using take_bit_eq_mask [of 16 d] by (simp add: take_bit_eq_mod mask_eq_exp_minus_1)

definition diff_limbs :: "gf \<Rightarrow> gf" where
  "diff_limbs t = map (\<lambda>i. t ! i - p_limbs ! i) [0..<16]"

lemma diff_limbs_carry:
  assumes "canon16 t" "n \<le> 16"
  shows "limb_carry (diff_limbs t) n = 0 \<or> limb_carry (diff_limbs t) n = - 1"
  using assms(2)
proof (induction n)
  case (Suc n)
  have "0 \<le> p_limbs ! n \<and> p_limbs ! n \<le> 65535" using Suc.prems
    by (cases "n = 0"; cases "n = 15") (auto simp: p_limbs_nth)
  moreover have "0 \<le> t ! n \<and> t ! n \<le> 65535" using assms(1) Suc.prems by (simp add: canon16_def)
  ultimately show ?case using Suc by (auto simp: diff_limbs_def)
qed simp

lemma diff_limbs_range:
  assumes "canon16 t" "i < 16"
  shows "- 65536 \<le> diff_limbs t ! i + limb_carry (diff_limbs t) i \<and> diff_limbs t ! i + limb_carry (diff_limbs t) i \<le> 65535"
proof -
  have "0 \<le> p_limbs ! i \<and> p_limbs ! i \<le> 65535" using assms(2)
    by (cases "i = 0"; cases "i = 15") (auto simp: p_limbs_nth)
  then show ?thesis using assms diff_limbs_carry [OF assms(1), of i]
    by (auto simp: diff_limbs_def canon16_def)
qed

lemma sub_limb_prefix:
  assumes "canon16 t" "length m = 16" "1 \<le> n" "n \<le> 15"
  shows "foldl (sub_limb t) (m[0 := s64 (t ! 0 - 0xffed)]) [1..<n] =
    map (\<lambda>i. let d = diff_limbs t ! i + limb_carry (diff_limbs t) i
             in if i < n - 1 then d mod 65536 else if i = n - 1 then d else m ! i) [0..<16]"
  using assms(3,4)
proof (induction n rule: dec_induct)
  case base
  have "0 \<le> t ! 0 \<and> t ! 0 \<le> 65535" using assms(1) by (simp add: canon16_def)
  then have "s64 (t ! 0 - 0xffed) = t ! 0 - 0xffed" by (intro s64_id) auto
  then show ?case using assms(2)
    by (intro nth_equalityI) (auto simp: nth_upd diff_limbs_def p_limbs_nth Let_def)
next
  case (step n)
  let ?u = "diff_limbs t"
  let ?d = "\<lambda>i. ?u ! i + limb_carry ?u i"
  let ?m = "map (\<lambda>i. let d = ?d i in if i < n - 1 then d mod 65536 else if i = n - 1 then d else m ! i) [0..<16]"
  have n: "1 \<le> n" "n < 15" using step by auto
  have c: "limb_carry ?u n = ?d (n - 1) div 65536" using n by (cases n) simp_all
  have m1: "?m ! (n - 1) = ?d (n - 1)" using n by (simp add: Let_def)
  have "drop_bit 16 (?m ! (n - 1)) AND 1 = - limb_carry ?u n"
    unfolding m1 c by (rule drop_and_1) (use diff_limbs_range [OF assms(1), of "n - 1"] n in auto)
  moreover have dn: "?d n = t ! n - 0xffff + limb_carry ?u n" using n by (simp add: diff_limbs_def p_limbs_nth)
  moreover have "s64 (?d n) = ?d n" using diff_limbs_range [OF assms(1), of n] n by (intro s64_id) auto
  ultimately have "s64 (t ! n - 0xffff - (drop_bit 16 (?m ! (n - 1)) AND 1)) = ?d n" by simp
  then have "sub_limb t ?m n = ?m[n := ?d n, n - 1 := ?d (n - 1) mod 65536]"
    using n by (simp add: sub_limb_def Let_def and_ffff)
  also have "\<dots> = map (\<lambda>i. let d = ?d i in if i < Suc n - 1 then d mod 65536 else if i = Suc n - 1 then d else m ! i) [0..<16]"
    using n by (intro nth_equalityI) (auto simp: nth_upd Let_def less_Suc_eq)
  finally show ?case using step n by (simp del: upt_Suc add: upt_Suc_append)
qed

lemma mod16_le: "(x :: int) mod 65536 \<le> 65535"
  using pos_mod_bound [of 65536 x] by simp

lemma digits_less:
  "(\<forall>i < n. 0 \<le> f i \<and> f i \<le> 65535) \<Longrightarrow> (\<Sum>i < n. f i * 2 ^ (16 * i) :: int) < 2 ^ (16 * n)" for n :: nat
proof (induction n)
  case (Suc n)
  have "f n * 2 ^ (16 * n) \<le> 65535 * 2 ^ (16 * n)" using Suc.prems by (intro mult_right_mono) auto
  moreover have "(\<Sum>i < n. f i * 2 ^ (16 * i)) < 2 ^ (16 * n)" using Suc by simp
  moreover have "(2 :: int) ^ (16 * Suc n) = 65536 * 2 ^ (16 * n)" by (simp add: power_add)
  ultimately show ?case unfolding sum.lessThan_Suc by linarith
qed simp

lemma pack_step_val:
  assumes "canon16 t" "length m = 16"
  shows "\<exists>t' m'. pack_step t m = (t', m') \<and> canon16 t' \<and> length m' = 16 \<and>
    gval t' = (if p25519 \<le> gval t then gval t - p25519 else gval t)"
proof -
  let ?u = "diff_limbs t"
  let ?d = "\<lambda>i. ?u ! i + limb_carry ?u i"
  define m1 where "m1 = foldl (sub_limb t) (m[0 := s64 (t ! 0 - 0xffed)]) [1..<15]"
  have m1: "m1 = map (\<lambda>i. let d = ?d i in if i < 14 then d mod 65536 else if i = 14 then d else m ! i) [0..<16]"
    using sub_limb_prefix [OF assms, of 15] by (simp add: m1_def Let_def)
  then have m14: "m1 ! 14 = ?d 14" "length m1 = 16" by (simp_all add: Let_def)
  have c: "limb_carry ?u 15 = ?d 14 div 65536" "limb_carry ?u 16 = ?d 15 div 65536"
    using limb_carry.simps(2) [of ?u 14] limb_carry.simps(2) [of ?u 15] by simp_all
  have b15: "drop_bit 16 (m1 ! 14) AND 1 = - limb_carry ?u 15"
    unfolding m14 c by (rule drop_and_1) (use diff_limbs_range [OF assms(1), of 14] in auto)
  have "?d 15 = t ! 15 - 0x7fff + limb_carry ?u 15" by (simp add: diff_limbs_def p_limbs_nth)
  moreover have "s64 (?d 15) = ?d 15" using diff_limbs_range [OF assms(1), of 15] by (intro s64_id) auto
  ultimately have d15: "s64 (t ! 15 - 0x7fff - (drop_bit 16 (m1 ! 14) AND 1)) = ?d 15" by (simp add: b15)
  have b16: "drop_bit 16 (?d 15) AND 1 = - limb_carry ?u 16"
    unfolding c(2) by (rule drop_and_1) (use diff_limbs_range [OF assms(1), of 15] in auto)
  define m2 where "m2 = m1[15 := ?d 15, 14 := ?d 14 mod 65536]"
  have step: "pack_step t m = sel25519 t m2 (1 + limb_carry ?u 16)"
    unfolding pack_step_def Let_def m1_def [symmetric] d15 m2_def using m14 by (simp add: b16 and_ffff)
  have l: "length t = 16" "length m2 = 16" using assms(1) m14 by (simp_all add: canon16_def m2_def)
  have tel: "(\<Sum>i < 16. ?d i mod 65536 * 2 ^ (16 * i)) + limb_carry ?u 16 * 2 ^ 256 = gval t - p25519"
  proof -
    have "(\<Sum>i < 16. ?u ! i * 2 ^ (16 * i)) = gval t - gval p_limbs"
      using l(1) by (simp add: gval_sum p_limbs_nth diff_limbs_def left_diff_distrib sum_subtractf)
    then show ?thesis using carry_telescope [of ?u 16] by (simp add: gval_p_limbs)
  qed
  have pos: "0 \<le> (\<Sum>i < 16. ?d i mod 65536 * 2 ^ (16 * i))" by (intro sum_nonneg) simp
  have lt: "(\<Sum>i < 16. ?d i mod 65536 * 2 ^ (16 * i)) < 2 ^ 256"
    using digits_less [of 16 "\<lambda>i. ?d i mod 65536"] by (simp add: mod16_le)
  from diff_limbs_carry [OF assms(1) order_refl] show ?thesis
  proof (elim disjE)
    assume c0: "limb_carry ?u 16 = 0"
    then have "?d 15 mod 65536 = ?d 15"
      using c(2) diff_limbs_range [OF assms(1), of 15] by (intro mod_pos_pos_trivial) auto
    then have m2: "m2 = map (\<lambda>i. ?d i mod 65536) [0..<16]"
      using m14(2) by (intro nth_equalityI) (auto simp: m2_def m1 nth_upd Let_def)
    have "gval m2 = (\<Sum>i < 16. ?d i mod 65536 * 2 ^ (16 * i))" unfolding m2 by (rule gval_map)
    moreover have "canon16 m2" using pos_mod_bound [of 65536] by (auto simp: canon16_def m2)
    ultimately show ?thesis using c0 step l tel pos by (simp add: sel25519_eq)
  next
    assume "limb_carry ?u 16 = - 1"
    then show ?thesis using step l tel lt assms(1) by (simp add: sel25519_eq)
  qed
qed

lemma car25519_thrice:
  assumes "gfb (2 ^ 60) t"
  shows "canon16 (car25519 (car25519 (car25519 t)))"
    "gval (car25519 (car25519 (car25519 t))) mod p25519 = gval t mod p25519"
proof -
  let ?u = "car25519 (car25519 t)"
  have r: "reduced ?u" by (rule car25519_twice(1) [OF assms])
  then have u: "upper16 ?u" "- 38 \<le> ?u ! 0" "?u ! 0 \<le> 65573" by (simp_all add: reduced_def)
  have g: "gfb (2 ^ 60) ?u" by (rule gfb_upper16 [OF u(1)]) (use u in auto)
  have c1: "limb_carry ?u 1 = ?u ! 0 div 65536" by simp
  then have "\<bar>limb_carry ?u 1\<bar> \<le> 1" using u by (auto simp: abs_le_iff)
  from carry_small [OF u(1) this, of 16]
  have c: "\<bar>limb_carry ?u 16\<bar> \<le> 1" "limb_carry ?u 16 = 1 \<Longrightarrow> ?u ! 0 \<ge> 65536" "limb_carry ?u 16 = - 1 \<Longrightarrow> ?u ! 0 < 0"
    using c1 u(2,3) by auto
  have "0 \<le> ?u ! 0 mod 65536 + 38 * limb_carry ?u 16 \<and> ?u ! 0 mod 65536 + 38 * limb_carry ?u 16 \<le> 65535"
  proof -
    consider "limb_carry ?u 16 = 0" | "limb_carry ?u 16 = 1" | "limb_carry ?u 16 = - 1" using c(1) by linarith
    then show ?thesis
    proof cases
      case 1
      then show ?thesis using pos_mod_bound [of 65536 "?u ! 0"] by auto
    next
      case 2
      then have "?u ! 0 mod 65536 = ?u ! 0 - 65536"
        using mod_pos_pos_trivial [of "?u ! 0 - 65536" 65536] c(2) u(3) by simp
      then show ?thesis using 2 c(2) u(3) by auto
    next
      case 3
      then have "?u ! 0 mod 65536 = ?u ! 0 + 65536"
        using mod_pos_pos_trivial [of "?u ! 0 + 65536" 65536] c(3) u(2) by simp
      then show ?thesis using 3 c(3) u(2) by auto
    qed
  qed
  with car25519_upper16 [OF g] show "canon16 (car25519 ?u)"
    unfolding canon16_def upper16_def car25519_first [OF g, symmetric] by (metis One_nat_def Suc_leI neq0_conv)
  show "gval (car25519 ?u) mod p25519 = gval t mod p25519"
    using cong_car25519 [OF g] car25519_twice(2) [OF assms] by simp
qed

subsection \<open>Bytes\<close>

fun bytes_val :: "u8 list \<Rightarrow> int" where
  "bytes_val [] = 0"
| "bytes_val (b # bs) = uint b + 256 * bytes_val bs"

fun le_bytes :: "nat \<Rightarrow> int \<Rightarrow> u8 list" where
  "le_bytes 0 v = []"
| "le_bytes (Suc n) v = word_of_int v # le_bytes n (v div 256)"

lemma length_le_bytes [simp]: "length (le_bytes n v) = n"
  by (induction n v rule: le_bytes.induct) simp_all

lemma le_bytes_bytes_val: "le_bytes (length bs) (bytes_val bs) = bs"
proof (induction bs)
  case (Cons b bs)
  have "uint b < 256" "0 \<le> uint b" using uint_lt2p [of b] by simp_all
  then have "(uint b + 256 * bytes_val bs) div 256 = bytes_val bs" by simp
  moreover have "word_of_int (uint b + 256 * bytes_val bs) = b"
  proof -
    have "(256 :: u8) = 0" by code_simp
    then have "(256 :: u8) * w = 0" for w by (metis mult_zero_left)
    then show ?thesis by simp
  qed
  ultimately show ?case using Cons by simp
qed simp

lemma gval_Nil [simp]: "gval [] = 0" and gval_Cons: "gval (x # t) = x + 65536 * gval t"
proof -
  show "gval (x # t) = x + 65536 * gval t"
    by (simp add: gval_def lessThan_Suc_eq_insert_0 sum.reindex sum_distrib_left power_add ac_simps)
qed (simp add: gval_def)

lemma bytes_val_limbs:
  "(\<forall>x \<in> set t. 0 \<le> x \<and> x \<le> 65535) \<Longrightarrow>
   bytes_val (concat (map (\<lambda>x. [word_of_int (x AND 0xff), word_of_int (drop_bit 8 x)]) t)) = gval t"
proof (induction t)
  case (Cons x t)
  then have x: "0 \<le> x" "x \<le> 65535" by simp_all
  have "uint (word_of_int (x AND 0xff) :: u8) = x mod 256"
    using take_bit_eq_mask [of 8 x] by (simp add: uint_word_of_int take_bit_eq_mod mask_eq_exp_minus_1)
  moreover have "uint (word_of_int (drop_bit 8 x) :: u8) = x div 256"
    using x by (simp add: uint_word_of_int take_bit_eq_mod drop_bit_eq_div)
  ultimately show ?case using Cons by (simp add: gval_Cons)
qed simp

text \<open>Packing: the canonical representative, as 32 bytes, whatever the stack held.\<close>

lemma pack25519_eq:
  assumes "gfb (2 ^ 60) n" "length stack = 16"
  shows "pack25519 stack n = le_bytes 32 (gval n mod p25519)"
proof -
  let ?t = "car25519 (car25519 (car25519 n))"
  obtain t1 m1 where s1: "pack_step ?t stack = (t1, m1)" "canon16 t1" "length m1 = 16"
    "gval t1 = (if p25519 \<le> gval ?t then gval ?t - p25519 else gval ?t)"
    using pack_step_val [OF car25519_thrice(1) [OF assms(1)] assms(2)] by blast
  obtain t2 m2 where s2: "pack_step t1 m1 = (t2, m2)" "canon16 t2" "length m2 = 16"
    "gval t2 = (if p25519 \<le> gval t1 then gval t1 - p25519 else gval t1)"
    using pack_step_val [OF s1(2,3)] by blast
  have range: "0 \<le> gval t \<and> gval t < 2 ^ 256" if "canon16 t" for t
    using that digits_less [of 16 "\<lambda>i. t ! i"] by (auto simp: gval_sum canon16_def intro!: sum_nonneg)
  have "gval ?t < 2 ^ 256" "0 \<le> gval t2" using range car25519_thrice(1) [OF assms(1)] s2(2) by blast+
  then have "gval t2 < p25519" using s1(4) s2(4) by (auto simp: p25519_def split: if_splits)
  moreover have "gval t2 mod p25519 = gval n mod p25519"
    using s1(4) s2(4) car25519_thrice(2) [OF assms(1)] by (auto simp: mod_diff_left_eq split: if_splits)
  ultimately have v: "gval t2 = gval n mod p25519" using \<open>0 \<le> gval t2\<close> by simp
  let ?b = "concat (map (\<lambda>x. [word_of_int (x AND 0xff), word_of_int (drop_bit 8 x)]) t2) :: u8 list"
  have "bytes_val ?b = gval t2" using s2(2) by (intro bytes_val_limbs) (auto simp: canon16_def in_set_conv_nth)
  moreover have "length ?b = 32" using s2(2) by (simp add: canon16_def length_concat comp_def sum_list_triv)
  ultimately have "?b = le_bytes 32 (gval t2)" using le_bytes_bytes_val [of ?b] by simp
  then show ?thesis by (simp add: pack25519_def s1(1) s2(1) v)
qed

lemma gval_byte_pairs:
  "length n = 2 * k \<Longrightarrow> gval (map (\<lambda>i. uint (n ! (2 * i)) + push_bit 8 (uint (n ! (2 * i + 1)))) [0..<k]) = bytes_val n"
proof (induction k arbitrary: n)
  case (Suc k)
  then obtain a b r where n: "n = a # b # r" by (cases n rule: remdups_adj.cases) auto
  have "map (\<lambda>i. uint (n ! (2 * i)) + push_bit 8 (uint (n ! (2 * i + 1)))) [0..<Suc k] =
      (uint a + push_bit 8 (uint b)) # map (\<lambda>i. uint (r ! (2 * i)) + push_bit 8 (uint (r ! (2 * i + 1)))) [0..<k]"
    by (simp add: map_upt_Suc n del: upt_Suc)
  then show ?case using Suc.IH [of r] Suc.prems n
    by (simp only: gval_Cons bytes_val.simps) (simp add: push_bit_eq_mult)
qed simp

lemma unpack25519_eq:
  assumes "length n = 32"
  shows "gfb (2 ^ 16) (unpack25519 n)" "gval (unpack25519 n) = bytes_val n mod 2 ^ 255"
proof -
  define g where "g = map (\<lambda>i. uint (n ! (2 * i)) + push_bit 8 (uint (n ! (2 * i + 1)))) [0..<16]"
  have l: "length g = 16" by (simp add: g_def)
  have g: "0 \<le> g ! i \<and> g ! i \<le> 65535" if "i < 16" for i
    using that uint_lt2p [of "n ! (2 * i)"] uint_lt2p [of "n ! (2 * i + 1)"] by (simp add: g_def push_bit_eq_mult)
  have m: "g ! 15 AND 0x7fff = g ! 15 mod 32768"
    using take_bit_eq_mask [of 15 "g ! 15"] by (simp add: take_bit_eq_mod mask_eq_exp_minus_1)
  let ?u = "g[15 := g ! 15 mod 32768]"
  have u: "unpack25519 n = ?u" unfolding unpack25519_def Let_def g_def [symmetric] m ..
  have m15: "0 \<le> g ! 15 mod 32768" "g ! 15 mod 32768 \<le> 32767" using pos_mod_bound [of 32768 "g ! 15"] by auto
  have c: "0 \<le> ?u ! i \<and> ?u ! i \<le> 65535" if "i < 16" for i using g [OF that] m15 by (auto simp: nth_upd)
  then show "gfb (2 ^ 16) (unpack25519 n)" using l by (auto simp: u gfb_def abs_le_iff) force
  have "gval g = bytes_val n" unfolding g_def by (rule gval_byte_pairs) (use assms in simp)
  moreover have "gval ?u = gval g - 2 ^ 255 * (g ! 15 div 32768)"
    using l by (simp add: gval_upd minus_div_mult_eq_mod [symmetric])
  moreover have "0 \<le> gval ?u"
    using c l by (auto simp: gval_sum intro!: sum_nonneg)
  moreover have "gval ?u < 2 ^ 255"
  proof -
    have "gval ?u = (\<Sum>i < 15. ?u ! i * 2 ^ (16 * i)) + ?u ! 15 * 2 ^ 240"
      using l sum.lessThan_Suc [of "\<lambda>i. ?u ! i * 2 ^ (16 * i)" 15] by (simp add: gval_sum)
    moreover have "(\<Sum>i < 15. ?u ! i * 2 ^ (16 * i)) < 2 ^ 240"
      using digits_less [of 15 "\<lambda>i. g ! i"] g by simp
    ultimately show ?thesis using m15(2) l by simp
  qed
  ultimately show "gval (unpack25519 n) = bytes_val n mod 2 ^ 255"
    unfolding u by (metis mod_mult_self4 mod_pos_pos_trivial diff_add_cancel add.commute)
qed

subsection \<open>Field elements\<close>

text \<open>The field element of an array, and the arrays that are small enough to be multiplied.\<close>

definition fe :: "gf \<Rightarrow> int" where "fe a = gval a mod p25519"

definition small :: "gf \<Rightarrow> bool" where "small a \<longleftrightarrow> gfb (2 ^ 20) a"

lemma gfb_mono: "gfb B a \<Longrightarrow> B \<le> C \<Longrightarrow> gfb C a"
  by (force simp: gfb_def)

lemma reduced_small: "reduced a \<Longrightarrow> small a"
  unfolding small_def by (rule gfb_mono [OF gfb_reduced]) simp_all

lemma M25519_fe:
  assumes "small a" "small b"
  shows "reduced (M25519 a b)" "fe (M25519 a b) = (fe a * fe b) mod p25519"
  using M25519_val [of "2 ^ 20" a b] assms by (simp_all add: small_def fe_def mod_mult_eq)

lemma S25519_fe:
  assumes "small a"
  shows "reduced (S25519 a)" "fe (S25519 a) = (fe a * fe a) mod p25519"
  using M25519_fe [OF assms assms] by (simp_all add: S25519_def)

lemma A25519_fe:
  assumes "gfb B a" "gfb C b" "B + C \<le> 2 ^ 20"
  shows "gfb (B + C) (A25519 a b)" "fe (A25519 a b) = (fe a + fe b) mod p25519"
  using A25519_val [OF assms(1,2)] assms(3) by (simp_all add: fe_def mod_add_eq)

lemma Z25519_fe:
  assumes "gfb B a" "gfb C b" "B + C \<le> 2 ^ 20"
  shows "gfb (B + C) (Z25519 a b)" "fe (Z25519 a b) = (fe a - fe b) mod p25519"
  using Z25519_val [OF assms(1,2)] assms(3) by (simp_all add: fe_def mod_diff_eq)

lemma fe_mod [simp]: "fe a mod p25519 = fe a"
  by (simp add: fe_def)

subsection \<open>Powers\<close>

definition pow_step :: "(nat \<Rightarrow> bool) \<Rightarrow> gf \<Rightarrow> gf \<Rightarrow> nat \<Rightarrow> gf" where
  "pow_step P i c a = (let c = S25519 c in if P a then M25519 c i else c)"

definition expo :: "(nat \<Rightarrow> bool) \<Rightarrow> nat list \<Rightarrow> int \<Rightarrow> int" where
  "expo P l e = foldl (\<lambda>e a. 2 * e + (if P a then 1 else 0)) e l"

lemma pow_loop:
  assumes "small i" "small c" "fe c = fe i ^ nat e mod p25519" "0 \<le> e"
  shows "small (foldl (pow_step P i) c l) \<and> (l \<noteq> [] \<longrightarrow> reduced (foldl (pow_step P i) c l)) \<and>
    fe (foldl (pow_step P i) c l) = fe i ^ nat (expo P l e) mod p25519"
  using assms(2-)
proof (induction l arbitrary: c e)
  case Nil
  then show ?case by (simp add: expo_def)
next
  case (Cons a l)
  let ?e = "2 * e + (if P a then 1 else 0)"
  have s: "reduced (S25519 c)" "fe (S25519 c) = fe i ^ nat (2 * e) mod p25519"
  proof -
    have "nat (2 * e) = nat e + nat e" using Cons.prems(3) by simp
    then show "fe (S25519 c) = fe i ^ nat (2 * e) mod p25519"
      using S25519_fe(2) [OF Cons.prems(1)] by (simp only: Cons.prems(2) power_add mod_mult_eq)
  qed (rule S25519_fe(1) [OF Cons.prems(1)])
  have "reduced (pow_step P i c a) \<and> fe (pow_step P i c a) = fe i ^ nat ?e mod p25519"
  proof (cases "P a")
    case True
    have "nat (2 * e + 1) = Suc (nat (2 * e))" using Cons.prems(3) by simp
    with True M25519_fe [OF reduced_small [OF s(1)] assms(1)] s(2) show ?thesis
      by (simp add: pow_step_def Let_def mod_mult_right_eq mult.commute)
  next
    case False
    with s show ?thesis by (simp add: pow_step_def Let_def)
  qed
  moreover from this Cons.IH [of "pow_step P i c a" ?e] Cons.prems(3) reduced_small
  have "small (foldl (pow_step P i) (pow_step P i c a) l) \<and> (l \<noteq> [] \<longrightarrow> reduced (foldl (pow_step P i) (pow_step P i c a) l)) \<and>
      fe (foldl (pow_step P i) (pow_step P i c a) l) = fe i ^ nat (expo P l ?e) mod p25519" by simp
  ultimately show ?case by (cases "l = []") (auto simp: expo_def)
qed

lemma expo_values:
  "expo (\<lambda>a. a \<noteq> 2 \<and> a \<noteq> 4) (rev [0..<254]) 1 = 2 ^ 255 - 21"
  "expo (\<lambda>a. a \<noteq> 1) (rev [0..<251]) 1 = 2 ^ 252 - 3"
  by code_simp+

text \<open>Fermat inversion and the power used for square roots.\<close>

lemma inv25519_fe:
  assumes "small i"
  shows "reduced (inv25519 i)" "fe (inv25519 i) = fe i ^ nat (p25519 - 2) mod p25519"
proof -
  have "inv25519 i = foldl (pow_step (\<lambda>a. a \<noteq> 2 \<and> a \<noteq> 4) i) i (rev [0..<254])"
    unfolding inv25519_def pow_step_def ..
  moreover have "rev [0..<254] \<noteq> []" by simp
  ultimately show "reduced (inv25519 i)" "fe (inv25519 i) = fe i ^ nat (p25519 - 2) mod p25519"
    using pow_loop [OF assms assms, of 1 "\<lambda>a. a \<noteq> 2 \<and> a \<noteq> 4" "rev [0..<254]"]
    by (simp_all only: expo_values p25519_def) (simp_all add: fe_def p25519_def)
qed

lemma pow2523_fe:
  assumes "small i"
  shows "reduced (pow2523 i)" "fe (pow2523 i) = fe i ^ nat (2 ^ 252 - 3) mod p25519"
proof -
  have "pow2523 i = foldl (pow_step (\<lambda>a. a \<noteq> 1) i) i (rev [0..<251])"
    unfolding pow2523_def pow_step_def ..
  moreover have "rev [0..<251] \<noteq> []" by simp
  ultimately show "reduced (pow2523 i)" "fe (pow2523 i) = fe i ^ nat (2 ^ 252 - 3) mod p25519"
    using pow_loop [OF assms assms, of 1 "\<lambda>a. a \<noteq> 1" "rev [0..<251]"]
    by (simp_all only: expo_values) (simp_all add: fe_def p25519_def)
qed

end
