(* ===== verification/X25519.thy ===== *)
theory X25519
  imports Gf25519
begin

text \<open>
  Curve25519 scalar multiplication (\<open>crypto_scalarmult\<close> of \<open>src/crypto_ed25519.c\<close>), which
  derives WireGuard keys, and its equivalence with the ladder of RFC 7748 over the integers
  modulo $2^{255} - 19$.
\<close>

section \<open>Definitions\<close>

definition gf_121665 :: gf where "gf_121665 = [0xDB41, 1] @ replicate 14 0"

type_synonym ladder_state = "gf \<times> gf \<times> gf \<times> gf"

definition ladder_step :: "gf \<Rightarrow> ladder_state \<Rightarrow> int \<Rightarrow> ladder_state" where
  "ladder_step x s r = (case s of (a, b, c, d) \<Rightarrow>
     let (a, b) = sel25519 a b r;
         (c, d) = sel25519 c d r;
         e = A25519 a c;
         a = Z25519 a c;
         c = A25519 b d;
         b = Z25519 b d;
         d = S25519 e;
         f = S25519 a;
         a = M25519 c a;
         c = M25519 b e;
         e = A25519 a c;
         a = Z25519 a c;
         b = S25519 a;
         c = Z25519 d f;
         a = M25519 c gf_121665;
         a = A25519 a d;
         c = M25519 c a;
         a = M25519 d f;
         d = M25519 b x;
         b = S25519 e;
         (a, b) = sel25519 a b r;
         (c, d) = sel25519 c d r
     in (a, b, c, d))"

definition clamp :: "u8 list \<Rightarrow> u8 list" where
  "clamp n =
     (let z = take 31 n @ [(n ! 31 AND 127) OR 64]
      in z[0 := z ! 0 AND 248])"

definition scalar_bit :: "u8 list \<Rightarrow> nat \<Rightarrow> int" where
  "scalar_bit z i = uint (drop_bit (i mod 8) (z ! (i div 8)) AND 1)"

definition crypto_scalarmult :: "gf \<Rightarrow> u8 list \<Rightarrow> u8 list \<Rightarrow> u8 list" where
  "crypto_scalarmult stack n p =
     (let z = clamp n;
          x = unpack25519 p;
          (a, b, c, d) = foldl (\<lambda>s i. ladder_step x s (scalar_bit z i)) (gf1, x, gf0, gf1) (rev [0..<255]);
          c = inv25519 c;
          a = M25519 a c
      in pack25519 stack a)"

definition curve25519_basepoint :: "u8 list" where
  "curve25519_basepoint = 9 # replicate 31 0"

definition crypto_scalarmult_base :: "gf \<Rightarrow> u8 list \<Rightarrow> u8 list" where
  "crypto_scalarmult_base stack n = crypto_scalarmult stack n curve25519_basepoint"

section \<open>RFC 7748\<close>

text \<open>The function of the standard, with its deferred swap, on integers modulo the prime.\<close>

definition fadd :: "int \<Rightarrow> int \<Rightarrow> int" where "fadd x y = (x + y) mod p25519"
definition fsub :: "int \<Rightarrow> int \<Rightarrow> int" where "fsub x y = (x - y) mod p25519"
definition fmul :: "int \<Rightarrow> int \<Rightarrow> int" where "fmul x y = (x * y) mod p25519"
definition fpow :: "int \<Rightarrow> int \<Rightarrow> int" where "fpow x n = x ^ nat n mod p25519"

definition rfc_core :: "int \<Rightarrow> int \<times> int \<times> int \<times> int \<Rightarrow> int \<times> int \<times> int \<times> int" where
  "rfc_core x1 s = (case s of (x2, z2, x3, z3) \<Rightarrow>
     let A = fadd x2 z2; AA = fmul A A;
         B = fsub x2 z2; BB = fmul B B;
         E = fsub AA BB;
         C = fadd x3 z3; D = fsub x3 z3;
         DA = fmul D A; CB = fmul C B
     in (fmul AA BB, fmul E (fadd AA (fmul 121665 E)),
         fmul (fadd DA CB) (fadd DA CB), fmul x1 (fmul (fsub DA CB) (fsub DA CB))))"

definition rfc_swap :: "bool \<Rightarrow> int \<times> int \<times> int \<times> int \<Rightarrow> int \<times> int \<times> int \<times> int" where
  "rfc_swap b s = (case s of (x2, z2, x3, z3) \<Rightarrow> if b then (x3, z3, x2, z2) else s)"

definition rfc_step :: "int \<Rightarrow> int \<Rightarrow> bool \<times> (int \<times> int \<times> int \<times> int) \<Rightarrow> nat \<Rightarrow> bool \<times> (int \<times> int \<times> int \<times> int)" where
  "rfc_step k x1 s t = (case s of (swap, v) \<Rightarrow>
     let kt = odd (k div 2 ^ t) in (kt, rfc_core x1 (rfc_swap (swap \<noteq> kt) v)))"

definition rfc_x25519 :: "int \<Rightarrow> int \<Rightarrow> int" where
  "rfc_x25519 k u =
     (let (swap, v) = foldl (rfc_step k u) (False, (1, 0, u, 1)) (rev [0..<255])
      in case rfc_swap swap v of (x2, z2, x3, z3) \<Rightarrow> fmul x2 (fpow z2 (p25519 - 2)))"

text \<open>The scalar of the standard: lowest three bits and highest bit cleared, bit 254 set.\<close>

definition decode_scalar :: "u8 list \<Rightarrow> int" where
  "decode_scalar n = bytes_val (clamp n)"

section \<open>Equivalence\<close>

lemma fpow_fe: "small i \<Longrightarrow> fe (inv25519 i) = fpow (fe i) (p25519 - 2)"
  by (simp add: inv25519_fe fpow_def)

lemma fe_ops:
  "small a \<Longrightarrow> small b \<Longrightarrow> fe (M25519 a b) = fmul (fe a) (fe b)"
  "small a \<Longrightarrow> fe (S25519 a) = fmul (fe a) (fe a)"
  "gfb B a \<Longrightarrow> gfb C b \<Longrightarrow> B + C \<le> 2 ^ 20 \<Longrightarrow> fe (A25519 a b) = fadd (fe a) (fe b)"
  "gfb B a \<Longrightarrow> gfb C b \<Longrightarrow> B + C \<le> 2 ^ 20 \<Longrightarrow> fe (Z25519 a b) = fsub (fe a) (fe b)"
  by (simp_all add: M25519_fe S25519_fe A25519_fe Z25519_fe fmul_def fadd_def fsub_def)

lemma gfb_M: "small a \<Longrightarrow> small b \<Longrightarrow> gfb (2 ^ 17) (M25519 a b)"
  and gfb_S: "small a \<Longrightarrow> gfb (2 ^ 17) (S25519 a)"
  by (rule gfb_reduced, rule M25519_fe S25519_fe; assumption)+

lemma gfb_A: "gfb (2 ^ 17) a \<Longrightarrow> gfb (2 ^ 17) b \<Longrightarrow> gfb (2 ^ 18) (A25519 a b)"
  and gfb_Z: "gfb (2 ^ 17) a \<Longrightarrow> gfb (2 ^ 17) b \<Longrightarrow> gfb (2 ^ 18) (Z25519 a b)"
  using A25519_fe(1) [of "2 ^ 17" a "2 ^ 17" b] Z25519_fe(1) [of "2 ^ 17" a "2 ^ 17" b] by simp_all

lemma small_gfb: "gfb (2 ^ 16) a \<Longrightarrow> small a" "gfb (2 ^ 17) a \<Longrightarrow> small a" "gfb (2 ^ 18) a \<Longrightarrow> small a"
  unfolding small_def by (erule gfb_mono, simp)+

lemma gfb_consts: "gfb (2 ^ 16) gf_121665" "gfb (2 ^ 17) gf0" "gfb (2 ^ 17) gf1"
  by (auto simp: gfb_def gf_121665_def gf0_def gf1_def nth_Cons' nth_append)

lemma fe_consts: "fe gf_121665 = 121665" "fe gf0 = 0" "fe gf1 = 1"
  by (simp_all add: fe_def gf_121665_def gf0_def gf1_def p25519_def gval_Cons eval_nat_numeral)

text \<open>The arrays of the loop and the integers of the standard.\<close>

definition ladder_rel :: "ladder_state \<Rightarrow> int \<times> int \<times> int \<times> int \<Rightarrow> bool" where
  "ladder_rel s v \<longleftrightarrow> (case s of (a, b, c, d) \<Rightarrow>
     gfb (2 ^ 17) a \<and> gfb (2 ^ 17) b \<and> gfb (2 ^ 17) c \<and> gfb (2 ^ 17) d \<and> v = (fe a, fe c, fe b, fe d))"

definition ladder_body :: "gf \<Rightarrow> ladder_state \<Rightarrow> ladder_state" where
  "ladder_body x s = (case s of (a, b, c, d) \<Rightarrow>
     let e = A25519 a c;
         a = Z25519 a c;
         c = A25519 b d;
         b = Z25519 b d;
         d = S25519 e;
         f = S25519 a;
         a = M25519 c a;
         c = M25519 b e;
         e = A25519 a c;
         a = Z25519 a c;
         b = S25519 a;
         c = Z25519 d f;
         a = M25519 c gf_121665;
         a = A25519 a d;
         c = M25519 c a;
         a = M25519 d f;
         d = M25519 b x;
         b = S25519 e
     in (a, b, c, d))"

lemma fe_AZ:
  "gfb (2 ^ 17) a \<Longrightarrow> gfb (2 ^ 17) b \<Longrightarrow> fe (A25519 a b) = fadd (fe a) (fe b)"
  "gfb (2 ^ 17) a \<Longrightarrow> gfb (2 ^ 17) b \<Longrightarrow> fe (Z25519 a b) = fsub (fe a) (fe b)"
  using fe_ops(3,4) [of "2 ^ 17" a "2 ^ 17" b] by simp_all

lemma fmul_commute: "fmul x y = fmul y x" and fadd_commute: "fadd x y = fadd y x"
  by (simp_all add: fmul_def fadd_def mult.commute add.commute)

lemma fmul_fsub_square: "fmul (fsub x y) (fsub x y) = fmul (fsub y x) (fsub y x)"
proof -
  have "(x - y) * (x - y) = (y - x) * (y - x)" by (simp add: algebra_simps)
  then show ?thesis by (simp add: fmul_def fsub_def mod_mult_eq)
qed

lemma ladder_body_core:
  assumes "gfb (2 ^ 17) a" "gfb (2 ^ 17) b" "gfb (2 ^ 17) c" "gfb (2 ^ 17) d" "gfb (2 ^ 16) x"
  shows "ladder_rel (ladder_body x (a, b, c, d)) (rfc_core (fe x) (fe a, fe c, fe b, fe d))"
proof -
  define A B C D where "A = A25519 a c" and "B = Z25519 a c" and "C = A25519 b d" and "D = Z25519 b d"
  have ABCD: "gfb (2 ^ 18) A" "gfb (2 ^ 18) B" "gfb (2 ^ 18) C" "gfb (2 ^ 18) D"
    and feABCD: "fe A = fadd (fe a) (fe c)" "fe B = fsub (fe a) (fe c)" "fe C = fadd (fe b) (fe d)" "fe D = fsub (fe b) (fe d)"
    using assms unfolding A_def B_def C_def D_def by (auto intro!: gfb_A gfb_Z simp only: fe_AZ)
  note s18 = ABCD [THEN small_gfb(3)]
  define AA BB CB DA where "AA = S25519 A" and "BB = S25519 B" and "CB = M25519 C B" and "DA = M25519 D A"
  have P: "gfb (2 ^ 17) AA" "gfb (2 ^ 17) BB" "gfb (2 ^ 17) CB" "gfb (2 ^ 17) DA"
    and feP: "fe AA = fmul (fe A) (fe A)" "fe BB = fmul (fe B) (fe B)" "fe CB = fmul (fe C) (fe B)" "fe DA = fmul (fe D) (fe A)"
    using s18 unfolding AA_def BB_def CB_def DA_def by (auto intro!: gfb_M gfb_S simp only: fe_ops(1,2))
  define G H E where "G = A25519 CB DA" and "H = Z25519 CB DA" and "E = Z25519 AA BB"
  have Q: "gfb (2 ^ 18) G" "gfb (2 ^ 18) H" "gfb (2 ^ 18) E"
    and feQ: "fe G = fadd (fe CB) (fe DA)" "fe H = fsub (fe CB) (fe DA)" "fe E = fsub (fe AA) (fe BB)"
    using P unfolding G_def H_def E_def by (auto intro!: gfb_A gfb_Z simp only: fe_AZ)
  note sQ = Q [THEN small_gfb(3)] and sP = P [THEN small_gfb(2)]
  note s16 = small_gfb(1) [OF gfb_consts(1)] small_gfb(1) [OF assms(5)]
  define K where "K = A25519 (M25519 E gf_121665) AA"
  have m: "gfb (2 ^ 17) (M25519 E gf_121665)" using sQ(3) s16(1) by (rule gfb_M)
  have K: "gfb (2 ^ 18) K" "fe K = fadd (fmul (fe E) 121665) (fe AA)"
    unfolding K_def using gfb_A [OF m P(1)] fe_AZ(1) [OF m P(1)] fe_ops(1) [OF sQ(3) s16(1)] by (simp_all only: fe_consts)
  note sK = small_gfb(3) [OF K(1)]
  have "ladder_body x (a, b, c, d) = (M25519 AA BB, S25519 G, M25519 E K, M25519 (S25519 H) x)"
    by (simp only: ladder_body_def Let_def prod.case K_def G_def H_def E_def AA_def BB_def CB_def DA_def A_def B_def C_def D_def)
  moreover have sH: "gfb (2 ^ 17) (S25519 H)" "fe (S25519 H) = fmul (fe H) (fe H)"
    using sQ(2) by (rule gfb_S, simp only: fe_ops(2))
  moreover have "fe (M25519 AA BB) = fmul (fe AA) (fe BB)" "fe (S25519 G) = fmul (fe G) (fe G)" "fe (M25519 E K) = fmul (fe E) (fe K)"
      "fe (M25519 (S25519 H) x) = fmul (fe (S25519 H)) (fe x)"
    using sP sQ sK s16 small_gfb(2) [OF sH(1)] by (simp_all only: fe_ops(1,2))
  moreover have "gfb (2 ^ 17) (M25519 AA BB)" "gfb (2 ^ 17) (S25519 G)" "gfb (2 ^ 17) (M25519 E K)" "gfb (2 ^ 17) (M25519 (S25519 H) x)"
    using sP sQ sK s16 small_gfb(2) [OF sH(1)] by (auto intro!: gfb_M gfb_S simp only:)
  ultimately show ?thesis
    unfolding ladder_rel_def rfc_core_def Let_def prod.case feABCD [symmetric] feP [symmetric]
    by (simp add: feQ K(2) fmul_commute [of _ 121665] fmul_commute [of _ "fe x"] fadd_commute [of "fe CB"]
      fadd_commute [of _ "fe AA"] fmul_fsub_square [of "fe CB"])
qed

lemma ladder_step_eq:
  assumes "length a = 16" "length b = 16" "length c = 16" "length d = 16" "length x = 16"
  shows "ladder_step x (a, b, c, d) 0 = ladder_body x (a, b, c, d)"
    "ladder_step x (a, b, c, d) 1 = (case ladder_body x (b, a, d, c) of (a, b, c, d) \<Rightarrow> (b, a, d, c))"
proof -
  have l: "length (A25519 u v) = min (length u) (length v)" "length (Z25519 u v) = min (length u) (length v)" for u v
    by (simp_all add: A25519_def Z25519_def)
  have car: "length (car25519 t) = length t" for t
  proof -
    have "length (car_step t i) = length t" for t i by (simp add: car_step_def Let_def)
    then have "length (foldl car_step t is) = length t" for "is" by (induction "is" arbitrary: t) simp_all
    then show ?thesis by (simp add: car25519_def)
  qed
  have fold: "length (foldl (\<lambda>t i. t[g i := h t i]) t is) = length t" for g :: "nat \<Rightarrow> nat" and h :: "int list \<Rightarrow> nat \<Rightarrow> int" and t "is"
    by (induction "is" arbitrary: t) simp_all
  have "length (mul_limbs u v) = 31" for u v
  proof -
    have "length (foldl (\<lambda>t i. foldl (\<lambda>t j. t[i + j := s64 (t ! (i + j) + u ! i * v ! j)]) t [0..<16]) t is) = length t" for t "is"
      by (induction "is" arbitrary: t) (simp_all add: fold)
    then show ?thesis by (simp add: mul_limbs_def)
  qed
  then have m: "length (M25519 u v) = 16" for u v
    by (simp add: M25519_def Let_def car fold)
  show "ladder_step x (a, b, c, d) 0 = ladder_body x (a, b, c, d)"
    using assms by (simp add: ladder_step_def ladder_body_def Let_def sel25519_eq l m S25519_def)
  show "ladder_step x (a, b, c, d) 1 = (case ladder_body x (b, a, d, c) of (a, b, c, d) \<Rightarrow> (b, a, d, c))"
    using assms by (simp add: ladder_step_def ladder_body_def Let_def sel25519_eq l m S25519_def)
qed

lemma ladder_step_rel:
  assumes "ladder_rel s w" "gfb (2 ^ 16) x"
  shows "ladder_rel (ladder_step x s (if kt then 1 else 0)) (rfc_swap kt (rfc_core (fe x) (rfc_swap kt w)))"
proof -
  obtain a b c d where s: "s = (a, b, c, d)" by (cases s)
  have g: "gfb (2 ^ 17) a" "gfb (2 ^ 17) b" "gfb (2 ^ 17) c" "gfb (2 ^ 17) d" "w = (fe a, fe c, fe b, fe d)"
    using assms(1) by (simp_all add: s ladder_rel_def)
  have l: "length a = 16" "length b = 16" "length c = 16" "length d = 16" "length x = 16"
    using g assms(2) by (simp_all add: gfb_def)
  show ?thesis
  proof (cases kt)
    case True
    obtain a' b' c' d' where b: "ladder_body x (b, a, d, c) = (a', b', c', d')" by (cases "ladder_body x (b, a, d, c)")
    then have "ladder_rel (a', b', c', d') (rfc_core (fe x) (fe b, fe d, fe a, fe c))"
      using ladder_body_core [OF g(2,1,4,3) assms(2)] by simp
    then show ?thesis using True b
      by (auto simp: s ladder_step_eq(2) [OF l] g(5) rfc_swap_def ladder_rel_def split: prod.splits)
  next
    case False
    then show ?thesis using ladder_body_core [OF g(1-4) assms(2)]
      by (simp add: s ladder_step_eq(1) [OF l] g(5) rfc_swap_def split: prod.splits)
  qed
qed

lemma rfc_swap_swap: "rfc_swap b (rfc_swap a v) = rfc_swap (a \<noteq> b) v"
  by (auto simp: rfc_swap_def split: prod.splits)

lemma ladder_loop:
  assumes "ladder_rel s (rfc_swap (fst v) (snd v))" "gfb (2 ^ 16) x"
    and "\<forall>i \<in> set is. f i = (if odd (k div 2 ^ i) then 1 else 0)"
  shows "ladder_rel (foldl (\<lambda>s i. ladder_step x s (f i)) s is)
    (rfc_swap (fst (foldl (rfc_step k (fe x)) v is)) (snd (foldl (rfc_step k (fe x)) v is)))"
  using assms(1,3)
proof (induction "is" arbitrary: s v)
  case (Cons i "is")
  have "ladder_rel (ladder_step x s (f i)) (rfc_swap (fst (rfc_step k (fe x) v i)) (snd (rfc_step k (fe x) v i)))"
    using ladder_step_rel [OF Cons.prems(1) assms(2), of "odd (k div 2 ^ i)"] Cons.prems(2)
    by (cases v) (simp add: rfc_step_def Let_def rfc_swap_swap)
  from Cons.IH [OF this] Cons.prems(2) show ?case by simp
qed simp

subsection \<open>Scalars\<close>

lemma bytes_val_bit:
  "i div 8 < length z \<Longrightarrow> odd (bytes_val z div 2 ^ i) \<longleftrightarrow> bit (z ! (i div 8)) (i mod 8)"
proof (induction z arbitrary: i)
  case (Cons b z)
  have b: "0 \<le> uint b" "uint b < 256" using uint_lt2p [of b] by simp_all
  show ?case
  proof (cases "i < 8")
    case True
    then have "(256 :: int) = 2 ^ i * 2 ^ (8 - i)" by (simp flip: power_add)
    then have eq: "uint b + 256 * bytes_val z = uint b + 2 ^ i * (2 ^ (8 - i) * bytes_val z)" by (simp only: mult.assoc)
    have "(uint b + 256 * bytes_val z) div 2 ^ i = 2 ^ (8 - i) * bytes_val z + uint b div 2 ^ i"
      unfolding eq by (rule div_mult_self2) simp
    moreover have "even (2 ^ (8 - i) * bytes_val z)" using True by simp
    moreover have "odd (uint b div 2 ^ i) \<longleftrightarrow> bit b i"
      using True bit_uint_iff [of b i] by (simp only: bit_iff_odd [of "uint b" i, symmetric]) simp
    ultimately show ?thesis using True by simp
  next
    case False
    then obtain j where j: "i = 8 + j" by (metis le_add_diff_inverse not_less)
    have "(uint b + 256 * bytes_val z) div 2 ^ i = (uint b + 256 * bytes_val z) div 256 div 2 ^ j"
      by (simp add: j power_add zdiv_zmult2_eq)
    also have "(uint b + 256 * bytes_val z) div 256 = bytes_val z" using b by simp
    finally have "(uint b + 256 * bytes_val z) div 2 ^ i = bytes_val z div 2 ^ j" .
    moreover have "(8 + j) div 8 = Suc (j div 8)" by simp
    ultimately show ?thesis using Cons.IH [of j] Cons.prems by (simp add: j)
  qed
qed simp

lemma scalar_bit_eq:
  assumes "i div 8 < length z"
  shows "scalar_bit z i = (if odd (bytes_val z div 2 ^ i) then 1 else 0)"
proof -
  have "drop_bit (i mod 8) (z ! (i div 8)) AND 1 = of_bool (bit (z ! (i div 8)) (i mod 8))"
    by (simp add: and_one_eq bit_iff_odd_drop_bit mod2_eq_if)
  then show ?thesis using bytes_val_bit [OF assms] by (simp add: scalar_bit_def)
qed

lemma length_clamp: "length n = 32 \<Longrightarrow> length (clamp n) = 32"
  by (simp add: clamp_def Let_def)

section \<open>Property\<close>

text \<open>
  C25. Key derivation is X25519. For every 32-byte scalar and point, whatever the stack held
  before, no 64-bit operation of the field arithmetic overflows in effect, and the result is the
  encoding of the function of RFC 7748 applied to the clamped scalar and the coordinate with its
  top bit ignored, computed modulo the prime.
\<close>

theorem crypto_scalarmult_rfc7748:
  assumes "length n = 32" "length p = 32" "length stack = 16"
  shows "crypto_scalarmult stack n p = le_bytes 32 (rfc_x25519 (decode_scalar n) (bytes_val p mod 2 ^ 255 mod p25519))"
proof -
  let ?x = "unpack25519 p" and ?k = "decode_scalar n"
  have x: "gfb (2 ^ 16) ?x" "fe ?x = bytes_val p mod 2 ^ 255 mod p25519"
    using unpack25519_eq [OF assms(2)] by (simp_all only: fe_def)
  obtain a b c d where s: "foldl (\<lambda>s i. ladder_step ?x s (scalar_bit (clamp n) i)) (gf1, ?x, gf0, gf1) (rev [0..<255]) = (a, b, c, d)"
    by (cases "foldl (\<lambda>s i. ladder_step ?x s (scalar_bit (clamp n) i)) (gf1, ?x, gf0, gf1) (rev [0..<255])")
  define v where "v = foldl (rfc_step ?k (fe ?x)) (False, (1, 0, fe ?x, 1)) (rev [0..<255])"
  have "ladder_rel (gf1, ?x, gf0, gf1) (rfc_swap (fst (False, (1, 0, fe ?x, 1))) (snd (False, (1, 0, fe ?x, 1))))"
    using gfb_consts(2,3) gfb_mono [OF x(1), of "2 ^ 17"] by (simp add: ladder_rel_def rfc_swap_def fe_consts)
  moreover have "\<forall>i \<in> set (rev [0..<255]). scalar_bit (clamp n) i = (if odd (?k div 2 ^ i) then 1 else 0)"
    unfolding decode_scalar_def by (intro ballI scalar_bit_eq) (simp add: length_clamp assms(1))
  ultimately have "ladder_rel (a, b, c, d) (rfc_swap (fst v) (snd v))"
    using ladder_loop [OF _ x(1)] s unfolding v_def by metis
  then have r: "small a" "small c" "rfc_swap (fst v) (snd v) = (fe a, fe c, fe b, fe d)"
    unfolding ladder_rel_def by (auto intro: small_gfb(2))
  have m: "reduced (M25519 a (inv25519 c))" "fe (M25519 a (inv25519 c)) = fmul (fe a) (fpow (fe c) (p25519 - 2))"
    using M25519_fe [OF r(1) reduced_small [OF inv25519_fe(1) [OF r(2)]]] by (simp_all add: fpow_fe r(2) fmul_def)
  have "crypto_scalarmult stack n p = pack25519 stack (M25519 a (inv25519 c))"
    by (simp add: crypto_scalarmult_def Let_def s)
  also have "\<dots> = le_bytes 32 (fe (M25519 a (inv25519 c)))"
    unfolding fe_def by (rule pack25519_eq [OF gfb_mono [OF gfb_reduced [OF m(1)]] assms(3)]) simp
  also have "fe (M25519 a (inv25519 c)) = rfc_x25519 ?k (fe ?x)"
    unfolding m(2) rfc_x25519_def v_def [symmetric] Let_def by (cases v) (use r(3) in simp)
  finally show ?thesis by (simp only: x(2))
qed

lemma crypto_scalarmult_rfc7748_witness:
  "crypto_scalarmult (replicate 16 7) (replicate 32 1) curve25519_basepoint =
   le_bytes 32 (rfc_x25519 (decode_scalar (replicate 32 1)) 9)"
proof -
  have "bytes_val (replicate k 0) = 0" for k by (induction k) simp_all
  then have "bytes_val curve25519_basepoint mod 2 ^ 255 mod p25519 = 9"
    by (simp add: curve25519_basepoint_def p25519_def)
  then show ?thesis
    using crypto_scalarmult_rfc7748 [of "replicate 32 1" curve25519_basepoint "replicate 16 7"]
    by (simp add: curve25519_basepoint_def)
qed

end
