(* ===== verification/Scalar25519.thy ===== *)
theory Scalar25519
  imports Gf25519
begin

text \<open>
  The reduction of a 512-bit hash modulo the order of the base point (\<open>modL\<close> and \<open>reduce\<close> of
  \<open>src/crypto_ed25519.c\<close>), on 64 signed digits to the base 256. The theory shows that the digits
  never overflow and that the result is the canonical remainder.
\<close>

section \<open>Definitions\<close>

definition L_bytes :: "int list" where
  "L_bytes = [0xed, 0xd3, 0xf5, 0x5c, 0x1a, 0x63, 0x12, 0x58, 0xd6, 0x9c, 0xf7, 0xa2, 0xde, 0xf9, 0xde, 0x14,
    0, 0, 0, 0, 0, 0, 0, 0, 0, 0, 0, 0, 0, 0, 0, 0x10]"

definition modL_high :: "nat \<Rightarrow> int list \<times> int \<Rightarrow> nat \<Rightarrow> int list \<times> int" where
  "modL_high i s j = (case s of (x, carry) \<Rightarrow>
     let x = x[j := s64 (x ! j + (carry - 16 * x ! i * L_bytes ! (j - (i - 32))))];
         carry = drop_bit 8 (s64 (x ! j + 128))
     in (x[j := s64 (x ! j - push_bit 8 carry)], carry))"

definition modL_row :: "int list \<Rightarrow> nat \<Rightarrow> int list" where
  "modL_row x i = (case foldl (modL_high i) (x, 0) [i - 32..<i - 12] of (x, carry) \<Rightarrow>
     x[i - 12 := s64 (x ! (i - 12) + carry), i := 0])"

definition modL_low :: "int list \<times> int \<Rightarrow> nat \<Rightarrow> int list \<times> int" where
  "modL_low s j = (case s of (x, carry) \<Rightarrow>
     let x = x[j := s64 (x ! j + (carry - drop_bit 4 (x ! 31) * L_bytes ! j))]
     in (x[j := x ! j AND 255], drop_bit 8 (x ! j)))"

definition modL_out :: "int list \<times> u8 list \<Rightarrow> nat \<Rightarrow> int list \<times> u8 list" where
  "modL_out s i = (case s of (x, r) \<Rightarrow>
     (x[i + 1 := s64 (x ! (i + 1) + drop_bit 8 (x ! i))], r @ [word_of_int (x ! i AND 255)]))"

definition modL :: "int list \<Rightarrow> u8 list" where
  "modL x =
     (let x = foldl modL_row x (rev [32..<64]);
          (x, carry) = foldl modL_low (x, 0) [0..<32];
          x = foldl (\<lambda>x j. x[j := s64 (x ! j - carry * L_bytes ! j)]) x [0..<32]
      in snd (foldl modL_out (x, []) [0..<32]))"

definition reduce :: "u8 list \<Rightarrow> u8 list" where
  "reduce r = modL (map uint r)"


section \<open>What the digits stand for\<close>

definition L25519 :: int where
  "L25519 = 2 ^ 252 + 27742317777372353535851937790883648493"

definition dval :: "int list \<Rightarrow> int" where
  "dval x = (\<Sum>k < length x. x ! k * 256 ^ k)"

lemma dval_upd: "k < length x \<Longrightarrow> dval (x[k := v]) = dval x + (v - x ! k) * 256 ^ k"
proof -
  assume k: "k < length x"
  have "dval (x[k := v]) = (\<Sum>i < length x. x ! i * 256 ^ i + (if i = k then (v - x ! k) * 256 ^ k else 0))"
    unfolding dval_def by (simp, rule sum.cong) (auto simp: nth_list_update algebra_simps)
  also have "\<dots> = dval x + (v - x ! k) * 256 ^ k"
    using k by (simp add: sum.distrib dval_def)
  finally show ?thesis .
qed

lemma dval_Nil [simp]: "dval [] = 0"
  by (simp add: dval_def)

lemma dval_Cons: "dval (d # x) = d + 256 * dval x"
  by (simp add: dval_def sum.lessThan_Suc_shift sum_distrib_left algebra_simps del: sum.lessThan_Suc)

lemma dval_bytes: "dval (map uint r) = bytes_val r"
  by (induction r) (simp_all add: dval_Cons)

lemma dval_L: "dval L_bytes = L25519"
  by (simp add: L_bytes_def L25519_def dval_Cons)

section \<open>The rows of the upper half\<close>

lemma centred_digit:
  fixes y :: int
  shows "- 128 \<le> y - 256 * ((y + 128) div 256)" "y - 256 * ((y + 128) div 256) \<le> 127"
  by presburger+

text \<open>The bound of the carry in front of the \<open>n\<close>-th digit of a row.\<close>

definition row_carry :: "nat \<Rightarrow> int" where
  "row_carry n = (if n \<le> 16 then 5000 else if n = 17 then 22 else 1)"

lemma modL_high_step:
  assumes "length x = 64" "32 \<le> i" "i < 64" "j = i - 32 + n" "n < 20"
    and "\<bar>x ! i\<bar> \<le> 256" "\<bar>x ! j\<bar> \<le> 256" "\<bar>c\<bar> \<le> row_carry n"
  shows "\<exists>v c'. modL_high i (x, c) j = (x[j := v], c') \<and> - 128 \<le> v \<and> v \<le> 127 \<and> \<bar>c'\<bar> \<le> row_carry (Suc n) \<and>
    v + 256 * c' = x ! j + c - 16 * x ! i * L_bytes ! n"
proof -
  define y where "y = x ! j + (c - 16 * x ! i * L_bytes ! n)"
  have L: "0 \<le> L_bytes ! n \<and> L_bytes ! n \<le> 255 \<and> (n \<ge> 16 \<longrightarrow> L_bytes ! n = 0)"
    using assms(5) by (auto simp: L_bytes_def nth_Cons' less_Suc_eq eval_nat_numeral)
  have jn: "j - (i - 32) = n" and j64: "j < length x" using assms(1-5) by linarith+
  have "\<bar>x ! i * L_bytes ! n\<bar> \<le> 256 * 255"
    unfolding abs_mult using L assms(6) by (intro mult_mono) auto
  moreover have "\<bar>c\<bar> \<le> 5000" using assms(8) by (auto simp: row_carry_def split: if_splits)
  ultimately have y: "\<bar>y\<bar> \<le> 16 * (256 * 255) + 256 + 5000" unfolding y_def using assms(7) by linarith
  have s: "s64 y = y" "s64 (y + 128) = y + 128" using y by (auto intro!: s64_id)
  define c' where "c' = (y + 128) div 256"
  have c: "\<bar>c'\<bar> \<le> 5000" unfolding c'_def using y by linarith
  have c17: "\<bar>c'\<bar> \<le> row_carry (Suc n)" if "16 \<le> n"
  proof -
    have "y = x ! j + c" using that L by (simp add: y_def)
    then show ?thesis using that assms(5,7,8) unfolding c'_def row_carry_def by (auto split: if_splits)
  qed
  have "s64 (y - push_bit 8 c') = s64 (y - 256 * c')" by (simp add: push_bit_eq_mult mult.commute)
  also have "\<dots> = y - 256 * c'" using centred_digit [of y] unfolding c'_def by (intro s64_id) auto
  finally have "s64 (y - push_bit 8 c') = y - 256 * c'" .
  then have "modL_high i (x, c) j = (x[j := y - 256 * c'], c')"
    unfolding modL_high_def prod.case Let_def jn y_def [symmetric] using j64 s
    by (simp add: drop_bit_eq_div c'_def)
  moreover have "\<bar>c'\<bar> \<le> row_carry (Suc n)" using c c17 by (cases "16 \<le> n") (auto simp: row_carry_def)
  ultimately show ?thesis using centred_digit [of y] by (auto simp: c'_def y_def)
qed


lemma modL_high_loop:
  assumes "length x = 64" "32 \<le> i" "i < 64" "n \<le> 20" "\<forall>k < 64. \<bar>x ! k\<bar> \<le> 256"
  shows "\<exists>x' c. foldl (modL_high i) (x, 0) [i - 32..<i - 32 + n] = (x', c) \<and> length x' = 64 \<and> \<bar>c\<bar> \<le> row_carry n \<and>
    (\<forall>k < 64. if i - 32 \<le> k \<and> k < i - 32 + n then - 128 \<le> x' ! k \<and> x' ! k \<le> 127 else x' ! k = x ! k) \<and>
    dval x' + c * 256 ^ (i - 32 + n) = dval x - 16 * x ! i * (\<Sum>m < n. L_bytes ! m * 256 ^ (i - 32 + m))"
  using assms(4)
proof (induction n)
  case 0
  show ?case using assms(1) by (auto simp: row_carry_def)
next
  case (Suc n)
  define j where "j = i - 32 + n"
  obtain x' c where IH: "foldl (modL_high i) (x, 0) [i - 32..<j] = (x', c)" "length x' = 64" "\<bar>c\<bar> \<le> row_carry n"
      "\<forall>k < 64. if i - 32 \<le> k \<and> k < j then - 128 \<le> x' ! k \<and> x' ! k \<le> 127 else x' ! k = x ! k"
      "dval x' + c * 256 ^ j = dval x - 16 * x ! i * (\<Sum>m < n. L_bytes ! m * 256 ^ (i - 32 + m))"
    using Suc unfolding j_def by auto
  have j: "j < 64" "j < i" using assms(2,3) Suc.prems unfolding j_def by linarith+
  have x: "x' ! i = x ! i" "x' ! j = x ! j" using IH(4) assms(3) j by (auto simp: j_def)
  obtain v c' where st: "modL_high i (x', c) j = (x'[j := v], c')" "- 128 \<le> v" "v \<le> 127" "\<bar>c'\<bar> \<le> row_carry (Suc n)"
      "v + 256 * c' = x' ! j + c - 16 * x' ! i * L_bytes ! n"
    using modL_high_step [OF IH(2) assms(2,3) j_def _ _ _ IH(3)] Suc.prems assms(3,5) j x by auto
  have v: "v - x' ! j = c - 16 * x ! i * L_bytes ! n - 256 * c'" using st(5) x by simp
  have "dval (x'[j := v]) + c' * 256 ^ Suc j = dval x' + (v - x' ! j) * 256 ^ j + c' * 256 ^ Suc j"
    using j IH(2) by (simp add: dval_upd)
  also have "\<dots> = dval x' + c * 256 ^ j - 16 * x ! i * (L_bytes ! n * 256 ^ j)"
    unfolding v by (simp add: algebra_simps)
  also have "\<dots> = dval x - 16 * x ! i * (\<Sum>m < Suc n. L_bytes ! m * 256 ^ (i - 32 + m))"
    unfolding IH(5) by (simp add: algebra_simps j_def)
  finally have "dval (x'[j := v]) + c' * 256 ^ Suc j = dval x - 16 * x ! i * (\<Sum>m < Suc n. L_bytes ! m * 256 ^ (i - 32 + m))" .
  moreover have "[i - 32..<i - 32 + Suc n] = [i - 32..<j] @ [j]" by (simp add: j_def)
  ultimately show ?case using IH st j by (auto simp: nth_list_update j_def split: if_splits)
qed

text \<open>The range of the digits when rows \<open>i\<close> and below are still to be processed.\<close>

definition digit_range :: "nat \<Rightarrow> nat \<Rightarrow> int \<Rightarrow> bool" where
  "digit_range i k d \<longleftrightarrow>
     (if k \<ge> i then d = 0
      else if i = 64 \<or> k + 32 < i then 0 \<le> d \<and> d \<le> 255
      else if k \<ge> 51 then - 1 \<le> d \<and> d \<le> 256
      else if k + 12 < i then - 128 \<le> d \<and> d \<le> 127
      else - 129 \<le> d \<and> d \<le> 128)"

lemma digit_range_abs: "digit_range i k d \<Longrightarrow> \<bar>d\<bar> \<le> 256"
  by (auto simp: digit_range_def split: if_splits)

lemma L_low: "(\<Sum>m < 20. L_bytes ! m * 256 ^ (a + m)) = 256 ^ a * (L25519 - 16 * 256 ^ 31)"
proof -
  have "(\<Sum>m < 20. L_bytes ! m * 256 ^ m) = L25519 - 16 * 256 ^ 31"
    by (simp add: L_bytes_def L25519_def eval_nat_numeral)
  moreover have "(\<Sum>m < 20. L_bytes ! m * 256 ^ (a + m)) = 256 ^ a * (\<Sum>m < 20. L_bytes ! m * 256 ^ m)"
    unfolding sum_distrib_left by (rule sum.cong) (simp_all add: power_add)
  ultimately show ?thesis by (simp only:)
qed

lemma modL_row_spec:
  assumes "length x = 64" "32 \<le> i" "i < 64" "\<forall>k < 64. digit_range (Suc i) k (x ! k)"
  shows "length (modL_row x i) = 64 \<and> (\<forall>k < 64. digit_range i k (modL_row x i ! k)) \<and>
    dval (modL_row x i) mod L25519 = dval x mod L25519"
proof -
  have "\<forall>k < 64. \<bar>x ! k\<bar> \<le> 256" using assms(4) digit_range_abs by blast
  from modL_high_loop [OF assms(1-3) _ this, of 20] obtain x' c where
    f: "foldl (modL_high i) (x, 0) [i - 32..<i - 12] = (x', c)" "length x' = 64" "\<bar>c\<bar> \<le> 1"
      "\<forall>k < 64. if i - 32 \<le> k \<and> k < i - 12 then - 128 \<le> x' ! k \<and> x' ! k \<le> 127 else x' ! k = x ! k"
      "dval x' + c * 256 ^ (i - 12) = dval x - 16 * x ! i * (\<Sum>m < 20. L_bytes ! m * 256 ^ (i - 32 + m))"
    using assms(2) by (auto simp: row_carry_def)
  define y where "y = x' ! (i - 12) + c"
  have x'12: "x' ! (i - 12) = x ! (i - 12)" "x' ! i = x ! i" using f(4) assms(3) by auto
  have "digit_range (Suc i) (i - 12) (x ! (i - 12))" using assms(3,4) by simp
  then have y: "digit_range i (i - 12) y" using f(3) assms(2,3) x'12
    by (auto simp: y_def digit_range_def split: if_splits)
  then have "s64 y = y" using digit_range_abs [OF y] by (intro s64_id) auto
  then have row: "modL_row x i = x'[i - 12 := y, i := 0]" by (simp add: modL_row_def f(1) y_def)
  have "digit_range i k (x'[i - 12 := y, i := 0] ! k)" if k: "k < 64" for k
  proof -
    have "digit_range (Suc i) k (x ! k)" using assms(4) k by simp
    moreover have "if i - 32 \<le> k \<and> k < i - 12 then - 128 \<le> x' ! k \<and> x' ! k \<le> 127 else x' ! k = x ! k" using f(4) k by simp
    ultimately show ?thesis using y assms(2,3) k f(2)
      by (auto simp: nth_list_update digit_range_def split: if_splits)
  qed
  moreover have "dval (modL_row x i) = dval x - 16 * x ! i * 256 ^ (i - 32) * L25519"
  proof -
    have "(256 :: int) ^ i = 256 ^ (i - 32) * 256 ^ 32" using assms(2) power_add [of "256 :: int" "i - 32" 32] by (simp only: le_add_diff_inverse2)
    then have pw: "x ! i * 256 ^ i = 16 * x ! i * (256 ^ (i - 32) * (16 * 256 ^ 31))" by simp
    have "dval (modL_row x i) = dval x' + c * 256 ^ (i - 12) - x ! i * 256 ^ i"
      using assms(2,3) f(2) x'12 by (simp add: row dval_upd y_def)
    also have "\<dots> = dval x - 16 * x ! i * (256 ^ (i - 32) * (L25519 - 16 * 256 ^ 31)) - 16 * x ! i * (256 ^ (i - 32) * (16 * 256 ^ 31))"
      unfolding f(5) L_low pw ..
    also have "\<dots> = dval x - 16 * x ! i * 256 ^ (i - 32) * L25519"
      by (simp only: right_diff_distrib mult.assoc)
    finally show ?thesis .
  qed
  moreover have "(dval x - 16 * x ! i * 256 ^ (i - 32) * L25519) mod L25519 = dval x mod L25519"
    by (simp add: mod_diff_eq [symmetric])
  ultimately show ?thesis by (simp add: row f(2))
qed

lemma modL_rows:
  assumes "length x = 64" "\<forall>k < 64. digit_range 64 k (x ! k)" "n \<le> 32"
  shows "length (foldl modL_row x (rev [64 - n..<64])) = 64 \<and>
    (\<forall>k < 64. digit_range (64 - n) k (foldl modL_row x (rev [64 - n..<64]) ! k)) \<and>
    dval (foldl modL_row x (rev [64 - n..<64])) mod L25519 = dval x mod L25519"
  using assms(3)
proof (induction n)
  case (Suc n)
  define i where "i = 64 - Suc n"
  have i: "32 \<le> i" "i < 64" "Suc i = 64 - n" using Suc.prems by (auto simp: i_def)
  have "[i..<64] = i # [64 - n..<64]" using i by (simp add: upt_rec [of i])
  then have "foldl modL_row x (rev [i..<64]) = modL_row (foldl modL_row x (rev [64 - n..<64])) i" by simp
  then show ?case
    using modL_row_spec [of "foldl modL_row x (rev [64 - n..<64])" i] Suc i unfolding i_def [symmetric] by simp
qed (use assms in simp)

section \<open>The lower half\<close>

lemma L_bytes_nth: "n < 32 \<Longrightarrow> 0 \<le> L_bytes ! n \<and> L_bytes ! n \<le> 255"
  by (auto simp: L_bytes_def nth_Cons' less_Suc_eq eval_nat_numeral)

lemma and_255: "(y :: int) AND 255 = y mod 256"
  using take_bit_eq_mask [of 8 y] by (simp add: take_bit_eq_mod mask_eq_exp_minus_1)

lemma modL_low_loop:
  assumes "length x = 64" "\<forall>k < 32. \<bar>x ! k\<bar> \<le> 256" "n \<le> 32"
  shows "\<exists>x' c. foldl modL_low (x, 0) [0..<n] = (x', c) \<and> length x' = 64 \<and> \<bar>c\<bar> \<le> 50 \<and>
    (\<forall>k < 64. if k < n then 0 \<le> x' ! k \<and> x' ! k \<le> 255 else x' ! k = x ! k) \<and>
    dval x' + c * 256 ^ n = dval x - drop_bit 4 (x ! 31) * (\<Sum>m < n. L_bytes ! m * 256 ^ m)"
  using assms(3)
proof (induction n)
  case 0
  show ?case using assms(1) by auto
next
  case (Suc n)
  define t where "t = drop_bit 4 (x ! 31)"
  have n: "n < 32" "n < 64" using Suc.prems by auto
  obtain x' c where IH: "foldl modL_low (x, 0) [0..<n] = (x', c)" "length x' = 64" "\<bar>c\<bar> \<le> 50"
      "\<forall>k < 64. if k < n then 0 \<le> x' ! k \<and> x' ! k \<le> 255 else x' ! k = x ! k"
      "dval x' + c * 256 ^ n = dval x - t * (\<Sum>m < n. L_bytes ! m * 256 ^ m)"
    using Suc unfolding t_def by auto
  have x: "x' ! 31 = x ! 31" "x' ! n = x ! n" "\<bar>x ! n\<bar> \<le> 256" using IH(4) n assms(2) by auto
  have "\<bar>x ! 31\<bar> \<le> 256" using assms(2) by simp
  then have t: "\<bar>t\<bar> \<le> 16" unfolding t_def drop_bit_eq_div by (simp add: abs_le_iff) linarith
  define y where "y = x ! n + (c - t * L_bytes ! n)"
  have "\<bar>t * L_bytes ! n\<bar> \<le> 16 * 255"
    unfolding abs_mult using L_bytes_nth [OF n(1)] t by (intro mult_mono) auto
  then have y: "\<bar>y\<bar> \<le> 16 * 255 + 256 + 50" unfolding y_def using IH(3) x(3) by linarith
  then have "s64 y = y" by (intro s64_id) auto
  then have st: "modL_low (x', c) n = (x'[n := y mod 256], y div 256)"
    unfolding modL_low_def prod.case Let_def x t_def [symmetric] y_def [symmetric]
    using IH(2) n by (simp add: drop_bit_eq_div and_255)
  have c: "\<bar>y div 256\<bar> \<le> 50" using y by (simp add: abs_le_iff) linarith
  have v: "y mod 256 = y - 256 * (y div 256)" by (simp add: minus_mult_div_eq_mod)
  have "dval (x'[n := y mod 256]) + y div 256 * 256 ^ Suc n = dval x' + (y mod 256 - x ! n) * 256 ^ n + y div 256 * 256 ^ Suc n"
    using n IH(2) x by (simp add: dval_upd)
  also have "\<dots> = dval x' + (y - x ! n) * 256 ^ n" unfolding v by (simp add: algebra_simps)
  also have "\<dots> = dval x' + c * 256 ^ n - t * (L_bytes ! n * 256 ^ n)" by (simp add: y_def algebra_simps)
  also have "\<dots> = dval x - t * (\<Sum>m < Suc n. L_bytes ! m * 256 ^ m)"
    unfolding IH(5) by (simp add: algebra_simps)
  finally have "dval (x'[n := y mod 256]) + y div 256 * 256 ^ Suc n = dval x - t * (\<Sum>m < Suc n. L_bytes ! m * 256 ^ m)" .
  then show ?case using IH st n c unfolding t_def by (auto simp: nth_list_update split: if_splits)
qed

lemma modL_sub_loop:
  assumes "length x = 64" "\<forall>k < 32. 0 \<le> x ! k \<and> x ! k \<le> 255" "\<bar>c\<bar> \<le> 50" "n \<le> 32"
  shows "\<exists>x'. foldl (\<lambda>x j. x[j := s64 (x ! j - c * L_bytes ! j)]) x [0..<n] = x' \<and> length x' = 64 \<and>
    (\<forall>k < 64. if k < n then \<bar>x' ! k\<bar> \<le> 20000 else x' ! k = x ! k) \<and>
    dval x' = dval x - c * (\<Sum>m < n. L_bytes ! m * 256 ^ m)"
  using assms(4)
proof (induction n)
  case (Suc n)
  then obtain x' where IH: "foldl (\<lambda>x j. x[j := s64 (x ! j - c * L_bytes ! j)]) x [0..<n] = x'" "length x' = 64"
      "\<forall>k < 64. if k < n then \<bar>x' ! k\<bar> \<le> 20000 else x' ! k = x ! k"
      "dval x' = dval x - c * (\<Sum>m < n. L_bytes ! m * 256 ^ m)"
    by auto
  have n: "n < 32" "n < 64" using Suc.prems by auto
  have x: "x' ! n = x ! n" "0 \<le> x ! n" "x ! n \<le> 255" using IH(3) n assms(2) by auto
  have "\<bar>c * L_bytes ! n\<bar> \<le> 50 * 255"
    unfolding abs_mult using L_bytes_nth [OF n(1)] assms(3) by (intro mult_mono) auto
  then have b: "\<bar>x ! n - c * L_bytes ! n\<bar> \<le> 20000" using x by linarith
  then have "s64 (x ! n - c * L_bytes ! n) = x ! n - c * L_bytes ! n" by (intro s64_id) auto
  then have st: "foldl (\<lambda>x j. x[j := s64 (x ! j - c * L_bytes ! j)]) x [0..<Suc n] = x'[n := x ! n - c * L_bytes ! n]"
    using IH(1) x by simp
  have "dval (x'[n := x ! n - c * L_bytes ! n]) = dval x' - c * (L_bytes ! n * 256 ^ n)"
    using IH(2) n x by (simp add: dval_upd)
  then have "dval (x'[n := x ! n - c * L_bytes ! n]) = dval x - c * (\<Sum>m < Suc n. L_bytes ! m * 256 ^ m)"
    unfolding IH(4) by (simp add: algebra_simps)
  then show ?case unfolding st using IH(2,3) n b by (auto simp: nth_list_update split: if_splits)
qed (use assms in auto)

lemma word8_cong: "k mod 256 = l mod 256 \<Longrightarrow> (word_of_int k :: u8) = word_of_int l"
  by (simp only: word_of_int_eq_iff) (simp add: take_bit_eq_mod)

lemma le_bytes_snoc: "le_bytes (Suc n) v = le_bytes n v @ [word_of_int (v div 256 ^ n)]"
proof (induction n arbitrary: v)
  case (Suc n)
  have "v div 256 div 256 ^ n = v div 256 ^ Suc n" by (simp add: zdiv_zmult2_eq)
  with Suc show ?case by simp
qed simp

lemma modL_out_loop:
  assumes "length x = 64" "\<forall>k < 32. \<bar>x ! k\<bar> \<le> 20000" "\<forall>k < 64. 32 \<le> k \<longrightarrow> x ! k = 0" "n \<le> 32"
  shows "\<exists>x'. foldl modL_out (x, []) [0..<n] = (x', le_bytes n (dval x)) \<and> length x' = 64 \<and>
    (\<forall>k < 64. if k \<le> n then \<bar>x' ! k\<bar> \<le> 30000 else x' ! k = x ! k) \<and> dval (drop n x') = dval x div 256 ^ n"
  using assms(4)
proof (induction n)
  case 0
  show ?case using assms(1,2) by fastforce
next
  case (Suc n)
  then obtain x' where IH: "foldl modL_out (x, []) [0..<n] = (x', le_bytes n (dval x))" "length x' = 64"
      "\<forall>k < 64. if k \<le> n then \<bar>x' ! k\<bar> \<le> 30000 else x' ! k = x ! k" "dval (drop n x') = dval x div 256 ^ n"
    by auto
  have n: "n < 32" "n < 64" "Suc n < 64" using Suc.prems by auto
  have "\<bar>x ! Suc n\<bar> \<le> 20000" using assms(2,3) n by (cases "Suc n < 32") auto
  then have x: "\<bar>x' ! n\<bar> \<le> 30000" "x' ! Suc n = x ! Suc n" "\<bar>x' ! Suc n\<bar> \<le> 20000" using IH(3) n by auto
  define y where "y = x' ! Suc n + x' ! n div 256"
  have y: "\<bar>y\<bar> \<le> 30000" using x unfolding y_def by linarith
  then have "s64 y = y" by (intro s64_id) auto
  then have st: "modL_out (x', le_bytes n (dval x)) n = (x'[Suc n := y], le_bytes n (dval x) @ [word_of_int (x' ! n AND 255)])"
    by (simp add: modL_out_def drop_bit_eq_div y_def)
  have d: "drop n x' = x' ! n # drop (Suc n) x'" using IH(2) n by (simp add: Cons_nth_drop_Suc)
  then have v: "dval x div 256 ^ n = x' ! n + 256 * dval (drop (Suc n) x')" using IH(4) by (simp add: dval_Cons)
  have "dval (drop (Suc n) (x'[Suc n := y])) = dval (drop (Suc n) x') + x' ! n div 256"
    using IH(2) n by (simp add: drop_update_swap dval_upd y_def)
  also have "\<dots> = dval x div 256 ^ Suc n"
  proof -
    have "dval x div 256 ^ Suc n = dval x div 256 ^ n div 256" by (simp add: zdiv_zmult2_eq power_Suc2 del: power_Suc)
    then show ?thesis unfolding v by simp
  qed
  finally have dv: "dval (drop (Suc n) (x'[Suc n := y])) = dval x div 256 ^ Suc n" .
  have "(word_of_int (x' ! n AND 255) :: u8) = word_of_int (x' ! n)"
    unfolding and_255 by (rule word8_cong) simp
  also have "\<dots> = word_of_int (dval x div 256 ^ n)"
    unfolding v by (rule word8_cong) simp
  finally have "le_bytes (Suc n) (dval x) = le_bytes n (dval x) @ [word_of_int (x' ! n AND 255)]"
    by (simp only: le_bytes_snoc)
  then show ?case using IH(1-3) st dv y n by (auto simp: nth_list_update split: if_splits)
qed

section \<open>The remainder\<close>

lemma sum_digits_bound:
  fixes d :: "nat \<Rightarrow> int"
  assumes "\<forall>k < n. \<bar>d k\<bar> \<le> B"
  shows "255 * \<bar>\<Sum>k < n. d k * 256 ^ k\<bar> \<le> B * (256 ^ n - 1)"
  using assms
proof (induction n)
  case (Suc n)
  have "\<bar>d n * 256 ^ n\<bar> \<le> B * 256 ^ n" using Suc.prems by (simp add: abs_mult mult_right_mono)
  moreover have "255 * \<bar>\<Sum>k < n. d k * 256 ^ k\<bar> \<le> B * 256 ^ n - B" using Suc by (simp add: algebra_simps)
  moreover have "B * (256 ^ Suc n - 1) = 256 * (B * 256 ^ n) - B" by (simp add: algebra_simps)
  ultimately show ?case using abs_triangle_ineq [of "\<Sum>k < n. d k * 256 ^ k" "d n * 256 ^ n"] by simp
qed simp

lemma dval_low:
  assumes "length x = 64" "\<forall>k < 64. 32 \<le> k \<longrightarrow> x ! k = 0"
  shows "dval x = (\<Sum>k < 32. x ! k * 256 ^ k)"
  unfolding dval_def assms(1) by (rule sum.mono_neutral_cong_right) (use assms(2) in auto)

lemma le_bytes_add: "le_bytes n (v + 256 ^ n * k) = le_bytes n v"
proof (induction n arbitrary: v)
  case (Suc n)
  have "v + 256 ^ Suc n * k = v + 256 * (256 ^ n * k)" by simp
  then have "(v + 256 ^ Suc n * k) div 256 = v div 256 + 256 ^ n * k" by simp
  moreover have "(word_of_int (v + 256 ^ Suc n * k) :: u8) = word_of_int v"
    by (rule word8_cong) (simp add: mod_add_eq [symmetric] mult.assoc)
  ultimately show ?case using Suc by simp
qed simp

lemma sum_L: "(\<Sum>m < 32. L_bytes ! m * 256 ^ m) = L25519"
proof -
  have "length L_bytes = 32" by (simp add: L_bytes_def)
  then show ?thesis using dval_L unfolding dval_def by (simp only:)
qed

lemma quotient_range:
  assumes "\<forall>k < 32. - 129 \<le> x ! k \<and> x ! k \<le> 128"
  defines "R \<equiv> (\<Sum>k < 32. x ! k * 256 ^ k) - drop_bit 4 (x ! 31) * L25519"
  shows "- L25519 < R" "R < L25519"
proof -
  define low where "low = (\<Sum>k < 31. x ! k * 256 ^ k)"
  define t where "t = x ! 31 div 16"
  have "\<bar>x ! k\<bar> \<le> 129" if "k < 31" for k
  proof -
    have "- 129 \<le> x ! k \<and> x ! k \<le> 128" using assms(1) that by auto
    then show ?thesis by linarith
  qed
  then have "255 * \<bar>low\<bar> \<le> 129 * (256 ^ 31 - 1)" unfolding low_def by (intro sum_digits_bound) blast
  moreover have "R = low + (x ! 31 mod 16) * 256 ^ 31 - t * 27742317777372353535851937790883648493"
  proof -
    have "(\<Sum>k < 32. x ! k * 256 ^ k) = low + x ! 31 * 256 ^ 31"
      using sum.lessThan_Suc [of "\<lambda>k. x ! k * 256 ^ k" 31] by (simp only: low_def Suc_numeral semiring_norm)
    moreover have "x ! 31 = 16 * t + x ! 31 mod 16" by (simp add: t_def)
    ultimately have "R = low + (16 * t + x ! 31 mod 16) * 256 ^ 31 - t * L25519"
      by (simp only: R_def drop_bit_eq_div t_def) simp
    then show ?thesis by (simp add: L25519_def algebra_simps)
  qed
  moreover have "- 9 \<le> t" "t \<le> 8" using assms(1) [rule_format, of 31] unfolding t_def by linarith+
  moreover have "0 \<le> x ! 31 mod 16" "x ! 31 mod 16 \<le> 15" by simp_all
  ultimately show "- L25519 < R" "R < L25519" unfolding L25519_def by simp_all
qed

lemma modL_eq:
  assumes "length x = 64" "\<forall>k < 64. 0 \<le> x ! k \<and> x ! k \<le> 255"
  shows "modL x = le_bytes 32 (dval x mod L25519)"
proof -
  define x1 where "x1 = foldl modL_row x (rev [32..<64])"
  have "\<forall>k < 64. digit_range 64 k (x ! k)" using assms(2) by (simp add: digit_range_def)
  note rows = modL_rows [OF assms(1) this order_refl]
  have "64 - 32 = (32 :: nat)" by simp
  with rows have x1: "length x1 = 64 \<and> (\<forall>k < 64. digit_range 32 k (x1 ! k)) \<and> dval x1 mod L25519 = dval x mod L25519"
    unfolding x1_def by metis
  then have l1: "length x1 = 64" by blast
  have r1: "\<forall>k < 64. 32 \<le> k \<longrightarrow> x1 ! k = 0" "\<forall>k < 32. - 129 \<le> x1 ! k \<and> x1 ! k \<le> 128"
  proof -
    have "digit_range 32 k (x1 ! k)" if "k < 64" for k using x1 that by blast
    note d = this [unfolded digit_range_def]
    show "\<forall>k < 64. 32 \<le> k \<longrightarrow> x1 ! k = 0" using d by auto
    show "\<forall>k < 32. - 129 \<le> x1 ! k \<and> x1 ! k \<le> 128"
    proof (intro allI impI)
      fix k :: nat assume "k < 32"
      then show "- 129 \<le> x1 ! k \<and> x1 ! k \<le> 128" using d [of k] by (auto split: if_splits)
    qed
  qed
  define R where "R = dval x1 - drop_bit 4 (x1 ! 31) * L25519"
  have R: "- L25519 < R" "R < L25519"
    using quotient_range [OF r1(2)] by (simp_all only: R_def dval_low [OF l1 r1(1)])
  have "\<forall>k < 32. \<bar>x1 ! k\<bar> \<le> 256" using r1(2) by (auto simp: abs_le_iff)
  from modL_low_loop [OF l1 this order_refl] obtain x2 c where f2: "foldl modL_low (x1, 0) [0..<32] = (x2, c)"
    and x2: "length x2 = 64" "\<bar>c\<bar> \<le> 50"
      "\<forall>k < 64. if k < 32 then 0 \<le> x2 ! k \<and> x2 ! k \<le> 255 else x2 ! k = x1 ! k" "dval x2 + c * 256 ^ 32 = R"
    unfolding sum_L R_def by blast
  define x3 where "x3 = foldl (\<lambda>x j. x[j := s64 (x ! j - c * L_bytes ! j)]) x2 [0..<32]"
  have "\<forall>k < 32. 0 \<le> x2 ! k \<and> x2 ! k \<le> 255" using x2(3) by auto
  from modL_sub_loop [OF x2(1) this x2(2) order_refl]
  have x3: "length x3 = 64" "\<forall>k < 64. if k < 32 then \<bar>x3 ! k\<bar> \<le> 20000 else x3 ! k = x2 ! k" "dval x3 = dval x2 - c * L25519"
    unfolding sum_L x3_def by blast+
  have "\<forall>k < 32. \<bar>x3 ! k\<bar> \<le> 20000" "\<forall>k < 64. 32 \<le> k \<longrightarrow> x3 ! k = 0" using x3(2) x2(3) r1(1) by auto
  from modL_out_loop [OF x3(1) this order_refl]
  have "\<exists>x'. foldl modL_out (x3, []) [0..<32] = (x', le_bytes 32 (dval x3))" by blast
  then have m: "modL x = le_bytes 32 (dval x3)"
    unfolding modL_def Let_def x1_def [symmetric] f2 prod.case x3_def [symmetric] by (metis snd_conv)
  have d2: "0 \<le> dval x2" "dval x2 < 256 ^ 32"
  proof -
    have e: "dval x2 = (\<Sum>k < 32. x2 ! k * 256 ^ k)" using x2(3) r1(1) by (intro dval_low [OF x2(1)]) auto
    show "0 \<le> dval x2" unfolding e by (rule sum_nonneg) (use x2(3) in auto)
    have "255 * \<bar>\<Sum>k < 32. x2 ! k * 256 ^ k\<bar> \<le> 255 * (256 ^ 32 - 1)"
      by (rule sum_digits_bound) (use x2(3) in auto)
    then show "dval x2 < 256 ^ 32" unfolding e by simp
  qed
  have RV: "R mod L25519 = dval x mod L25519"
    using x1 unfolding R_def by (simp add: mod_diff_eq [symmetric])
  have "- 2 < c" "c < 1" using R d2 x2(4) unfolding L25519_def by simp_all
  moreover have "0 \<le> R \<longleftrightarrow> c = 0" using calculation d2 x2(4) by auto
  ultimately consider "c = 0" "0 \<le> R" | "c = - 1" "R < 0" by linarith
  then show ?thesis
  proof cases
    case 1
    then have "R = dval x mod L25519" using R RV by simp
    with 1 m x2(4) x3(3) show ?thesis by simp
  next
    case 2
    have "(R + L25519) mod L25519 = R + L25519" using 2 R by (intro mod_pos_pos_trivial) auto
    then have "R + L25519 = dval x mod L25519" using RV by simp
    moreover have "dval x3 = R + L25519 + 256 ^ 32 * 1" using 2 x2(4) x3(3) by simp
    ultimately show ?thesis unfolding m by (simp only: le_bytes_add)
  qed
qed

lemma reduce_eq:
  assumes "length r = 64"
  shows "reduce r = le_bytes 32 (bytes_val r mod L25519)"
proof -
  have "uint b \<le> 255" for b :: u8 using uint_lt2p [of b] by simp
  then show ?thesis unfolding reduce_def dval_bytes [symmetric] using assms by (intro modL_eq) simp_all
qed

lemma bytes_val_le_bytes: "bytes_val (le_bytes n v) = v mod 256 ^ n"
proof (induction n arbitrary: v)
  case (Suc n)
  have "v mod 256 ^ Suc n = 256 * (v div 256 mod 256 ^ n) + v mod 256"
    by (simp add: zmod_zmult2_eq)
  with Suc show ?case by (simp add: uint_word_of_int take_bit_eq_mod)
qed simp

lemma reduce_val:
  assumes "length r = 64"
  shows "bytes_val (reduce r) = bytes_val r mod L25519"
proof -
  have "0 \<le> bytes_val r mod L25519" "bytes_val r mod L25519 < L25519" by (simp_all add: L25519_def)
  moreover have "L25519 < 256 ^ 32" by (simp add: L25519_def)
  ultimately have "bytes_val r mod L25519 mod 256 ^ 32 = bytes_val r mod L25519" by (intro mod_pos_pos_trivial) auto
  then show ?thesis by (simp only: reduce_eq [OF assms] bytes_val_le_bytes)
qed

section \<open>Property\<close>

text \<open>
  Hashes are reduced modulo the group order. For every 64-byte hash the signed digits stay
  within 64 bits throughout, and the 32 bytes of the result encode the remainder modulo
  $2^{252} + 27742317777372353535851937790883648493$ itself, not only a number congruent to it.
\<close>

theorem reduce_canonical:
  assumes "length r = 64"
  shows "length (reduce r) = 32 \<and> bytes_val (reduce r) = bytes_val r mod L25519"
  using reduce_val [OF assms] by (rule conjI [rotated]) (simp add: reduce_eq [OF assms])

theorem reduce_canonical_witness: "bytes_val (reduce (le_bytes 64 (3 * L25519 + 5))) = 5"
proof -
  have "(3 * L25519 + 5) mod 256 ^ 64 = 3 * L25519 + 5"
    by (rule mod_pos_pos_trivial) (simp_all add: L25519_def)
  moreover have "(3 * L25519 + 5) mod L25519 = 5 mod L25519" by simp
  moreover have "5 mod L25519 = 5" by (simp add: L25519_def)
  ultimately show ?thesis
    using reduce_canonical [OF length_le_bytes, of "3 * L25519 + 5"] by (simp only: bytes_val_le_bytes)
qed

end
