(* ===== verification/Sha2.thy ===== *)
theory Sha2
  imports Prelude
begin

text \<open>
  SHA-256 and SHA-512 (\<open>src/crypto_ed25519.c\<close>). The two functions have the same control
  flow, \<open>md_hash\<close>: whole blocks are copied into a buffer on the stack and compressed, the rest
  of the message, the end marker and the length in bits are assembled in the same buffer. The
  initial contents of the buffer are an argument.
\<close>

section \<open>Definitions\<close>

subsection \<open>The control flow\<close>

text \<open>The loop over whole blocks: what is left is the state, the buffer and the rest.\<close>

function md_blocks :: "nat \<Rightarrow> ('s \<Rightarrow> u8 list \<Rightarrow> 's) \<Rightarrow> 's \<Rightarrow> u8 list \<Rightarrow> u8 list \<Rightarrow> 's \<times> u8 list \<times> u8 list" where
  "md_blocks bs compress state block data =
     (if 0 < bs \<and> bs \<le> length data
      then md_blocks bs compress (compress state (take bs data)) (take bs data) (drop bs data)
      else (state, block, data))"
  by pat_completeness auto
termination by (relation "measure (\<lambda>(bs, compress, state, block, data). length data)") auto

declare md_blocks.simps [simp del]

definition be64_bytes :: "u64 \<Rightarrow> u8 list" where
  "be64_bytes x = map (\<lambda>i. ucast (drop_bit (56 - i * 8) x)) [0..<8]"

definition md_hash :: "nat \<Rightarrow> nat \<Rightarrow> ('s \<Rightarrow> u8 list \<Rightarrow> 's) \<Rightarrow> 's \<Rightarrow> u8 list \<Rightarrow> u8 list \<Rightarrow> 's" where
  "md_hash bs lb compress iv stack data =
     (let total_bits = of_nat (length data) * 8;
          (state, block, rest) = md_blocks bs compress iv stack data;
          rem = length rest;
          block = rest @ drop rem block;
          block = block[rem := 0x80];
          rem = rem + 1;
          (state, block, rem) =
            (if rem > lb then
               let block = take rem block @ replicate (bs - rem) 0
               in (compress state block, block, 0)
             else (state, block, rem));
          block = take rem block @ replicate (lb - rem) 0 @ drop lb block;
          block = take lb block @ replicate (bs - 8 - lb) 0 @ be64_bytes total_bits
      in compress state block)"

subsection \<open>SHA-256\<close>

abbreviation ROR32 :: "u32 \<Rightarrow> nat \<Rightarrow> u32" where "ROR32 x n \<equiv> drop_bit n x OR push_bit (32 - n) x"
abbreviation CH256 :: "u32 \<Rightarrow> u32 \<Rightarrow> u32 \<Rightarrow> u32" where "CH256 x y z \<equiv> (x AND y) XOR (NOT x AND z)"
abbreviation MAJ256 :: "u32 \<Rightarrow> u32 \<Rightarrow> u32 \<Rightarrow> u32" where "MAJ256 x y z \<equiv> (x AND y) XOR (x AND z) XOR (y AND z)"
abbreviation SIG0_256 :: "u32 \<Rightarrow> u32" where "SIG0_256 x \<equiv> ROR32 x 2 XOR ROR32 x 13 XOR ROR32 x 22"
abbreviation SIG1_256 :: "u32 \<Rightarrow> u32" where "SIG1_256 x \<equiv> ROR32 x 6 XOR ROR32 x 11 XOR ROR32 x 25"
abbreviation TH0_256 :: "u32 \<Rightarrow> u32" where "TH0_256 x \<equiv> ROR32 x 7 XOR ROR32 x 18 XOR drop_bit 3 x"
abbreviation TH1_256 :: "u32 \<Rightarrow> u32" where "TH1_256 x \<equiv> ROR32 x 17 XOR ROR32 x 19 XOR drop_bit 10 x"

definition K256 :: "u32 list" where
  "K256 = concat [
    [0x428a2f98, 0x71374491, 0xb5c0fbcf, 0xe9b5dba5, 0x3956c25b, 0x59f111f1, 0x923f82a4, 0xab1c5ed5],
    [0xd807aa98, 0x12835b01, 0x243185be, 0x550c7dc3, 0x72be5d74, 0x80deb1fe, 0x9bdc06a7, 0xc19bf174],
    [0xe49b69c1, 0xefbe4786, 0x0fc19dc6, 0x240ca1cc, 0x2de92c6f, 0x4a7484aa, 0x5cb0a9dc, 0x76f988da],
    [0x983e5152, 0xa831c66d, 0xb00327c8, 0xbf597fc7, 0xc6e00bf3, 0xd5a79147, 0x06ca6351, 0x14292967],
    [0x27b70a85, 0x2e1b2138, 0x4d2c6dfc, 0x53380d13, 0x650a7354, 0x766a0abb, 0x81c2c92e, 0x92722c85],
    [0xa2bfe8a1, 0xa81a664b, 0xc24b8b70, 0xc76c51a3, 0xd192e819, 0xd6990624, 0xf40e3585, 0x106aa070],
    [0x19a4c116, 0x1e376c08, 0x2748774c, 0x34b0bcb5, 0x391c0cb3, 0x4ed8aa4a, 0x5b9cca4f, 0x682e6ff3],
    [0x748f82ee, 0x78a5636f, 0x84c87814, 0x8cc70208, 0x90befffa, 0xa4506ceb, 0xbef9a3f7, 0xc67178f2]]"

definition sha256_iv :: "u32 list" where
  "sha256_iv = [0x6a09e667, 0xbb67ae85, 0x3c6ef372, 0xa54ff53a, 0x510e527f, 0x9b05688c, 0x1f83d9ab, 0x5be0cd19]"

abbreviation be32 :: "u8 list \<Rightarrow> nat \<Rightarrow> u32" where
  "be32 b i \<equiv> push_bit 24 (ucast (b ! i)) OR push_bit 16 (ucast (b ! (i + 1))) OR
     push_bit 8 (ucast (b ! (i + 2))) OR ucast (b ! (i + 3))"

definition sha256_schedule :: "u8 list \<Rightarrow> u32 list" where
  "sha256_schedule block = foldl
     (\<lambda>w t. w @ [TH1_256 (w ! (t - 2)) + w ! (t - 7) + TH0_256 (w ! (t - 15)) + w ! (t - 16)])
     (map (\<lambda>t. be32 block (t * 4)) [0..<16]) [16..<64]"

fun sha256_round :: "u32 list \<Rightarrow> u32 \<times> u32 \<Rightarrow> u32 list" where
  "sha256_round [a, b, c, d, e, f, g, h] (k, w) =
     (let t1 = h + SIG1_256 e + CH256 e f g + k + w;
          t2 = SIG0_256 a + MAJ256 a b c
      in [t1 + t2, a, b, c, d + t1, e, f, g])"
| "sha256_round regs kw = regs"

definition sha256_compress :: "u32 list \<Rightarrow> u8 list \<Rightarrow> u32 list" where
  "sha256_compress state block =
     map2 (+) state (foldl sha256_round state (zip K256 (sha256_schedule block)))"

definition crypto_sha256 :: "u8 list \<Rightarrow> u8 list \<Rightarrow> u8 list" where
  "crypto_sha256 stack data = concat (map (\<lambda>s. [ucast (drop_bit 24 s), ucast (drop_bit 16 s), ucast (drop_bit 8 s), ucast s])
     (md_hash 64 56 sha256_compress sha256_iv stack data))"

subsection \<open>SHA-512\<close>

abbreviation ROR64 :: "u64 \<Rightarrow> nat \<Rightarrow> u64" where "ROR64 x n \<equiv> drop_bit n x OR push_bit (64 - n) x"
abbreviation CH512 :: "u64 \<Rightarrow> u64 \<Rightarrow> u64 \<Rightarrow> u64" where "CH512 x y z \<equiv> (x AND y) XOR (NOT x AND z)"
abbreviation MAJ512 :: "u64 \<Rightarrow> u64 \<Rightarrow> u64 \<Rightarrow> u64" where "MAJ512 x y z \<equiv> (x AND y) XOR (x AND z) XOR (y AND z)"
abbreviation SIG0_512 :: "u64 \<Rightarrow> u64" where "SIG0_512 x \<equiv> ROR64 x 28 XOR ROR64 x 34 XOR ROR64 x 39"
abbreviation SIG1_512 :: "u64 \<Rightarrow> u64" where "SIG1_512 x \<equiv> ROR64 x 14 XOR ROR64 x 18 XOR ROR64 x 41"
abbreviation TH0_512 :: "u64 \<Rightarrow> u64" where "TH0_512 x \<equiv> ROR64 x 1 XOR ROR64 x 8 XOR drop_bit 7 x"
abbreviation TH1_512 :: "u64 \<Rightarrow> u64" where "TH1_512 x \<equiv> ROR64 x 19 XOR ROR64 x 61 XOR drop_bit 6 x"

definition K512 :: "u64 list" where
  "K512 = concat [
    [0x428a2f98d728ae22, 0x7137449123ef65cd, 0xb5c0fbcfec4d3b2f, 0xe9b5dba58189dbbc],
    [0x3956c25bf348b538, 0x59f111f1b605d019, 0x923f82a4af194f9b, 0xab1c5ed5da6d8118],
    [0xd807aa98a3030242, 0x12835b0145706fbe, 0x243185be4ee4b28c, 0x550c7dc3d5ffb4e2],
    [0x72be5d74f27b896f, 0x80deb1fe3b1696b1, 0x9bdc06a725c71235, 0xc19bf174cf692694],
    [0xe49b69c19ef14ad2, 0xefbe4786384f25e3, 0x0fc19dc68b8cd5b5, 0x240ca1cc77ac9c65],
    [0x2de92c6f592b0275, 0x4a7484aa6ea6e483, 0x5cb0a9dcbd41fbd4, 0x76f988da831153b5],
    [0x983e5152ee66dfab, 0xa831c66d2db43210, 0xb00327c898fb213f, 0xbf597fc7beef0ee4],
    [0xc6e00bf33da88fc2, 0xd5a79147930aa725, 0x06ca6351e003826f, 0x142929670a0e6e70],
    [0x27b70a8546d22ffc, 0x2e1b21385c26c926, 0x4d2c6dfc5ac42aed, 0x53380d139d95b3df],
    [0x650a73548baf63de, 0x766a0abb3c77b2a8, 0x81c2c92e47edaee6, 0x92722c851482353b],
    [0xa2bfe8a14cf10364, 0xa81a664bbc423001, 0xc24b8b70d0f89791, 0xc76c51a30654be30],
    [0xd192e819d6ef5218, 0xd69906245565a910, 0xf40e35855771202a, 0x106aa07032bbd1b8],
    [0x19a4c116b8d2d0c8, 0x1e376c085141ab53, 0x2748774cdf8eeb99, 0x34b0bcb5e19b48a8],
    [0x391c0cb3c5c95a63, 0x4ed8aa4ae3418acb, 0x5b9cca4f7763e373, 0x682e6ff3d6b2b8a3],
    [0x748f82ee5defb2fc, 0x78a5636f43172f60, 0x84c87814a1f0ab72, 0x8cc702081a6439ec],
    [0x90befffa23631e28, 0xa4506cebde82bde9, 0xbef9a3f7b2c67915, 0xc67178f2e372532b],
    [0xca273eceea26619c, 0xd186b8c721c0c207, 0xeada7dd6cde0eb1e, 0xf57d4f7fee6ed178],
    [0x06f067aa72176fba, 0x0a637dc5a2c898a6, 0x113f9804bef90dae, 0x1b710b35131c471b],
    [0x28db77f523047d84, 0x32caab7b40c72493, 0x3c9ebe0a15c9bebc, 0x431d67c49c100d4c],
    [0x4cc5d4becb3e42b6, 0x597f299cfc657e2a, 0x5fcb6fab3ad6faec, 0x6c44198c4a475817]]"

definition sha512_iv :: "u64 list" where
  "sha512_iv = [
    0x6a09e667f3bcc908, 0xbb67ae8584caa73b, 0x3c6ef372fe94f82b, 0xa54ff53a5f1d36f1,
    0x510e527fade682d1, 0x9b05688c2b3e6c1f, 0x1f83d9abfb41bd6b, 0x5be0cd19137e2179]"

definition be64 :: "u8 list \<Rightarrow> nat \<Rightarrow> u64" where
  "be64 b i = push_bit 56 (ucast (b ! i)) OR push_bit 48 (ucast (b ! (i + 1))) OR
     push_bit 40 (ucast (b ! (i + 2))) OR push_bit 32 (ucast (b ! (i + 3))) OR
     push_bit 24 (ucast (b ! (i + 4))) OR push_bit 16 (ucast (b ! (i + 5))) OR
     push_bit 8 (ucast (b ! (i + 6))) OR ucast (b ! (i + 7))"

definition sha512_schedule :: "u8 list \<Rightarrow> u64 list" where
  "sha512_schedule block = foldl
     (\<lambda>w t. w @ [TH1_512 (w ! (t - 2)) + w ! (t - 7) + TH0_512 (w ! (t - 15)) + w ! (t - 16)])
     (map (\<lambda>t. be64 block (t * 8)) [0..<16]) [16..<80]"

fun sha512_round :: "u64 list \<Rightarrow> u64 \<times> u64 \<Rightarrow> u64 list" where
  "sha512_round [a, b, c, d, e, f, g, h] (k, w) =
     (let t1 = h + SIG1_512 e + CH512 e f g + k + w;
          t2 = SIG0_512 a + MAJ512 a b c
      in [t1 + t2, a, b, c, d + t1, e, f, g])"
| "sha512_round regs kw = regs"

definition sha512_compress :: "u64 list \<Rightarrow> u8 list \<Rightarrow> u64 list" where
  "sha512_compress state block =
     map2 (+) state (foldl sha512_round state (zip K512 (sha512_schedule block)))"

definition crypto_sha512 :: "u8 list \<Rightarrow> u8 list \<Rightarrow> u8 list" where
  "crypto_sha512 stack data = concat (map be64_bytes (md_hash 128 112 sha512_compress sha512_iv stack data))"

section \<open>Padding\<close>

text \<open>
  The specification of FIPS 180-4: the message, the marker, the smallest number of zeros that
  leaves room for the length in the last block, and the length in bits, big endian.
\<close>

function chunks :: "nat \<Rightarrow> 'a list \<Rightarrow> 'a list list" where
  "chunks n xs = (if n = 0 \<or> xs = [] then [] else take n xs # chunks n (drop n xs))"
  by pat_completeness auto
termination by (relation "measure (length \<circ> snd)") auto

declare chunks.simps [simp del]

definition length_bytes :: "nat \<Rightarrow> nat \<Rightarrow> u8 list" where
  "length_bytes k n = map (\<lambda>i. of_nat (n div 256 ^ (k - 1 - i))) [0..<k]"

definition md_pad :: "nat \<Rightarrow> nat \<Rightarrow> u8 list \<Rightarrow> u8 list" where
  "md_pad bs lb data = data @ 0x80 # replicate ((lb + bs - (length data + 1) mod bs) mod bs) 0 @
     length_bytes (bs - lb) (8 * length data)"

lemma md_blocks_chunks:
  assumes "0 < bs" "length block = bs"
  shows "\<exists>state' block' rest. md_blocks bs compress state block data = (state', block', rest) \<and>
    length block' = bs \<and> length rest < bs \<and> length data mod bs = length rest \<and>
    (\<forall>t. foldl compress state (chunks bs (data @ t)) = foldl compress state' (chunks bs (rest @ t)))"
  using assms
proof (induction bs compress state block data rule: md_blocks.induct)
  case (1 bs compress state block data)
  show ?case
  proof (cases "bs \<le> length data")
    case True
    then have "chunks bs (data @ t) = take bs data # chunks bs (drop bs data @ t)" for t
      using 1(2) by (subst chunks.simps) auto
    moreover have "length (drop bs data) mod bs = length data mod bs"
      using True by (simp add: le_mod_geq)
    moreover have "md_blocks bs compress state block data =
        md_blocks bs compress (compress state (take bs data)) (take bs data) (drop bs data)"
      using True 1(2) by (subst md_blocks.simps) simp
    ultimately show ?thesis using 1(1) True 1(2) by auto
  next
    case False
    then show ?thesis using 1(2,3) by (simp add: md_blocks.simps [of bs compress state block data])
  qed
qed

lemma chunks_block: "0 < bs \<Longrightarrow> length xs = bs \<Longrightarrow> chunks bs (xs @ ys) = xs # chunks bs ys"
  by (subst chunks.simps) auto

lemma chunks_last: "0 < bs \<Longrightarrow> length xs = bs \<Longrightarrow> chunks bs xs = [xs]"
  using chunks_block [of bs xs "[]"] by (simp add: chunks.simps [of bs "[]"])

lemma unat_byte_at: "unat (ucast (drop_bit k (w :: u64)) :: u8) = (unat w div 2 ^ k) mod 256"
proof -
  have "unat (drop_bit k w) = unat w div 2 ^ k" by (simp add: unat_drop_bit_eq drop_bit_eq_div [where 'a = nat])
  then show ?thesis by (simp add: unsigned_ucast_eq take_bit_eq_mod)
qed

lemma length_bytes_be64:
  assumes "n < 2 ^ 61" "8 \<le> k"
  shows "length_bytes k (8 * n) = replicate (k - 8) 0 @ be64_bytes (of_nat n * 8)"
proof (rule nth_equalityI)
  show "length (length_bytes k (8 * n)) = length (replicate (k - 8) (0 :: u8) @ be64_bytes (of_nat n * 8))"
    using assms(2) by (simp add: length_bytes_def be64_bytes_def)
  fix i
  assume "i < length (length_bytes k (8 * n))"
  then have i: "i < k" by (simp add: length_bytes_def)
  have u: "unat (of_nat n * 8 :: u64) = 8 * n"
    using assms(1) by (subst unat_mult_lem [THEN iffD1]) (simp_all add: unat_of_nat take_bit_nat_eq_self)
  show "length_bytes k (8 * n) ! i = (replicate (k - 8) 0 @ be64_bytes (of_nat n * 8)) ! i"
  proof (cases "i < k - 8")
    case True
    then have "(256 :: nat) ^ 8 \<le> 256 ^ (k - 1 - i)" by (intro power_increasing) auto
    then have "8 * n div 256 ^ (k - 1 - i) = 0" using assms(1) by (intro div_less) simp
    with True i show ?thesis by (simp add: length_bytes_def nth_append)
  next
    case False
    define j where "j = i - (k - 8)"
    have j: "j < 8" "k - 1 - i = 7 - j" using False i assms(2) by (auto simp: j_def)
    have "(256 :: nat) ^ (7 - j) = 2 ^ (8 * (7 - j))" by (simp add: power_mult)
    also have "8 * (7 - j) = 56 - j * 8" using j(1) by simp
    finally have "(256 :: nat) ^ (7 - j) = 2 ^ (56 - j * 8)" .
    then show ?thesis
      using False i j u
      by (simp add: length_bytes_def be64_bytes_def nth_append j_def [symmetric] word_unat_eq_iff unat_byte_at unat_of_nat
        take_bit_eq_mod)
  qed
qed

text \<open>What the control flow needs of its sizes: the length has its place behind the data.\<close>

locale md_sizes =
  fixes bs lb :: nat
  assumes lb_pos: "0 < lb" and room: "lb + 8 \<le> bs"
begin

lemma md_hash_pad:
  assumes "length stack = bs" "length data < 2 ^ 61"
  shows "md_hash bs lb compress iv stack data = foldl compress iv (chunks bs (md_pad bs lb data))"
proof -
  have bs: "0 < bs" "lb < bs" using lb_pos room by simp_all
  obtain state block rest where r: "md_blocks bs compress iv stack data = (state, block, rest)"
    and l: "length block = bs" "length rest < bs" "length data mod bs = length rest"
    and fold: "\<And>t. foldl compress iv (chunks bs (data @ t)) = foldl compress state (chunks bs (rest @ t))"
    using md_blocks_chunks [OF bs(1) assms(1), of compress iv data] by blast
  let ?len = "replicate (bs - 8 - lb) 0 @ be64_bytes (of_nat (length data) * 8)"
  have lb: "length_bytes (bs - lb) (8 * length data) = ?len"
    using length_bytes_be64 [OF assms(2), of "bs - lb"] room by (simp add: diff_diff_left add.commute)
  have ll: "length ?len = bs - lb" using room by (simp add: be64_bytes_def)
  have blk: "(rest @ drop (length rest) block)[length rest := 0x80] = rest @ 0x80 # drop (length rest + 1) block"
    using l by (simp add: list_update_append Cons_nth_drop_Suc [symmetric])
  let ?zeros = "(lb + bs - (length data + 1) mod bs) mod bs"
  show ?thesis
  proof (cases "length rest + 1 \<le> lb")
    case True
    then have "(length data + 1) mod bs = length rest + 1"
      using l bs by (subst mod_add_left_eq [symmetric]) (simp add: l(3))
    moreover have "lb + bs - (length rest + 1) = (lb - (length rest + 1)) + bs" using True by simp
    ultimately have "?zeros = lb - (length rest + 1)" using bs by (simp only: mod_add_self2) simp
    moreover have "length (rest @ 0x80 # replicate (lb - (length rest + 1)) 0 @ ?len) = bs"
      using True ll bs by simp
    ultimately have "foldl compress iv (chunks bs (md_pad bs lb data)) =
        compress state (rest @ 0x80 # replicate (lb - (length rest + 1)) 0 @ ?len)"
      using bs by (simp add: md_pad_def fold lb chunks_last del: length_append)
    moreover have "md_hash bs lb compress iv stack data =
        compress state (rest @ 0x80 # replicate (lb - (length rest + 1)) 0 @ ?len)"
      using True r blk by (simp add: md_hash_def Let_def)
    ultimately show ?thesis by simp
  next
    case False
    let ?first = "rest @ 0x80 # replicate (bs - (length rest + 1)) (0 :: u8)"
    have "(length data + 1) mod bs = (length rest + 1) mod bs"
      by (subst mod_add_left_eq [symmetric]) (simp add: l(3))
    also have "\<dots> = (if length rest + 1 = bs then 0 else length rest + 1)" using l(2) by simp
    finally have "?zeros = (bs - (length rest + 1)) + lb" using False bs l(2) by auto
    then have pad: "md_pad bs lb data = data @ 0x80 # replicate (bs - (length rest + 1)) 0 @ replicate lb 0 @ ?len"
      by (simp add: md_pad_def lb replicate_add)
    have f: "length ?first = bs" "length (replicate lb 0 @ ?len) = bs" using l(2) ll bs by simp_all
    have "foldl compress iv (chunks bs (md_pad bs lb data)) =
        foldl compress state (chunks bs (?first @ replicate lb 0 @ ?len))"
      by (simp add: pad fold)
    also have "\<dots> = compress (compress state ?first) (replicate lb 0 @ ?len)"
      using f bs by (simp only: chunks_block chunks_last foldl.simps)
    finally have "foldl compress iv (chunks bs (md_pad bs lb data)) = compress (compress state ?first) (replicate lb 0 @ ?len)" .
    moreover have "md_hash bs lb compress iv stack data = compress (compress state ?first) (replicate lb 0 @ ?len)"
      using False r blk by (simp add: md_hash_def Let_def)
    ultimately show ?thesis by simp
  qed
qed

end

interpretation sha256: md_sizes 64 56
  by unfold_locales simp_all

interpretation sha512: md_sizes 128 112
  by unfold_locales simp_all

text \<open>
  C26. The hash functions follow FIPS 180-4. Whatever the buffer on the stack held before, the
  streaming code compresses exactly the blocks of the padded message - one or two blocks at the
  end, as the standard prescribes - for SHA-256 and for SHA-512.
\<close>

theorem sha2_padding:
  assumes "length stack = 64" "length stack' = 128" "length data < 2 ^ 61"
  shows "crypto_sha256 stack data = concat (map (\<lambda>s. [ucast (drop_bit 24 s), ucast (drop_bit 16 s), ucast (drop_bit 8 s), ucast s])
      (foldl sha256_compress sha256_iv (chunks 64 (md_pad 64 56 data)))) \<and>
    crypto_sha512 stack' data = concat (map be64_bytes (foldl sha512_compress sha512_iv (chunks 128 (md_pad 128 112 data))))"
  using assms by (simp_all add: crypto_sha256_def crypto_sha512_def sha256.md_hash_pad sha512.md_hash_pad)

lemma sha2_padding_witness:
  "crypto_sha256 (replicate 64 0) [97, 98, 99] = crypto_sha256 (replicate 64 0xAA) [97, 98, 99] \<and>
   md_pad 64 56 [97, 98, 99] = [97, 98, 99, 0x80] @ replicate 52 0 @ [0, 0, 0, 0, 0, 0, 0, 24]"
proof -
  have "crypto_sha256 (replicate 64 0) [97, 98, 99] = crypto_sha256 (replicate 64 0xAA) [97, 98, 99]"
    using sha2_padding [of "replicate 64 0" "replicate 128 0" "[97, 98, 99]"]
      sha2_padding [of "replicate 64 0xAA" "replicate 128 0" "[97, 98, 99]"] by simp
  moreover have "md_pad 64 56 [97, 98, 99] = [97, 98, 99, 0x80] @ replicate 52 0 @ [0, 0, 0, 0, 0, 0, 0, 24]"
    by (simp add: md_pad_def length_bytes_def upt_conv_Cons)
  ultimately show ?thesis by simp
qed

section \<open>Shape of the results\<close>

lemma length_sha256_round: "length (sha256_round regs kw) = length regs"
  by (cases "(regs, kw)" rule: sha256_round.cases) (simp_all add: Let_def)

lemma length_sha512_round: "length (sha512_round regs kw) = length regs"
  by (cases "(regs, kw)" rule: sha512_round.cases) (simp_all add: Let_def)

lemma length_foldl: "(\<And>s x. length (f s x) = length s) \<Longrightarrow> length (foldl f s xs) = length s"
  by (induction xs arbitrary: s) simp_all

lemma length_sha256_compress: "length (sha256_compress state block) = length state"
  by (simp add: sha256_compress_def length_foldl length_sha256_round)

lemma length_sha512_compress: "length (sha512_compress state block) = length state"
  by (simp add: sha512_compress_def length_foldl length_sha512_round)

lemma length_concat_const: "(\<And>x. length (f x) = n) \<Longrightarrow> length (concat (map f xs)) = n * length xs"
  by (induction xs) simp_all

text \<open>The digests fill the arrays of the callers.\<close>

lemma length_crypto_sha256:
  "length stack = 64 \<Longrightarrow> length data < 2 ^ 61 \<Longrightarrow> length (crypto_sha256 stack data) = 32"
  by (simp add: crypto_sha256_def sha256.md_hash_pad length_concat_const length_foldl length_sha256_compress sha256_iv_def)

lemma length_crypto_sha512:
  "length stack = 128 \<Longrightarrow> length data < 2 ^ 61 \<Longrightarrow> length (crypto_sha512 stack data) = 64"
  by (simp add: crypto_sha512_def sha512.md_hash_pad length_concat_const length_foldl length_sha512_compress sha512_iv_def
    be64_bytes_def)

end
