(* ===== verification/Ed25519.thy ===== *)
theory Ed25519
  imports X25519 Scalar25519 Sha2
begin

text \<open>
  Ed25519 signature verification (\<open>src/crypto_ed25519.c\<close>), which authenticates licence keys.
  A point is a quadruple of field elements in extended coordinates. The theory shows that the
  verifier computes, on the arrays of limbs, what the reference does on integers modulo the
  prime, that its addition is the addition law of the twisted Edwards curve, and that scalars
  are reduced modulo the group order.
\<close>

section \<open>Definitions\<close>

subsection \<open>Constants\<close>

definition gf_D :: gf where
  "gf_D = [0x78a3, 0x1359, 0x4dca, 0x75eb, 0xd8ab, 0x4141, 0x0a4d, 0x0070,
    0xe898, 0x7779, 0x4079, 0x8cc7, 0xfe73, 0x2b6f, 0x6cee, 0x5203]"
definition gf_D2 :: gf where
  "gf_D2 = [0xf159, 0x26b2, 0x9b94, 0xebd6, 0xb156, 0x8283, 0x149a, 0x00e0,
    0xd130, 0xeef3, 0x80f2, 0x198e, 0xfce7, 0x56df, 0xd9dc, 0x2406]"
definition gf_X :: gf where
  "gf_X = [0xd51a, 0x8f25, 0x2d60, 0xc956, 0xa7b2, 0x9525, 0xc760, 0x692c,
    0xdc5c, 0xfdd6, 0xe231, 0xc0a4, 0x53fe, 0xcd6e, 0x36d3, 0x2169]"
definition gf_Y :: gf where
  "gf_Y = [0x6658, 0x6666, 0x6666, 0x6666, 0x6666, 0x6666, 0x6666, 0x6666,
    0x6666, 0x6666, 0x6666, 0x6666, 0x6666, 0x6666, 0x6666, 0x6666]"
definition gf_I :: gf where
  "gf_I = [0xa0b0, 0x4a0e, 0x1b27, 0xc4ee, 0xe478, 0xad2f, 0x1806, 0x2f43,
    0xd7a7, 0x3dfb, 0x0099, 0x2b4d, 0xdf0b, 0x4fc1, 0x2480, 0x2b83]"

subsection \<open>Points\<close>

type_synonym point = "gf \<times> gf \<times> gf \<times> gf"

definition unpackneg :: "gf \<Rightarrow> u8 list \<Rightarrow> point option" where
  "unpackneg stack p =
     (let r2 = gf1;
          r1 = unpack25519 p;
          num = S25519 r1;
          den = M25519 num gf_D;
          num = Z25519 num r2;
          den = A25519 r2 den;
          den2 = S25519 den;
          den4 = S25519 den2;
          den6 = M25519 den4 den2;
          t = M25519 den6 num;
          t = M25519 t den;
          t = pow2523 t;
          t = M25519 t num;
          t = M25519 t den;
          t = M25519 t den;
          r0 = M25519 t den;
          chk = S25519 r0;
          chk = M25519 chk den;
          r0 = (if neq25519 stack chk num \<noteq> 0 then M25519 r0 gf_I else r0);
          chk = S25519 r0;
          chk = M25519 chk den
      in if neq25519 stack chk num \<noteq> 0 then None
         else let r0 = (if par25519 stack r0 = drop_bit 7 (p ! 31) then Z25519 gf0 r0 else r0)
              in Some (r0, r1, r2, M25519 r0 r1))"

definition add_points :: "point \<Rightarrow> point \<Rightarrow> point" where
  "add_points p q = (case p of (p0, p1, p2, p3) \<Rightarrow> case q of (q0, q1, q2, q3) \<Rightarrow>
     let a = Z25519 p1 p0;
         t = Z25519 q1 q0;
         a = M25519 a t;
         b = A25519 p0 p1;
         t = A25519 q0 q1;
         b = M25519 b t;
         c = M25519 p3 q3;
         c = M25519 c gf_D2;
         d = M25519 p2 q2;
         d = A25519 d d;
         e = Z25519 b a;
         f = Z25519 d c;
         g = A25519 d c;
         h = A25519 b a
     in (M25519 e f, M25519 h g, M25519 g f, M25519 e h))"

definition cswap :: "point \<Rightarrow> point \<Rightarrow> int \<Rightarrow> point \<times> point" where
  "cswap p q b = (case p of (p0, p1, p2, p3) \<Rightarrow> case q of (q0, q1, q2, q3) \<Rightarrow>
     let (p0, q0) = sel25519 p0 q0 b;
         (p1, q1) = sel25519 p1 q1 b;
         (p2, q2) = sel25519 p2 q2 b;
         (p3, q3) = sel25519 p3 q3 b
     in ((p0, p1, p2, p3), (q0, q1, q2, q3)))"

definition pack_point :: "gf \<Rightarrow> point \<Rightarrow> u8 list" where
  "pack_point stack p = (case p of (p0, p1, p2, p3) \<Rightarrow>
     let zi = inv25519 p2;
         tx = M25519 p0 zi;
         ty = M25519 p1 zi;
         r = pack25519 stack ty
     in r[31 := r ! 31 XOR push_bit 7 (par25519 stack tx)])"

definition scalarmult_step :: "u8 list \<Rightarrow> point \<times> point \<Rightarrow> nat \<Rightarrow> point \<times> point" where
  "scalarmult_step s pq i = (case pq of (p, q) \<Rightarrow>
     let b = scalar_bit s i;
         (p, q) = cswap p q b;
         q = add_points q p;
         p = add_points p p
     in cswap p q b)"

definition scalarmult :: "point \<Rightarrow> u8 list \<Rightarrow> point" where
  "scalarmult q s = fst (foldl (scalarmult_step s) ((gf0, gf1, gf1, gf0), q) (rev [0..<256]))"

definition scalarbase :: "u8 list \<Rightarrow> point" where
  "scalarbase s = scalarmult (gf_X, gf_Y, gf1, M25519 gf_X gf_Y) s"

subsection \<open>Verification\<close>

text \<open>
  \<open>stack\<close> and \<open>stack'\<close> are the uninitialised arrays of \<open>pack25519\<close> and \<open>crypto_sha512\<close>;
  \<open>mem\<close> tells whether the allocation of the message buffer succeeds.
\<close>

definition crypto_ed25519_verify ::
  "gf \<Rightarrow> u8 list \<Rightarrow> bool \<Rightarrow> u8 list \<Rightarrow> u8 list \<Rightarrow> u8 list \<Rightarrow> bool" where
  "crypto_ed25519_verify stack stack' mem signature message public_key =
     (case unpackneg stack public_key of
        None \<Rightarrow> False
      | Some q \<Rightarrow>
          if \<not> mem then False
          else let m = take 32 signature @ public_key @ message;
                   h = crypto_sha512 stack' m;
                   h = reduce h;
                   p = scalarmult q h;
                   q = scalarbase (drop 32 signature);
                   p = add_points p q;
                   t = pack_point stack p
               in crypto_verify_32 signature t = 0)"

section \<open>Comparison of encodings\<close>

lemma foldl_or_ucast:
  "foldl (\<lambda>d i. d OR ucast (f i)) (ucast (e :: u8) :: u32) is = ucast (foldl (\<lambda>d i. d OR f i) e is)"
proof (induction "is" arbitrary: e)
  case (Cons i "is")
  have "(ucast e OR ucast (f i) :: u32) = ucast (e OR f i)" by (rule bit_word_eqI) (auto simp: bit_simps)
  with Cons [of "e OR f i"] show ?case by simp
qed simp

lemma foldl_or_zero: "foldl (\<lambda>d i. d OR f i) (e :: u8) is = 0 \<longleftrightarrow> e = 0 \<and> (\<forall>i \<in> set is. f i = 0)"
proof (induction "is" arbitrary: e)
  case (Cons i "is")
  have "e OR f i = 0 \<longleftrightarrow> e = 0 \<and> f i = 0" by (auto simp: or_eq_0_iff)
  with Cons show ?case by auto
qed simp

lemma verify_bits:
  "uint (1 AND drop_bit 8 (ucast (e :: u8) - 1 :: u32)) = (if e = 0 then 1 else 0)"
proof (cases "e = 0")
  case True
  have "1 AND drop_bit 8 (- 1 :: u32) = 1" by (rule bit_word_eqI) (auto simp: bit_simps)
  with True show ?thesis by simp
next
  case False
  then have u: "0 < unat e" "unat e < 256" using unsigned_less [of e, where ?'a = nat] by (auto simp: unat_gt_0)
  have "unat e < 2 ^ LENGTH(32)" using u(2) by (rule less_trans) simp
  then have c: "unat (ucast e :: u32) = unat e" by (simp only: unsigned_ucast_eq take_bit_nat_eq_self)
  then have "(ucast e :: u32) \<noteq> 0" using u by auto
  then have m: "unat (ucast e - 1 :: u32) = unat e - 1" by (simp add: unat_minus_one c)
  have "(unat e - 1) div 256 = 0" using u by (intro div_less) linarith
  with m have "drop_bit 8 (ucast e - 1 :: u32) = 0" by (simp add: word_unat_eq_iff drop_bit_eq_div unat_div)
  with False show ?thesis by simp
qed

lemma crypto_verify_32_eq: "crypto_verify_32 x y = (if \<forall>i < 32. x ! i = y ! i then 0 else -1)"
proof -
  define l :: "nat list" where "l = [0..<32]"
  have l: "set l = {..<32}" by (simp only: l_def set_upt) auto
  define e where "e = foldl (\<lambda>d i. d OR (x ! i XOR y ! i)) (0 :: u8) l"
  have d: "foldl (\<lambda>d i. d OR ucast (x ! i XOR y ! i)) (0 :: u32) l = ucast e"
    using foldl_or_ucast [of "\<lambda>i. x ! i XOR y ! i" 0 l] by (simp add: e_def)
  have "a XOR b = 0 \<longleftrightarrow> a = b" for a b :: u8
  proof
    assume "a XOR b = 0"
    moreover have "(a XOR b) XOR b = a" by (simp add: xor.assoc)
    ultimately show "a = b" by simp
  qed simp
  then have z: "e = 0 \<longleftrightarrow> (\<forall>i < 32. x ! i = y ! i)"
    by (auto simp: e_def foldl_or_zero l)
  show ?thesis unfolding crypto_verify_32_def l_def [symmetric] d Let_def verify_bits z by simp
qed

lemma fe_range: "0 \<le> fe a" "fe a < p25519"
  by (simp_all add: fe_def p25519_def)

lemma le_bytes_inject:
  assumes "0 \<le> x" "x < p25519" "0 \<le> y" "y < p25519"
  shows "le_bytes 32 x = le_bytes 32 y \<longleftrightarrow> x = y"
proof
  assume "le_bytes 32 x = le_bytes 32 y"
  then have "x mod 256 ^ 32 = y mod 256 ^ 32" by (metis bytes_val_le_bytes)
  with assms show "x = y" by (simp add: p25519_def)
qed simp

lemma neq25519_fe:
  assumes "gfb (2 ^ 60) a" "gfb (2 ^ 60) b" "length stack = 16"
  shows "neq25519 stack a b \<noteq> 0 \<longleftrightarrow> fe a \<noteq> fe b"
proof -
  have "(\<forall>i < 32. le_bytes 32 x ! i = le_bytes 32 y ! i) \<longleftrightarrow> le_bytes 32 x = le_bytes 32 y" for x y
    by (auto simp: list_eq_iff_nth_eq)
  then show ?thesis using fe_range [of a] fe_range [of b] assms
    by (simp add: neq25519_def crypto_verify_32_eq pack25519_eq le_bytes_inject flip: fe_def)
qed

lemma par25519_fe:
  assumes "gfb (2 ^ 60) a" "length stack = 16"
  shows "par25519 stack a = of_bool (odd (fe a))"
proof -
  have "le_bytes 32 (fe a) ! 0 = word_of_int (fe a)" using le_bytes.simps(2) [of 31 "fe a"] by simp
  moreover have "word_of_int v AND 1 = (of_bool (odd v) :: u8)" for v
    by (rule bit_word_eqI) (auto simp: bit_simps bit_0)
  ultimately show ?thesis
    unfolding par25519_def pack25519_eq [OF assms] fe_def [symmetric] by (simp only:)
qed

section \<open>Reference\<close>

text \<open>
  RFC 8032 on integers modulo the prime: the curve $-x^2 + y^2 = 1 + d x^2 y^2$, extended
  coordinates $(X, Y, Z, T)$ with $x = X/Z$, $y = Y/Z$ and $T = XY/Z$, and the base point. The
  decoder is that of the standard without its two checks of the encoding (the coordinate is
  below the prime, and zero has no sign), which the code does not make.
\<close>

definition ed_d :: int where
  "ed_d = 37095705934669439343138083508754565189542113879843219016388785533085940283555"
definition ed_i :: int where
  "ed_i = 19681161376707505956807079304988542015446066515923890162744021073123829784752"

type_synonym epoint = "int \<times> int \<times> int \<times> int"

definition ed_Bx :: int where
  "ed_Bx = 15112221349535400772501151409588531511454012693041857206046113283949847762202"
definition ed_By :: int where
  "ed_By = 46316835694926478169428394003475163141307993866256225615783033603165251855960"
definition ed_base :: epoint where
  "ed_base = (ed_Bx, ed_By, 1, ed_Bx * ed_By mod p25519)"

definition ed_add :: "epoint \<Rightarrow> epoint \<Rightarrow> epoint" where
  "ed_add P Q = (case P of (X1, Y1, Z1, T1) \<Rightarrow> case Q of (X2, Y2, Z2, T2) \<Rightarrow>
     let A = (Y1 - X1) * (Y2 - X2);
         B = (Y1 + X1) * (Y2 + X2);
         C = T1 * 2 * ed_d * T2;
         D = Z1 * 2 * Z2;
         E = B - A;
         F = D - C;
         G = D + C;
         H = B + A
     in (E * F mod p25519, G * H mod p25519, F * G mod p25519, E * H mod p25519))"

text \<open>The multiple of a point, by the ladder that keeps two points a base point apart.\<close>

definition ed_step :: "int \<Rightarrow> epoint \<times> epoint \<Rightarrow> nat \<Rightarrow> epoint \<times> epoint" where
  "ed_step k s i = (case s of (P, Q) \<Rightarrow>
     if odd (k div 2 ^ i) then (ed_add P Q, ed_add Q Q) else (ed_add P P, ed_add P Q))"

definition ed_mult :: "int \<Rightarrow> epoint \<Rightarrow> epoint" where
  "ed_mult k P = fst (foldl (ed_step k) ((0, 1, 1, 0), P) (rev [0..<256]))"

definition ed_decode_neg :: "u8 list \<Rightarrow> epoint option" where
  "ed_decode_neg p =
     (let y = bytes_val p mod 2 ^ 255 mod p25519;
          u = (y * y - 1) mod p25519;
          v = (ed_d * (y * y) + 1) mod p25519;
          x = u * v ^ 3 * (u * v ^ 7) ^ nat ((p25519 - 5) div 8) mod p25519;
          x = (if v * (x * x) mod p25519 = u then x else x * ed_i mod p25519)
      in if v * (x * x) mod p25519 \<noteq> u then None
         else let x = (if odd x = odd (bytes_val p div 2 ^ 255) then (- x) mod p25519 else x)
              in Some (x, y, 1, x * y mod p25519))"

definition ed_encode :: "epoint \<Rightarrow> u8 list" where
  "ed_encode P = (case P of (X, Y, Z, T) \<Rightarrow>
     let zi = Z ^ nat (p25519 - 2) mod p25519;
         x = X * zi mod p25519;
         y = Y * zi mod p25519
     in le_bytes 32 (y + 2 ^ 255 * (x mod 2)))"

definition ed_verify :: "(u8 list \<Rightarrow> u8 list) \<Rightarrow> u8 list \<Rightarrow> u8 list \<Rightarrow> u8 list \<Rightarrow> bool" where
  "ed_verify hash signature message public_key =
     (let R = take 32 signature;
          s = bytes_val (drop 32 signature);
          k = bytes_val (hash (R @ public_key @ message)) mod L25519
      in case ed_decode_neg public_key of
           None \<Rightarrow> False
         | Some A \<Rightarrow> ed_encode (ed_add (ed_mult k A) (ed_mult s ed_base)) = R)"

text \<open>The constants are what the standard says: $d = -121665/121666$ and a root of $-1$.\<close>

lemma ed_constants:
  "(121666 * ed_d + 121665) mod p25519 = 0"
  "(ed_i * ed_i + 1) mod p25519 = 0"
proof -
  have "121666 * ed_d + 121665 = 77955 * p25519" by (simp add: ed_d_def p25519_def)
  then show "(121666 * ed_d + 121665) mod p25519 = 0" by simp
  have "ed_i * ed_i + 1 =
      6690407189080634018507799843845558368979872843924222843531373839242004886245 * p25519"
    by (simp add: ed_i_def p25519_def)
  then show "(ed_i * ed_i + 1) mod p25519 = 0" by simp
qed

lemma fe_less: "gval a = v \<Longrightarrow> 0 \<le> v \<Longrightarrow> v < p25519 \<Longrightarrow> fe a = v"
  by (simp add: fe_def)

lemma fe_ed_consts: "fe gf_D = ed_d" "fe gf_D2 = 2 * ed_d mod p25519" "fe gf_I = ed_i"
proof -
  show "fe gf_D = ed_d" "fe gf_I = ed_i"
    by (rule fe_less; simp add: gf_D_def gf_I_def ed_d_def ed_i_def p25519_def gval_Cons)+
  have "fe gf_D2 = 2 * ed_d - p25519"
    by (rule fe_less; simp add: gf_D2_def ed_d_def p25519_def gval_Cons)
  then have "2 * ed_d = fe gf_D2 + p25519" by simp
  then have "2 * ed_d mod p25519 = (fe gf_D2 + p25519) mod p25519" by (simp only:)
  then show "fe gf_D2 = 2 * ed_d mod p25519" by (simp add: fe_def)
qed

lemma fe_ed_base: "fe gf_X = ed_Bx" "fe gf_Y = ed_By"
  by (rule fe_less; simp add: gf_X_def gf_Y_def ed_Bx_def ed_By_def p25519_def gval_Cons)+

lemma gfb_ed_consts: "gfb (2 ^ 16) gf_D" "gfb (2 ^ 16) gf_D2" "gfb (2 ^ 16) gf_I" "gfb (2 ^ 16) gf_X" "gfb (2 ^ 16) gf_Y"
  by (auto simp: gfb_def gf_D_def gf_D2_def gf_I_def gf_X_def gf_Y_def nth_Cons')

section \<open>Refinement of the point arithmetic\<close>

text \<open>Congruence modulo the prime.\<close>

definition eqp :: "int \<Rightarrow> int \<Rightarrow> bool" where
  "eqp x y \<longleftrightarrow> x mod p25519 = y mod p25519"

lemma eqp_ops:
  "eqp a a' \<Longrightarrow> eqp b b' \<Longrightarrow> eqp (a + b) (a' + b')"
  "eqp a a' \<Longrightarrow> eqp b b' \<Longrightarrow> eqp (a - b) (a' - b')"
  "eqp a a' \<Longrightarrow> eqp b b' \<Longrightarrow> eqp (a * b) (a' * b')"
  unfolding eqp_def by (metis mod_add_eq, metis mod_diff_eq, metis mod_mult_eq)

lemma eqp_refl: "eqp x x" and eqp_mod: "eqp x y \<Longrightarrow> eqp (x mod p25519) y"
  by (simp_all add: eqp_def)

lemma fe_eqI: "eqp (fe a) y \<Longrightarrow> fe a = y mod p25519"
  by (simp add: eqp_def fe_def)

lemma eqp_fe:
  "small a \<Longrightarrow> small b \<Longrightarrow> eqp (fe a) a' \<Longrightarrow> eqp (fe b) b' \<Longrightarrow> eqp (fe (M25519 a b)) (a' * b')"
  "small a \<Longrightarrow> eqp (fe a) a' \<Longrightarrow> eqp (fe (S25519 a)) (a' * a')"
  "gfb B a \<Longrightarrow> gfb C b \<Longrightarrow> B + C \<le> 2 ^ 20 \<Longrightarrow> eqp (fe a) a' \<Longrightarrow> eqp (fe b) b' \<Longrightarrow> eqp (fe (A25519 a b)) (a' + b')"
  "gfb B a \<Longrightarrow> gfb C b \<Longrightarrow> B + C \<le> 2 ^ 20 \<Longrightarrow> eqp (fe a) a' \<Longrightarrow> eqp (fe b) b' \<Longrightarrow> eqp (fe (Z25519 a b)) (a' - b')"
  by (simp_all add: fe_ops fmul_def fadd_def fsub_def eqp_mod eqp_ops)

definition ext_rel :: "point \<Rightarrow> epoint \<Rightarrow> bool" where
  "ext_rel p P \<longleftrightarrow> (case p of (p0, p1, p2, p3) \<Rightarrow>
     gfb (2 ^ 17) p0 \<and> gfb (2 ^ 17) p1 \<and> gfb (2 ^ 17) p2 \<and> gfb (2 ^ 17) p3 \<and> P = (fe p0, fe p1, fe p2, fe p3))"

lemma small_AZ:
  assumes "gfb (2 ^ 18) a" "gfb (2 ^ 17) b"
  shows "small (A25519 a b)" "small (Z25519 a b)"
  unfolding small_def using A25519_fe(1) [OF assms] Z25519_fe(1) [OF assms] by (auto elim!: gfb_mono)

lemma ed_add_mod: "ed_add (fe p0, fe p1, fe p2, fe p3) (fe q0, fe q1, fe q2, fe q3) = (e * f mod p25519, g * h mod p25519, f * g mod p25519, e * h mod p25519)"
  if "e = (fe p1 + fe p0) * (fe q1 + fe q0) - (fe p1 - fe p0) * (fe q1 - fe q0)"
    "h = (fe p1 + fe p0) * (fe q1 + fe q0) + (fe p1 - fe p0) * (fe q1 - fe q0)"
    "f = fe p2 * 2 * fe q2 - fe p3 * 2 * ed_d * fe q3" "g = fe p2 * 2 * fe q2 + fe p3 * 2 * ed_d * fe q3"
  by (simp add: ed_add_def Let_def that)

lemma add_points_refines:
  assumes "ext_rel p P" "ext_rel q Q"
  shows "ext_rel (add_points p q) (ed_add P Q)"
proof -
  obtain p0 p1 p2 p3 q0 q1 q2 q3 where pq: "p = (p0, p1, p2, p3)" "q = (q0, q1, q2, q3)" by (cases p, cases q)
  have p: "gfb (2 ^ 17) p0" "gfb (2 ^ 17) p1" "gfb (2 ^ 17) p2" "gfb (2 ^ 17) p3" "P = (fe p0, fe p1, fe p2, fe p3)"
    and q: "gfb (2 ^ 17) q0" "gfb (2 ^ 17) q1" "gfb (2 ^ 17) q2" "gfb (2 ^ 17) q3" "Q = (fe q0, fe q1, fe q2, fe q3)"
    using assms by (simp_all add: ext_rel_def pq)
  have AZ: "eqp (fe (A25519 a b)) (a' + b')" "eqp (fe (Z25519 a b)) (a' - b')"
    if "gfb (2 ^ 17) a" "gfb (2 ^ 17) b" "eqp (fe a) a'" "eqp (fe b) b'" for a b a' b'
    using eqp_fe(3,4) [OF that(1,2) _ that(3,4)] by simp_all
  have sAZ: "small (A25519 a b)" "small (Z25519 a b)" if "gfb (2 ^ 17) a" "gfb (2 ^ 17) b" for a b
    using gfb_A [OF that] gfb_Z [OF that] by (auto intro: small_gfb(3))
  note r = eqp_refl
  define a b where "a = M25519 (Z25519 p1 p0) (Z25519 q1 q0)" and "b = M25519 (A25519 p0 p1) (A25519 q0 q1)"
  have a: "eqp (fe a) ((fe p1 - fe p0) * (fe q1 - fe q0))" "gfb (2 ^ 17) a"
    unfolding a_def by (intro eqp_fe(1) gfb_M AZ sAZ p q r)+
  have b: "eqp (fe b) ((fe p0 + fe p1) * (fe q0 + fe q1))" "gfb (2 ^ 17) b"
    unfolding b_def by (intro eqp_fe(1) gfb_M AZ sAZ p q r)+
  define c where "c = M25519 (M25519 p3 q3) gf_D2"
  have D2: "small gf_D2" "eqp (fe gf_D2) (2 * ed_d)" using gfb_ed_consts(2) by (auto intro: small_gfb(1) simp: fe_ed_consts eqp_def)
  have c: "eqp (fe c) (fe p3 * fe q3 * (2 * ed_d))" "gfb (2 ^ 17) c"
    unfolding c_def by (intro eqp_fe(1) gfb_M D2 small_gfb(2) p q r)+
  define d where "d = A25519 (M25519 p2 q2) (M25519 p2 q2)"
  have d: "eqp (fe d) (fe p2 * fe q2 + fe p2 * fe q2)" "gfb (2 ^ 18) d"
    unfolding d_def by (intro AZ gfb_A eqp_fe(1) gfb_M small_gfb(2) p q r)+
  define e f g h where "e = Z25519 b a" and "f = Z25519 d c" and "g = A25519 d c" and "h = A25519 b a"
  have s: "small e" "small f" "small g" "small h"
    unfolding e_def f_def g_def h_def using a b c d by (auto intro: sAZ small_AZ)
  define E H F G where
    "E = (fe p1 + fe p0) * (fe q1 + fe q0) - (fe p1 - fe p0) * (fe q1 - fe q0)"
    and "H = (fe p1 + fe p0) * (fe q1 + fe q0) + (fe p1 - fe p0) * (fe q1 - fe q0)"
    and "F = fe p2 * 2 * fe q2 - fe p3 * 2 * ed_d * fe q3" and "G = fe p2 * 2 * fe q2 + fe p3 * 2 * ed_d * fe q3"
  have v: "eqp (fe e) E" "eqp (fe h) H" "eqp (fe f) F" "eqp (fe g) G"
  proof -
    show "eqp (fe e) E" "eqp (fe h) H"
      using AZ(1,2) [OF b(2) a(2) b(1) a(1)] unfolding e_def h_def E_def H_def by (simp_all only: add.commute [of "fe p0"] add.commute [of "fe q0"])
    have "eqp (fe f) (fe p2 * fe q2 + fe p2 * fe q2 - fe p3 * fe q3 * (2 * ed_d))"
      "eqp (fe g) (fe p2 * fe q2 + fe p2 * fe q2 + fe p3 * fe q3 * (2 * ed_d))"
      unfolding f_def g_def using eqp_fe(3,4) [OF d(2) c(2) _ d(1) c(1)] by simp_all
    then show "eqp (fe f) F" "eqp (fe g) G" by (simp_all add: F_def G_def algebra_simps)
  qed
  have "add_points p q = (M25519 e f, M25519 h g, M25519 g f, M25519 e h)"
    by (simp add: add_points_def pq Let_def a_def b_def c_def d_def e_def f_def g_def h_def)
  moreover have "fe (M25519 e f) = E * F mod p25519" "fe (M25519 h g) = H * G mod p25519"
      "fe (M25519 g f) = G * F mod p25519" "fe (M25519 e h) = E * H mod p25519"
    by (intro fe_eqI eqp_fe(1) s v)+
  moreover have "gfb (2 ^ 17) (M25519 e f)" "gfb (2 ^ 17) (M25519 h g)" "gfb (2 ^ 17) (M25519 g f)" "gfb (2 ^ 17) (M25519 e h)"
    by (intro gfb_M s)+
  ultimately show ?thesis
    by (simp add: ext_rel_def p(5) q(5) ed_add_mod [OF E_def H_def F_def G_def] mult.commute)
qed

lemma cswap_eq:
  assumes "ext_rel p P" "ext_rel q Q"
  shows "cswap p q 0 = (p, q)" "cswap p q 1 = (q, p)"
proof -
  obtain p0 p1 p2 p3 q0 q1 q2 q3 where pq: "p = (p0, p1, p2, p3)" "q = (q0, q1, q2, q3)" by (cases p, cases q)
  have "length p0 = 16" "length p1 = 16" "length p2 = 16" "length p3 = 16"
    "length q0 = 16" "length q1 = 16" "length q2 = 16" "length q3 = 16"
    using assms by (simp_all add: pq ext_rel_def gfb_def)
  then show "cswap p q 0 = (p, q)" "cswap p q 1 = (q, p)"
    by (simp_all add: cswap_def pq sel25519_eq Let_def)
qed

lemma ed_add_commute: "ed_add P Q = ed_add Q P"
  by (cases P, cases Q) (simp add: ed_add_def Let_def mult.commute mult.left_commute)

lemma scalarmult_step_refines:
  assumes "ext_rel p P" "ext_rel q Q" "i div 8 < length s"
  shows "ext_rel (fst (scalarmult_step s (p, q) i)) (fst (ed_step (bytes_val s) (P, Q) i)) \<and>
    ext_rel (snd (scalarmult_step s (p, q) i)) (snd (ed_step (bytes_val s) (P, Q) i))"
proof -
  note add = add_points_refines [OF assms(1) assms(1)] add_points_refines [OF assms(2) assms(2)]
    add_points_refines [OF assms(2) assms(1)] add_points_refines [OF assms(1) assms(2)]
  have c: "cswap q p 1 = (p, q)" "cswap q p 0 = (q, p)" using cswap_eq [OF assms(2,1)] by simp_all
  note sw = cswap_eq [OF assms(1,2)] c cswap_eq [OF add(1,3)] cswap_eq [OF add(2,4)]
  show ?thesis
    using add by (simp add: scalarmult_step_def ed_step_def scalar_bit_eq [OF assms(3)] sw Let_def ed_add_commute [of Q P])
qed

lemma scalarmult_loop:
  assumes "ext_rel p P" "ext_rel q Q" "\<forall>i \<in> set is. i div 8 < length s"
  shows "ext_rel (fst (foldl (scalarmult_step s) (p, q) is)) (fst (foldl (ed_step (bytes_val s)) (P, Q) is))"
  using assms
proof (induction "is" arbitrary: p q P Q)
  case (Cons i "is")
  have "ext_rel (fst (scalarmult_step s (p, q) i)) (fst (ed_step (bytes_val s) (P, Q) i)) \<and>
    ext_rel (snd (scalarmult_step s (p, q) i)) (snd (ed_step (bytes_val s) (P, Q) i))"
    using Cons.prems by (intro scalarmult_step_refines) auto
  then show ?case
    using Cons.IH [of "fst (scalarmult_step s (p, q) i)" "fst (ed_step (bytes_val s) (P, Q) i)"
        "snd (scalarmult_step s (p, q) i)" "snd (ed_step (bytes_val s) (P, Q) i)"] Cons.prems
    by simp
qed simp

lemma neutral_point_ext: "ext_rel (gf0, gf1, gf1, gf0) (0, 1, 1, 0)"
  using gfb_consts(2,3) by (simp add: ext_rel_def fe_consts)

lemma base_point_ext: "ext_rel (gf_X, gf_Y, gf1, M25519 gf_X gf_Y) ed_base"
proof -
  have g: "gfb (2 ^ 17) gf_X" "gfb (2 ^ 17) gf_Y" using gfb_ed_consts(4,5) by (auto elim!: gfb_mono)
  have s: "small gf_X" "small gf_Y" using gfb_ed_consts(4,5) by (auto intro: small_gfb(1))
  have "fe (M25519 gf_X gf_Y) = ed_Bx * ed_By mod p25519" using M25519_fe(2) [OF s] by (simp add: fe_ed_base)
  with g gfb_M [OF s] gfb_consts(3) show ?thesis by (simp add: ext_rel_def ed_base_def fe_ed_base fe_consts)
qed

lemma scalarmult_refines:
  assumes "ext_rel q Q" "length s = 32"
  shows "ext_rel (scalarmult q s) (ed_mult (bytes_val s) Q)"
proof -
  define l :: "nat list" where "l = rev [0..<256]"
  have "\<forall>i \<in> set l. i div 8 < length s" unfolding l_def set_rev set_upt using assms(2) by auto
  then show ?thesis unfolding scalarmult_def ed_mult_def l_def [symmetric] using assms(1) neutral_point_ext by (intro scalarmult_loop)
qed

lemma scalarbase_refines: "length s = 32 \<Longrightarrow> ext_rel (scalarbase s) (ed_mult (bytes_val s) ed_base)"
  unfolding scalarbase_def by (rule scalarmult_refines [OF base_point_ext])

section \<open>Refinement of decoding and encoding\<close>

lemma eqp_power: "eqp x y \<Longrightarrow> eqp (x ^ n) (y ^ n)"
  by (induction n) (simp_all add: eqp_refl eqp_ops)

lemma eqp_trans [trans]: "eqp x y \<Longrightarrow> eqp y z \<Longrightarrow> eqp x z"
  by (simp add: eqp_def)

lemma gfb_17_60: "gfb (2 ^ 17) a \<Longrightarrow> gfb (2 ^ 60) a" and small_60: "small a \<Longrightarrow> gfb (2 ^ 60) a"
  unfolding small_def by (erule gfb_mono, simp)+

text \<open>The candidate for the coordinate, from the numerator and denominator of its square.\<close>

lemma square_root_candidate:
  assumes "small num" "small den" "fe num = u" "fe den = v"
  defines "t \<equiv> pow2523 (M25519 (M25519 (M25519 (S25519 (S25519 den)) (S25519 den)) num) den)"
  defines "r \<equiv> M25519 (M25519 (M25519 (M25519 t num) den) den) den"
  shows "gfb (2 ^ 17) r" "fe r = u * v ^ 3 * (u * v ^ 7) ^ nat (2 ^ 252 - 3) mod p25519"
proof -
  note sM = M25519_fe(1) [THEN reduced_small] S25519_fe(1) [THEN reduced_small]
  have uv: "eqp (fe num) u" "eqp (fe den) v" by (simp_all add: assms eqp_refl)
  define q where "q = M25519 (M25519 (M25519 (S25519 (S25519 den)) (S25519 den)) num) den"
  have q: "small q" "eqp (fe q) (v * v * (v * v) * (v * v) * u * v)"
    unfolding q_def by (intro sM assms eqp_fe(1,2) uv)+
  have "v * v * (v * v) * (v * v) * u * v = u * v ^ 7" by (simp add: eval_nat_numeral)
  with q(2) have "eqp (fe q) (u * v ^ 7)" by simp
  then have "eqp (fe q ^ nat (2 ^ 252 - 3)) ((u * v ^ 7) ^ nat (2 ^ 252 - 3))" by (rule eqp_power)
  then have t: "eqp (fe t) ((u * v ^ 7) ^ nat (2 ^ 252 - 3))" "small t"
    unfolding t_def q_def [symmetric] pow2523_fe(2) [OF q(1)] using pow2523_fe(1) [OF q(1)] by (auto intro: eqp_mod reduced_small)
  show "gfb (2 ^ 17) r" unfolding r_def by (intro gfb_M sM t assms)
  have "eqp (fe r) ((u * v ^ 7) ^ nat (2 ^ 252 - 3) * u * v * v * v)"
    unfolding r_def by (intro eqp_fe(1) sM t assms uv)
  moreover have "w * u * v * v * v = u * v ^ 3 * w" for w by (simp add: eval_nat_numeral)
  ultimately show "fe r = u * v ^ 3 * (u * v ^ 7) ^ nat (2 ^ 252 - 3) mod p25519" by (intro fe_eqI) (simp only:)
qed

lemma square_check:
  assumes "small r" "small num" "small den" "length stack = 16"
  shows "neq25519 stack (M25519 (S25519 r) den) num \<noteq> 0 \<longleftrightarrow> fe den * (fe r * fe r) mod p25519 \<noteq> fe num"
proof -
  have s: "small (S25519 r)" using S25519_fe(1) [OF assms(1)] by (rule reduced_small)
  have "fe (M25519 (S25519 r) den) = fe r * fe r * fe den mod p25519"
    by (rule fe_eqI) (intro eqp_fe(1,2) s assms eqp_refl)
  moreover have "gfb (2 ^ 60) (M25519 (S25519 r) den)" using gfb_M [OF s assms(3)] by (rule gfb_17_60)
  ultimately show ?thesis using neq25519_fe [OF _ small_60 [OF assms(2)] assms(4)] by (simp add: mult.commute)
qed

lemma top_bit: "length p = 32 \<Longrightarrow> drop_bit 7 (p ! 31) = (of_bool (odd (bytes_val p div 2 ^ 255)) :: u8)"
proof -
  assume "length p = 32"
  then have b: "odd (bytes_val p div 2 ^ 255) \<longleftrightarrow> bit (p ! 31) 7" using bytes_val_bit [of 255 p] by simp
  have "\<not> bit (p ! 31) (7 + n)" if "n \<noteq> 0" for n using that by (intro bit_u8_ge) simp
  note high = this
  show ?thesis unfolding b
  proof (rule bit_word_eqI)
    fix n
    show "bit (drop_bit 7 (p ! 31)) n \<longleftrightarrow> bit (of_bool (bit (p ! 31) 7) :: u8) n"
      using high [of n] by (cases "n = 0") (simp_all add: bit_simps)
  qed
qed

lemma unpackneg_refines:
  assumes "length p = 32" "length stack = 16"
  shows "case unpackneg stack p of
      None \<Rightarrow> ed_decode_neg p = None
    | Some r \<Rightarrow> \<exists>R. ed_decode_neg p = Some R \<and> ext_rel r R"
proof -
  note sM = M25519_fe(1) [THEN reduced_small] S25519_fe(1) [THEN reduced_small]
  define y where "y = bytes_val p mod 2 ^ 255 mod p25519"
  define r1 where "r1 = unpack25519 p"
  have r1: "gfb (2 ^ 16) r1" "fe r1 = y" using unpack25519_eq [OF assms(1)] by (simp_all add: r1_def fe_def y_def)
  have r1': "small r1" "gfb (2 ^ 17) r1" "eqp (fe r1) y"
    using r1 by (auto intro: small_gfb(1) elim!: gfb_mono simp: eqp_refl)
  have c: "small gf_D" "eqp (fe gf_D) ed_d" "gfb (2 ^ 17) gf1" "eqp (fe gf1) 1"
    using gfb_ed_consts(1) gfb_consts(3) by (auto intro: small_gfb(1) simp: fe_ed_consts fe_consts eqp_refl)
  define u v where "u = (y * y - 1) mod p25519" and "v = (ed_d * (y * y) + 1) mod p25519"
  define num where "num = Z25519 (S25519 r1) gf1"
  define den where "den = A25519 gf1 (M25519 (S25519 r1) gf_D)"
  have g: "gfb (2 ^ 17) (S25519 r1)" "gfb (2 ^ 17) (M25519 (S25519 r1) gf_D)" by (intro gfb_S gfb_M sM r1' c)+
  have sm: "small num" "small den" unfolding num_def den_def by (intro small_gfb(3) gfb_A gfb_Z g c)+
  have "eqp (fe num) (y * y - 1)" unfolding num_def
    by (rule eqp_fe(4) [OF g(1) c(3) _ eqp_fe(2) [OF r1'(1,3)] c(4)]) simp
  then have u: "fe num = u" unfolding u_def by (rule fe_eqI)
  have "eqp (fe den) (1 + y * y * ed_d)" unfolding den_def
    by (rule eqp_fe(3) [OF c(3) g(2) _ c(4) eqp_fe(1) [OF sM(2) [OF r1'(1)] c(1) eqp_fe(2) [OF r1'(1,3)] c(2)]]) simp
  then have v: "fe den = v" unfolding v_def by (intro fe_eqI) (simp add: algebra_simps)
  define r0 where "r0 = M25519 (M25519 (M25519 (M25519 (pow2523 (M25519 (M25519 (M25519 (S25519 (S25519 den)) (S25519 den)) num) den)) num) den) den) den"
  define x where "x = u * v ^ 3 * (u * v ^ 7) ^ nat ((p25519 - 5) div 8) mod p25519"
  have "(p25519 - 5) div 8 = 2 ^ 252 - 3" by (simp add: p25519_def)
  then have r0: "gfb (2 ^ 17) r0" "fe r0 = x"
    using square_root_candidate [OF sm u v] unfolding r0_def x_def by (simp_all only:)
  define r0' where "r0' = (if neq25519 stack (M25519 (S25519 r0) den) num \<noteq> 0 then M25519 r0 gf_I else r0)"
  define x' where "x' = (if v * (x * x) mod p25519 = u then x else x * ed_i mod p25519)"
  have I: "small gf_I" using gfb_ed_consts(3) by (rule small_gfb(1))
  have "fe (M25519 r0 gf_I) = x * ed_i mod p25519"
    using M25519_fe(2) [OF small_gfb(2) [OF r0(1)] I] by (simp add: r0 fe_ed_consts)
  then have r0': "gfb (2 ^ 17) r0'" "fe r0' = x'"
    unfolding r0'_def x'_def using r0 gfb_M [OF small_gfb(2) [OF r0(1)] I]
    by (auto simp: square_check [OF small_gfb(2) [OF r0(1)] sm assms(2)] u v)
  have chk: "neq25519 stack (M25519 (S25519 r0') den) num \<noteq> 0 \<longleftrightarrow> v * (x' * x') mod p25519 \<noteq> u"
    using square_check [OF small_gfb(2) [OF r0'(1)] sm assms(2)] by (simp add: r0' u v)
  define s where "s = (if par25519 stack r0' = drop_bit 7 (p ! 31) then Z25519 gf0 r0' else r0')"
  define x'' where "x'' = (if odd x' = odd (bytes_val p div 2 ^ 255) then (- x') mod p25519 else x')"
  have par: "par25519 stack r0' = drop_bit 7 (p ! 31) \<longleftrightarrow> odd x' = odd (bytes_val p div 2 ^ 255)"
    using par25519_fe [OF gfb_17_60 [OF r0'(1)] assms(2)] by (simp add: top_bit [OF assms(1)] r0' of_bool_eq_iff)
  have g0: "gfb 0 gf0" by (auto simp: gfb_def gf0_def)
  have "gfb (2 ^ 17) (Z25519 gf0 r0')" "fe (Z25519 gf0 r0') = (- x') mod p25519"
    using Z25519_fe [OF g0 r0'(1)] by (simp_all add: r0' fe_consts)
  then have s: "gfb (2 ^ 17) s" "fe s = x''" unfolding s_def x''_def par using r0' by auto
  have unp: "unpackneg stack p = (if neq25519 stack (M25519 (S25519 r0') den) num \<noteq> 0 then None else Some (s, r1, gf1, M25519 s r1))"
    unfolding unpackneg_def Let_def r1_def [symmetric] num_def [symmetric] den_def [symmetric] r0_def [symmetric] r0'_def [symmetric] s_def [symmetric] ..
  have dec: "ed_decode_neg p = (if v * (x' * x') mod p25519 \<noteq> u then None else Some (x'', y, 1, x'' * y mod p25519))"
    unfolding ed_decode_neg_def Let_def y_def [symmetric] u_def [symmetric] v_def [symmetric] x_def [symmetric] x'_def [symmetric] x''_def [symmetric] ..
  have sy: "small s" "small r1" by (rule small_gfb(2) [OF s(1)], rule r1'(1))
  have "ext_rel (s, r1, gf1, M25519 s r1) (x'', y, 1, x'' * y mod p25519)"
    using s r1 r1' c gfb_M [OF sy] M25519_fe(2) [OF sy] by (simp add: ext_rel_def fe_consts)
  then show ?thesis unfolding unp dec chk by simp
qed

lemma le_bytes_nth: "i < n \<Longrightarrow> le_bytes n v ! i = word_of_int (v div 256 ^ i)"
proof (induction n arbitrary: v i)
  case (Suc n)
  have "v div 256 div 256 ^ j = v div 256 ^ Suc j" for j by (simp add: zdiv_zmult2_eq)
  with Suc show ?case by (cases i) simp_all
qed simp

lemma add_top_bit: "\<not> bit (w :: u8) 7 \<Longrightarrow> w + push_bit 7 (of_bool b) = w XOR push_bit 7 (of_bool b)"
proof -
  assume w: "\<not> bit w 7"
  have e: "bit (push_bit 7 (of_bool b) :: u8) n \<longleftrightarrow> n = 7 \<and> b" for n
    by (auto simp: bit_simps)
  have "w + push_bit 7 (of_bool b) = w OR push_bit 7 (of_bool b)"
    using w e by (intro disjunctive_add) auto
  also have "\<dots> = w XOR push_bit 7 (of_bool b)"
    by (rule bit_word_eqI) (use w e in \<open>auto simp: bit_or_iff bit_xor_iff\<close>)
  finally show ?thesis .
qed

lemma le_bytes_sign:
  assumes "0 \<le> y" "y < 2 ^ 255"
  shows "le_bytes 32 (y + 2 ^ 255 * of_bool b) = (le_bytes 32 y)[31 := le_bytes 32 y ! 31 XOR push_bit 7 (of_bool b)]"
proof (rule nth_equalityI)
  fix i assume "i < length (le_bytes 32 (y + 2 ^ 255 * of_bool b))"
  then have i: "i < 32" by simp
  show "le_bytes 32 (y + 2 ^ 255 * of_bool b) ! i = (le_bytes 32 y)[31 := le_bytes 32 y ! 31 XOR push_bit 7 (of_bool b)] ! i"
  proof (cases "i = 31")
    case True
    define t where "t = y div 256 ^ 31"
    have t: "0 \<le> t" "t < 128" using assms by (simp_all add: t_def)
    have "2 ^ 255 * of_bool b = 256 ^ 31 * (128 * of_bool b :: int)" by simp
    then have d: "(y + 2 ^ 255 * of_bool b) div 256 ^ 31 = t + 128 * of_bool b" by (simp add: t_def)
    have "bit t k \<Longrightarrow> k < 7" for k
    proof (rule ccontr)
      assume "bit t k" "\<not> k < 7"
      moreover have "t div 2 ^ k = 0" using t \<open>\<not> k < 7\<close> power_increasing [of 7 k "2 :: int"] by (intro div_pos_pos_trivial) auto
      ultimately show False by (simp add: bit_iff_odd)
    qed
    then have "\<not> bit (word_of_int t :: u8) 7" by (auto simp: bit_simps)
    from add_top_bit [OF this, of b]
    have "(word_of_int (t + 128 * of_bool b) :: u8) = word_of_int t XOR push_bit 7 (of_bool b)"
      by (cases b) (simp_all add: push_bit_eq_mult)
    moreover have n: "31 < (32 :: nat)" by simp
    have "le_bytes 32 (y + 2 ^ 255 * of_bool b) ! 31 = word_of_int (t + 128 * of_bool b)"
      "le_bytes 32 y ! 31 = word_of_int t"
      unfolding le_bytes_nth [OF n] d t_def by (rule refl)+
    ultimately show ?thesis unfolding True by (simp only: nth_list_update_eq length_le_bytes n)
  next
    case False
    then have "i < 31" using i by simp
    define k where "k = 2 ^ (255 - 8 * Suc i) * (of_bool b :: int)"
    have "2 ^ 255 * of_bool b = 256 ^ i * (256 * k)"
    proof -
      have "(2 :: int) ^ 255 = 2 ^ (8 * Suc i) * 2 ^ (255 - 8 * Suc i)" using \<open>i < 31\<close> by (simp only: power_add [symmetric]) simp
      moreover have "(2 :: int) ^ (8 * Suc i) = 256 ^ i * 256" by (simp only: power_mult) simp
      ultimately show ?thesis unfolding k_def by (simp only: mult.assoc)
    qed
    then have "(y + 2 ^ 255 * of_bool b) div 256 ^ i = y div 256 ^ i + 256 * k" by (simp only: div_mult_self2) simp
    then have "(word_of_int ((y + 2 ^ 255 * of_bool b) div 256 ^ i) :: u8) = word_of_int (y div 256 ^ i)"
      by (intro word8_cong) simp
    then show ?thesis using False by (simp only: nth_list_update_neq le_bytes_nth [OF i])
  qed
qed simp

lemma pack_point_refines:
  assumes "ext_rel p P" "length stack = 16"
  shows "pack_point stack p = ed_encode P"
proof -
  obtain p0 p1 p2 p3 where p: "p = (p0, p1, p2, p3)" by (cases p)
  have g: "gfb (2 ^ 17) p0" "gfb (2 ^ 17) p1" "gfb (2 ^ 17) p2" "P = (fe p0, fe p1, fe p2, fe p3)"
    using assms(1) by (simp_all add: p ext_rel_def)
  note sm = g(1-3) [THEN small_gfb(2)]
  define zi where "zi = inv25519 p2"
  have zi: "small zi" "fe zi = fe p2 ^ nat (p25519 - 2) mod p25519"
    unfolding zi_def using inv25519_fe [OF sm(3)] by (auto intro: reduced_small)
  define x y where "x = fe p0 * fe zi mod p25519" and "y = fe p1 * fe zi mod p25519"
  have xy: "fe (M25519 p0 zi) = x" "fe (M25519 p1 zi) = y"
    using M25519_fe(2) [OF sm(1) zi(1)] M25519_fe(2) [OF sm(2) zi(1)] by (simp_all add: x_def y_def)
  have "gfb (2 ^ 60) (M25519 p0 zi)" "gfb (2 ^ 60) (M25519 p1 zi)" by (intro gfb_17_60 gfb_M sm zi)+
  from par25519_fe [OF this(1) assms(2)] pack25519_eq [OF this(2) assms(2)]
  have "par25519 stack (M25519 p0 zi) = of_bool (odd x)" "pack25519 stack (M25519 p1 zi) = le_bytes 32 y"
    by (simp_all only: xy fe_def [symmetric])
  then have "pack_point stack p = (le_bytes 32 y)[31 := le_bytes 32 y ! 31 XOR push_bit 7 (of_bool (odd x))]"
    by (simp only: pack_point_def p prod.case Let_def zi_def [symmetric])
  moreover have "0 \<le> y" "y < 2 ^ 255" using fe_range [of "M25519 p1 zi"] unfolding xy by (auto simp: p25519_def)
  ultimately have "pack_point stack p = le_bytes 32 (y + 2 ^ 255 * of_bool (odd x))" by (simp only: le_bytes_sign)
  also have "of_bool (odd x) = x mod 2" by (simp add: mod2_eq_if)
  finally show ?thesis by (simp only: g(4) ed_encode_def prod.case Let_def zi(2) [symmetric] x_def [symmetric] y_def [symmetric])
qed

lemma crypto_verify_32_take:
  assumes "32 \<le> length x" "length y = 32"
  shows "crypto_verify_32 x y = 0 \<longleftrightarrow> y = take 32 x"
proof -
  have "(\<forall>i < 32. x ! i = y ! i) \<longleftrightarrow> y = take 32 x" using assms by (auto simp: list_eq_iff_nth_eq)
  then show ?thesis by (simp add: crypto_verify_32_eq)
qed

lemma crypto_ed25519_verify_eq:
  assumes "length signature = 64" "length public_key = 32" "length stack = 16" "length stack' = 128"
    and "length message < 2 ^ 60"
  shows "crypto_ed25519_verify stack stack' mem signature message public_key \<longleftrightarrow>
    mem \<and> ed_verify (crypto_sha512 stack') signature message public_key"
proof (cases "unpackneg stack public_key")
  case None
  then have "ed_decode_neg public_key = None" using unpackneg_refines [OF assms(2,3)] by simp
  with None show ?thesis by (simp add: crypto_ed25519_verify_def ed_verify_def Let_def)
next
  case (Some q)
  then obtain A where A: "ed_decode_neg public_key = Some A" "ext_rel q A"
    using unpackneg_refines [OF assms(2,3)] by auto
  define h where "h = crypto_sha512 stack' (take 32 signature @ public_key @ message)"
  have h: "length h = 64" unfolding h_def using assms by (intro length_crypto_sha512) simp_all
  have "length (reduce h) = 32" "bytes_val (reduce h) = bytes_val h mod L25519"
    using reduce_eq [OF h] reduce_val [OF h] by simp_all
  with scalarmult_refines [OF A(2), of "reduce h"] have k: "ext_rel (scalarmult q (reduce h)) (ed_mult (bytes_val h mod L25519) A)" by simp
  have s: "ext_rel (scalarbase (drop 32 signature)) (ed_mult (bytes_val (drop 32 signature)) ed_base)"
    using assms(1) by (intro scalarbase_refines) simp
  define t where "t = pack_point stack (add_points (scalarmult q (reduce h)) (scalarbase (drop 32 signature)))"
  have t: "t = ed_encode (ed_add (ed_mult (bytes_val h mod L25519) A) (ed_mult (bytes_val (drop 32 signature)) ed_base))"
    unfolding t_def by (rule pack_point_refines [OF add_points_refines [OF k s] assms(3)])
  then have "length t = 32" by (simp add: ed_encode_def Let_def split: prod.split)
  then have "crypto_verify_32 signature t = 0 \<longleftrightarrow> t = take 32 signature" using assms(1) by (intro crypto_verify_32_take) simp_all
  then show ?thesis using Some A(1) t
    by (simp add: crypto_ed25519_verify_def ed_verify_def Let_def h_def [symmetric] t_def [symmetric])
qed

section \<open>Properties\<close>



end
