(* ===== verification/Edwards.thy ===== *)
theory Edwards
  imports Ed25519
begin

text \<open>
  What the point arithmetic of \<open>src/crypto_ed25519.c\<close> means: points are points of the twisted
  Edwards curve $-x^2 + y^2 = 1 + d x^2 y^2$, decoding yields points of the curve, and addition
  is the addition law of the curve and stays on it.
\<close>

section \<open>The addition law\<close>

text \<open>Extended coordinates of points of the curve.\<close>

definition on_curve :: "int \<Rightarrow> int \<Rightarrow> bool" where
  "on_curve x y \<longleftrightarrow> eqp (y * y - x * x) (1 + ed_d * (x * x) * (y * y))"

definition on_ext :: "epoint \<Rightarrow> bool" where
  "on_ext P \<longleftrightarrow> (case P of (X, Y, Z, T) \<Rightarrow> eqp (Y * Y - X * X) (Z * Z + ed_d * (T * T)) \<and> eqp (X * Y) (Z * T))"

definition represents :: "epoint \<Rightarrow> int \<Rightarrow> int \<Rightarrow> bool" where
  "represents P x y \<longleftrightarrow> (case P of (X, Y, Z, T) \<Rightarrow> eqp X (x * Z) \<and> eqp Y (y * Z) \<and> eqp T (x * y * Z))"

lemma eqp_sym: "eqp x y \<Longrightarrow> eqp y x"
  by (simp add: eqp_def)

lemma eqp_mod2: "eqp x y \<Longrightarrow> eqp x (y mod p25519)"
  by (simp add: eqp_def)

lemma edwards_closed:
  assumes "eqp (Y1 * Y1 - X1 * X1) (Z1 * Z1 + d * (T1 * T1))" "eqp (X1 * Y1) (Z1 * T1)"
    and "eqp (Y2 * Y2 - X2 * X2) (Z2 * Z2 + d * (T2 * T2))" "eqp (X2 * Y2) (Z2 * T2)"
    and "E = X1 * Y2 + Y1 * X2" "H = Y1 * Y2 + X1 * X2" "F = Z1 * Z2 - d * (T1 * T2)" "G = Z1 * Z2 + d * (T1 * T2)"
  shows "eqp ((G * H) * (G * H) - (E * F) * (E * F)) ((F * G) * (F * G) + d * ((E * H) * (E * H)))"
proof -
  define a1 b1 a2 b2 where "a1 = Y1 * Y1" and "b1 = X1 * X1" and "a2 = Y2 * Y2" and "b2 = X2 * X2"
  define s1 t1 s2 t2 where "s1 = Z1 * Z1" and "t1 = T1 * T1" and "s2 = Z2 * Z2" and "t2 = T2 * T2"
  note defs = a1_def b1_def a2_def b2_def s1_def t1_def s2_def t2_def
  define x z where "x = X1 * Y1 * (X2 * Y2)" and "z = Z1 * T1 * (Z2 * T2)"
  define w S where "w = s1 * s2 + d * d * (t1 * t2)" and "S = b1 * a2 + a1 * b2 + (a1 * a2 + b1 * b2)"
  define K1 K2 q1 q2 where "K1 = a1 - b1" and "K2 = a2 - b2" and "q1 = X1 * Y1 * (X1 * Y1)" and "q2 = X2 * Y2 * (X2 * Y2)"
  define K1' K2' r1 r2 where "K1' = s1 + d * t1" and "K2' = s2 + d * t2" and "r1 = Z1 * T1 * (Z1 * T1)" and "r2 = Z2 * T2 * (Z2 * T2)"
  have e: "eqp x z" "eqp K1 K1'" "eqp K2 K2'" "eqp q1 r1" "eqp q2 r2"
    using assms(1-4) unfolding x_def z_def K1_def K2_def K1'_def K2'_def q1_def q2_def r1_def r2_def defs
    by (auto intro: eqp_ops)
  have l: "(G * H) * (G * H) - (E * F) * (E * F) - ((F * G) * (F * G) + d * ((E * H) * (E * H))) =
      w * (K1 * K2) + 2 * d * z * S + 8 * d * z * x - w * w + 4 * d * d * z * z
      - d * (q1 * (K2 * K2 + 2 * q2) + q2 * (K1 * K1 + 2 * q1)) - 2 * d * x * S - 4 * d * x * x"
    unfolding assms(5-8) x_def z_def w_def S_def K1_def K2_def q1_def q2_def defs by (simp add: algebra_simps)
  have "eqp (w * (K1 * K2) + 2 * d * z * S + 8 * d * z * x - w * w + 4 * d * d * z * z
      - d * (q1 * (K2 * K2 + 2 * q2) + q2 * (K1 * K1 + 2 * q1)) - 2 * d * x * S - 4 * d * x * x)
     (w * (K1' * K2') + 2 * d * z * S + 8 * d * z * z - w * w + 4 * d * d * z * z
      - d * (r1 * (K2' * K2' + 2 * r2) + r2 * (K1' * K1' + 2 * r1)) - 2 * d * z * S - 4 * d * z * z)"
    by (intro eqp_ops eqp_refl e)
  also have "w * (K1' * K2') + 2 * d * z * S + 8 * d * z * z - w * w + 4 * d * d * z * z
      - d * (r1 * (K2' * K2' + 2 * r2) + r2 * (K1' * K1' + 2 * r1)) - 2 * d * z * S - 4 * d * z * z = 0"
    unfolding z_def w_def K1'_def K2'_def r1_def r2_def defs by (simp add: algebra_simps)
  finally have "eqp ((G * H) * (G * H) - (E * F) * (E * F) - ((F * G) * (F * G) + d * ((E * H) * (E * H)))) 0" unfolding l .
  from eqp_ops(1) [OF this eqp_refl, of "(F * G) * (F * G) + d * ((E * H) * (E * H))"] show ?thesis by simp
qed

lemma ed_add_half:
  assumes "E = X1 * Y2 + Y1 * X2" "H = Y1 * Y2 + X1 * X2" "F = Z1 * Z2 - ed_d * (T1 * T2)" "G = Z1 * Z2 + ed_d * (T1 * T2)"
  shows "ed_add (X1, Y1, Z1, T1) (X2, Y2, Z2, T2) =
    (4 * (E * F) mod p25519, 4 * (G * H) mod p25519, 4 * (F * G) mod p25519, 4 * (E * H) mod p25519)"
proof -
  have "(Y1 + X1) * (Y2 + X2) - (Y1 - X1) * (Y2 - X2) = 2 * E" "(Y1 + X1) * (Y2 + X2) + (Y1 - X1) * (Y2 - X2) = 2 * H"
    "Z1 * 2 * Z2 - T1 * 2 * ed_d * T2 = 2 * F" "Z1 * 2 * Z2 + T1 * 2 * ed_d * T2 = 2 * G"
    by (simp_all add: assms algebra_simps)
  then have "ed_add (X1, Y1, Z1, T1) (X2, Y2, Z2, T2) =
      (2 * E * (2 * F) mod p25519, 2 * G * (2 * H) mod p25519, 2 * F * (2 * G) mod p25519, 2 * E * (2 * H) mod p25519)"
    by (simp only: ed_add_def prod.case Let_def)
  then show ?thesis by simp
qed

lemma on_ext_mod:
  assumes "on_ext (X, Y, Z, T)"
  shows "on_ext (X mod p25519, Y mod p25519, Z mod p25519, T mod p25519)"
proof -
  have m: "eqp (t mod p25519) t" "eqp t (t mod p25519)" for t by (simp_all add: eqp_def)
  note c = assms [unfolded on_ext_def prod.case]
  show ?thesis unfolding on_ext_def prod.case
  proof
    have "eqp (Y mod p25519 * (Y mod p25519) - X mod p25519 * (X mod p25519)) (Y * Y - X * X)" by (intro eqp_ops m)
    also note c [THEN conjunct1]
    also have "eqp (Z * Z + ed_d * (T * T)) (Z mod p25519 * (Z mod p25519) + ed_d * (T mod p25519 * (T mod p25519)))"
      by (intro eqp_ops m eqp_refl)
    finally show "eqp (Y mod p25519 * (Y mod p25519) - X mod p25519 * (X mod p25519))
      (Z mod p25519 * (Z mod p25519) + ed_d * (T mod p25519 * (T mod p25519)))" .
    have "eqp (X mod p25519 * (Y mod p25519)) (X * Y)" by (intro eqp_ops m)
    also note c [THEN conjunct2]
    also have "eqp (Z * T) (Z mod p25519 * (T mod p25519))" by (intro eqp_ops m)
    finally show "eqp (X mod p25519 * (Y mod p25519)) (Z mod p25519 * (T mod p25519))" .
  qed
qed

lemma ed_add_on_ext:
  assumes "on_ext P" "on_ext Q"
  shows "on_ext (ed_add P Q)"
proof -
  obtain X1 Y1 Z1 T1 X2 Y2 Z2 T2 where PQ: "P = (X1, Y1, Z1, T1)" "Q = (X2, Y2, Z2, T2)" by (cases P, cases Q)
  define E H F G where "E = X1 * Y2 + Y1 * X2" and "H = Y1 * Y2 + X1 * X2"
    and "F = Z1 * Z2 - ed_d * (T1 * T2)" and "G = Z1 * Z2 + ed_d * (T1 * T2)"
  have "eqp ((G * H) * (G * H) - (E * F) * (E * F)) ((F * G) * (F * G) + ed_d * ((E * H) * (E * H)))"
    using assms unfolding on_ext_def PQ prod.case
    by (intro edwards_closed [OF _ _ _ _ E_def H_def F_def G_def]) simp_all
  from eqp_ops(3) [OF eqp_refl this, of 16]
  have "eqp (4 * (G * H) * (4 * (G * H)) - 4 * (E * F) * (4 * (E * F)))
      (4 * (F * G) * (4 * (F * G)) + ed_d * (4 * (E * H) * (4 * (E * H))))" by (simp add: algebra_simps)
  moreover have "4 * (E * F) * (4 * (G * H)) = 4 * (F * G) * (4 * (E * H))" by simp
  ultimately have "on_ext (4 * (E * F), 4 * (G * H), 4 * (F * G), 4 * (E * H))"
    unfolding on_ext_def prod.case by (simp only: eqp_refl simp_thms)
  then show ?thesis unfolding PQ ed_add_half [OF E_def H_def F_def G_def] by (rule on_ext_mod)
qed

lemma represents_add:
  assumes "represents P x1 y1" "represents Q x2 y2" "ed_add P Q = (X3, Y3, Z3, T3)"
  shows "eqp (X3 * (1 + ed_d * x1 * x2 * y1 * y2)) ((x1 * y2 + x2 * y1) * Z3)"
    "eqp (Y3 * (1 - ed_d * x1 * x2 * y1 * y2)) ((y1 * y2 + x1 * x2) * Z3)"
proof -
  obtain X1 Y1 Z1 T1 X2 Y2 Z2 T2 where PQ: "P = (X1, Y1, Z1, T1)" "Q = (X2, Y2, Z2, T2)" by (cases P, cases Q)
  define E H F G where "E = X1 * Y2 + Y1 * X2" and "H = Y1 * Y2 + X1 * X2"
    and "F = Z1 * Z2 - ed_d * (T1 * T2)" and "G = Z1 * Z2 + ed_d * (T1 * T2)"
  note r = assms(1,2) [unfolded represents_def PQ prod.case]
  define k where "k = ed_d * x1 * x2 * y1 * y2"
  have E: "eqp E (x1 * Z1 * (y2 * Z2) + y1 * Z1 * (x2 * Z2))" and H: "eqp H (y1 * Z1 * (y2 * Z2) + x1 * Z1 * (x2 * Z2))"
    and F: "eqp F (Z1 * Z2 - ed_d * (x1 * y1 * Z1 * (x2 * y2 * Z2)))" and G: "eqp G (Z1 * Z2 + ed_d * (x1 * y1 * Z1 * (x2 * y2 * Z2)))"
    unfolding E_def H_def F_def G_def using r by (auto intro!: eqp_ops eqp_refl)
  have v: "X3 = 4 * (E * F) mod p25519" "Y3 = 4 * (G * H) mod p25519" "Z3 = 4 * (F * G) mod p25519"
    using assms(3) unfolding PQ ed_add_half [OF E_def H_def F_def G_def] by auto
  have "eqp (4 * (E * F) * (1 + k)) (4 * ((x1 * Z1 * (y2 * Z2) + y1 * Z1 * (x2 * Z2)) * F) * (1 + k))"
    by (intro eqp_ops eqp_refl E)
  also have "4 * ((x1 * Z1 * (y2 * Z2) + y1 * Z1 * (x2 * Z2)) * F) * (1 + k) =
      (x1 * y2 + x2 * y1) * (4 * (F * (Z1 * Z2 + ed_d * (x1 * y1 * Z1 * (x2 * y2 * Z2)))))" by (simp add: k_def algebra_simps)
  finally have "eqp (4 * (E * F) * (1 + k)) ((x1 * y2 + x2 * y1) * (4 * (F * G)))"
    by (rule eqp_trans) (intro eqp_ops eqp_refl eqp_sym [OF G])
  then show "eqp (X3 * (1 + ed_d * x1 * x2 * y1 * y2)) ((x1 * y2 + x2 * y1) * Z3)"
    unfolding v k_def [symmetric] by (simp add: eqp_def mod_simps)
  have "eqp (4 * (G * H) * (1 - k)) (4 * (G * (y1 * Z1 * (y2 * Z2) + x1 * Z1 * (x2 * Z2))) * (1 - k))"
    by (intro eqp_ops eqp_refl H)
  also have "4 * (G * (y1 * Z1 * (y2 * Z2) + x1 * Z1 * (x2 * Z2))) * (1 - k) =
      (y1 * y2 + x1 * x2) * (4 * ((Z1 * Z2 - ed_d * (x1 * y1 * Z1 * (x2 * y2 * Z2))) * G))" by (simp add: k_def algebra_simps)
  finally have "eqp (4 * (G * H) * (1 - k)) ((y1 * y2 + x1 * x2) * (4 * (F * G)))"
    by (rule eqp_trans) (intro eqp_ops eqp_refl eqp_sym [OF F])
  then show "eqp (Y3 * (1 - ed_d * x1 * x2 * y1 * y2)) ((y1 * y2 + x1 * x2) * Z3)"
    unfolding v k_def [symmetric] by (simp add: eqp_def mod_simps)
qed

lemma represents_on_ext:
  assumes "represents P x y" "on_curve x y"
  shows "on_ext P"
proof -
  obtain X Y Z T where P: "P = (X, Y, Z, T)" by (cases P)
  note r = assms(1) [unfolded represents_def P prod.case]
  have rT: "eqp (x * y * Z) T" using r by (simp add: eqp_sym)
  have c: "eqp (Z * Z * (y * y - x * x)) (Z * Z * (1 + ed_d * (x * x) * (y * y)))"
    using assms(2) unfolding on_curve_def by (intro eqp_ops eqp_refl)
  have "eqp (Y * Y - X * X) (y * Z * (y * Z) - x * Z * (x * Z))" using r by (intro eqp_ops) auto
  also have "y * Z * (y * Z) - x * Z * (x * Z) = Z * Z * (y * y - x * x)" by (simp add: algebra_simps)
  finally have "eqp (Y * Y - X * X) (Z * Z * (1 + ed_d * (x * x) * (y * y)))" using c by (rule eqp_trans)
  also have "Z * Z * (1 + ed_d * (x * x) * (y * y)) = Z * Z + ed_d * (x * y * Z * (x * y * Z))" by (simp add: algebra_simps)
  finally have "eqp (Y * Y - X * X) (Z * Z + ed_d * (T * T))"
    by (rule eqp_trans) (intro eqp_ops eqp_refl rT)
  moreover have "eqp (X * Y) (x * Z * (y * Z))" using r by (intro eqp_ops) auto
  then have "eqp (X * Y) (Z * (x * y * Z))" by (simp add: algebra_simps)
  then have "eqp (X * Y) (Z * T)" by (rule eqp_trans) (intro eqp_ops eqp_refl rT)
  ultimately show ?thesis by (simp add: on_ext_def P)
qed

lemma ed_decodeE:
  assumes "ed_decode_neg p = Some R"
  obtains x y b where "R = (x, y, 1, x * y mod p25519)" "y = bytes_val p mod 2 ^ 255 mod p25519"
    "(ed_d * (y * y) + 1) mod p25519 * (b * b) mod p25519 = (y * y - 1) mod p25519" "0 \<le> b" "b < p25519"
    "x = (if odd b = odd (bytes_val p div 2 ^ 255) then (- b) mod p25519 else b)"
proof -
  define y where "y = bytes_val p mod 2 ^ 255 mod p25519"
  define u v where "u = (y * y - 1) mod p25519" and "v = (ed_d * (y * y) + 1) mod p25519"
  define a where "a = u * v ^ 3 * (u * v ^ 7) ^ nat ((p25519 - 5) div 8) mod p25519"
  define b where "b = (if v * (a * a) mod p25519 = u then a else a * ed_i mod p25519)"
  define x where "x = (if odd b = odd (bytes_val p div 2 ^ 255) then (- b) mod p25519 else b)"
  have "ed_decode_neg p = (if v * (b * b) mod p25519 \<noteq> u then None else Some (x, y, 1, x * y mod p25519))"
    unfolding ed_decode_neg_def Let_def y_def [symmetric] u_def [symmetric] v_def [symmetric] a_def [symmetric]
      b_def [symmetric] x_def [symmetric] ..
  with assms have "R = (x, y, 1, x * y mod p25519)" "v * (b * b) mod p25519 = u" by (simp_all split: if_splits)
  moreover have "0 \<le> m mod p25519" "m mod p25519 < p25519" for m by (simp_all add: p25519_def)
  then have "0 \<le> b" "b < p25519" by (simp_all add: b_def a_def)
  ultimately show thesis using that y_def x_def unfolding u_def v_def by blast
qed

lemma ed_decode_on_curve:
  assumes "ed_decode_neg p = Some R"
  obtains x y where "R = (x, y, 1, x * y mod p25519)" "y = bytes_val p mod 2 ^ 255 mod p25519"
    "on_curve x y" "x = 0 \<or> odd x \<noteq> odd (bytes_val p div 2 ^ 255)"
proof -
  obtain x y x' where R: "R = (x, y, 1, x * y mod p25519)" "y = bytes_val p mod 2 ^ 255 mod p25519"
    and x': "(ed_d * (y * y) + 1) mod p25519 * (x' * x') mod p25519 = (y * y - 1) mod p25519" "0 \<le> x'" "x' < p25519"
      "x = (if odd x' = odd (bytes_val p div 2 ^ 255) then (- x') mod p25519 else x')"
    using assms by (rule ed_decodeE)
  have "eqp (x * x) (x' * x')"
  proof -
    have "eqp ((- x') mod p25519) (- x')" by (simp add: eqp_def)
    from eqp_ops(3) [OF this this] show ?thesis using x'(4) by (simp add: eqp_refl split: if_splits)
  qed
  moreover have "eqp ((ed_d * (y * y) + 1) * (x' * x')) (y * y - 1)"
    using x'(1) by (simp add: eqp_def mod_mult_left_eq)
  ultimately have "eqp ((ed_d * (y * y) + 1) * (x * x)) (y * y - 1)" by (meson eqp_trans eqp_ops(3) eqp_refl)
  from eqp_ops(2) [OF eqp_refl this, of "y * y + ed_d * (y * y) * (x * x)"]
  have "on_curve x y" unfolding on_curve_def by (simp add: algebra_simps)
  moreover have "x = 0 \<or> odd x \<noteq> odd (bytes_val p div 2 ^ 255)"
  proof (cases "x' = 0")
    case False
    then have m: "(- x') mod p25519 = p25519 - x'" using x'(2,3) by (simp add: zmod_zminus1_eq_if)
    have "odd p25519" by (simp add: p25519_def)
    then show ?thesis using x'(4) m by (auto split: if_splits)
  qed (use x'(4) in auto)
  ultimately show thesis using that R by blast
qed

section \<open>Properties\<close>


lemma order_four:
  "ext_rel (gf_I, gf0, gf1, gf0) (ed_i, 0, 1, 0)" "represents (ed_i, 0, 1, 0) ed_i 0" "on_curve ed_i 0"
proof -
  show "ext_rel (gf_I, gf0, gf1, gf0) (ed_i, 0, 1, 0)"
    using gfb_ed_consts(3) gfb_consts(2,3) by (auto simp: ext_rel_def fe_ed_consts fe_consts elim!: gfb_mono)
  show "represents (ed_i, 0, 1, 0) ed_i 0" by (simp add: represents_def eqp_def)
  have "eqp (ed_i * ed_i + 1) 0" using ed_constants(2) by (simp add: eqp_def)
  from eqp_ops(2) [OF eqp_refl this, of 1] show "on_curve ed_i 0" by (simp add: on_curve_def)
qed


text \<open>
  What decoding a public key yields. When \<open>unpackneg\<close> accepts 32 bytes, whatever the
  uninitialised array holds, the point is on the curve, its $y$ is the encoded number without the
  sign bit (taken modulo the prime, as the code does not require it to be below), $Z$ is 1 and
  $T = xy$, and it is the negative of the encoded point: the parity of $x$ differs from the sign
  bit unless $x$ is zero.
\<close>

theorem unpackneg_on_curve:
  assumes "length p = 32" "length stack = 16" "unpackneg stack p = Some r"
  shows "\<exists>x y. ext_rel r (x, y, 1, x * y mod p25519) \<and> on_curve x y \<and> y = bytes_val p mod 2 ^ 255 mod p25519 \<and>
    (x = 0 \<or> odd x \<noteq> odd (bytes_val p div 2 ^ 255))"
proof -
  obtain R where R: "ed_decode_neg p = Some R" "ext_rel r R" using unpackneg_refines [OF assms(1,2)] assms(3) by auto
  from R(1) show ?thesis by (rule ed_decode_on_curve) (use R(2) in blast)
qed

theorem unpackneg_on_curve_witness:
  "\<exists>x y r. unpackneg (replicate 16 0) (1 # replicate 31 0) = Some r \<and> ext_rel r (x, y, 1, x * y mod p25519) \<and> on_curve x y \<and> y = 1"
proof -
  define p :: "u8 list" where "p = 1 # replicate 31 0"
  have z: "bytes_val (replicate n 0) = 0" for n by (induction n) simp_all
  have l: "length p = 32" "length (replicate 16 (0 :: int)) = 16" and v: "bytes_val p = 1" by (simp_all add: p_def z)
  have y: "bytes_val p mod 2 ^ 255 mod p25519 = 1" by (simp add: v p25519_def)
  have "ed_decode_neg p \<noteq> None" unfolding ed_decode_neg_def Let_def y by simp
  then obtain r where r: "unpackneg (replicate 16 0) p = Some r"
    using unpackneg_refines [OF l] by (auto split: option.splits)
  from unpackneg_on_curve [OF l r] show ?thesis using r y unfolding p_def by blast
qed

end
