(* ===== verification/Base64.thy ===== *)
theory Base64
  imports Prelude
begin

text \<open>
  Base64 encoding and decoding (\<open>src/crypto_ed25519.c\<close>), used for licence keys. Sources and
  results are lists, the size of the destination array is the argument \<open>dst_max\<close>.
\<close>

section \<open>Definitions\<close>

abbreviation b64_table :: string where
  "b64_table \<equiv> ''ABCDEFGHIJKLMNOPQRSTUVWXYZabcdefghijklmnopqrstuvwxyz0123456789+/''"

definition b64_char :: "u32 \<Rightarrow> char" where
  "b64_char x = b64_table ! unat (x AND 0x3F)"

definition b64_triple :: "u8 \<Rightarrow> u8 \<Rightarrow> u8 \<Rightarrow> u32" where
  "b64_triple a b c = (push_bit 16 (ucast a) OR push_bit 8 (ucast b)) OR ucast c"

fun b64_encode_loop :: "u8 list \<Rightarrow> string" where
  "b64_encode_loop [] = []"
| "b64_encode_loop [a] = (let triple = b64_triple a 0 0
     in [b64_char (drop_bit 18 triple), b64_char (drop_bit 12 triple), CHR ''='', CHR ''=''])"
| "b64_encode_loop [a, b] = (let triple = b64_triple a b 0
     in [b64_char (drop_bit 18 triple), b64_char (drop_bit 12 triple), b64_char (drop_bit 6 triple), CHR ''=''])"
| "b64_encode_loop (a # b # c # src) = (let triple = b64_triple a b c
     in [b64_char (drop_bit 18 triple), b64_char (drop_bit 12 triple), b64_char (drop_bit 6 triple), b64_char triple]
        @ b64_encode_loop src)"

definition crypto_base64_encode :: "u8 list \<Rightarrow> nat \<Rightarrow> string option" where
  "crypto_base64_encode src dst_max =
     (if 4 * ((length src + 2) div 3) + 1 > dst_max then None else Some (b64_encode_loop src))"

definition b64_val :: "char \<Rightarrow> int" where
  "b64_val ch =
     (let c = of_char ch in
      if 65 \<le> c \<and> c \<le> 90 then c - 65
      else if 97 \<le> c \<and> c \<le> 122 then c - 97 + 26
      else if 48 \<le> c \<and> c \<le> 57 then c - 48 + 52
      else if ch = CHR ''+'' \<or> ch = CHR ''-'' then 62
      else if ch = CHR ''/'' \<or> ch = CHR ''_'' then 63
      else -1)"

definition b64_skipped :: "char \<Rightarrow> bool" where
  "b64_skipped c \<longleftrightarrow> c = CHR '' '' \<or> c = CHR 0x0D \<or> c = CHR 0x0A \<or> c = CHR ''-''"

definition b64_digit :: "char \<Rightarrow> int" where
  "b64_digit c = (if c = CHR ''='' then 0 else b64_val c)"

text \<open>The values of the next four characters; a value that is not read stays -1.\<close>

fun b64_group :: "nat \<Rightarrow> string \<Rightarrow> int list \<times> string" where
  "b64_group 0 src = ([], src)"
| "b64_group (Suc k) src =
     (case dropWhile b64_skipped src of
        [] \<Rightarrow> (replicate (Suc k) (-1), [])
      | c # src \<Rightarrow> (case b64_group k src of (bs, rest) \<Rightarrow>
          (b64_digit c # bs, rest)))"

definition b64_push :: "nat \<Rightarrow> int \<Rightarrow> u8 list \<Rightarrow> u8 list" where
  "b64_push dst_max v dst = (if length dst < dst_max then dst @ [word_of_int v] else dst)"

definition b64_bytes :: "nat \<Rightarrow> int list \<Rightarrow> u8 list \<Rightarrow> u8 list" where
  "b64_bytes dst_max b dst =
     (let dst = b64_push dst_max (push_bit 2 (b ! 0) OR drop_bit 4 (b ! 1)) dst;
          dst = (if b ! 2 \<ge> 0 then b64_push dst_max (push_bit 4 (b ! 1 AND 0x0F) OR drop_bit 2 (b ! 2)) dst else dst)
      in if b ! 3 \<ge> 0 then b64_push dst_max (push_bit 6 (b ! 2 AND 0x03) OR b ! 3) dst else dst)"

lemma b64_group_length: "length (snd (b64_group k src)) \<le> length src"
proof (induction k arbitrary: src)
  case (Suc k)
  show ?case
  proof (cases "dropWhile b64_skipped src")
    case (Cons c src')
    with length_dropWhile_le [of b64_skipped src] Suc [of src'] show ?thesis by (auto split: prod.split)
  next
    case Nil
    then have "snd (b64_group (Suc k) src) = []" by (simp only: b64_group.simps list.case snd_conv)
    then show ?thesis by (metis le0 list.size(3))
  qed
qed simp

function b64_decode_loop :: "nat \<Rightarrow> string \<Rightarrow> u8 list \<Rightarrow> u8 list" where
  "b64_decode_loop dst_max src dst =
     (case dropWhile b64_skipped src of
        [] \<Rightarrow> dst
      | c # src' \<Rightarrow> (case b64_group 4 (c # src') of (b, rest) \<Rightarrow>
          if b ! 0 < 0 \<or> b ! 1 < 0 then dst
          else b64_decode_loop dst_max rest (b64_bytes dst_max b dst)))"
  by pat_completeness auto
termination
proof (relation "measure (\<lambda>(dst_max, src, dst). length src)")
  fix dst_max src dst c src' x b rest
  assume "dropWhile b64_skipped src = c # src'" "(b, rest) = b64_group 4 (c # src')"
  moreover from this(1) have "\<not> b64_skipped c" using hd_dropWhile [of b64_skipped src] by simp
  ultimately show "((dst_max, rest, b64_bytes dst_max b dst), (dst_max, src, dst)) \<in> measure (\<lambda>(dst_max, src, dst). length src)"
    using length_dropWhile_le [of b64_skipped src] b64_group_length [of 3 src']
    by (simp add: eval_nat_numeral split: prod.splits)
qed simp

declare b64_decode_loop.simps [simp del]

definition crypto_base64_decode :: "string \<Rightarrow> nat \<Rightarrow> u8 list" where
  "crypto_base64_decode src dst_max = b64_decode_loop dst_max src []"

section \<open>Round trip\<close>

lemma b64_table_checked:
  "list_all (\<lambda>i. b64_val (b64_table ! i) = int i \<and> \<not> b64_skipped (b64_table ! i) \<and> b64_table ! i \<noteq> CHR ''='') [0..<64]"
  by code_simp

lemma and_3F_less: "unat (x AND 0x3F :: u32) < 64"
proof -
  have "x AND 0x3F \<le> 0x3F" by (rule word_and_le1)
  then show ?thesis by (simp add: word_le_nat_alt)
qed

lemma b64_char_val:
  "b64_val (b64_char x) = uint (x AND 0x3F)" "\<not> b64_skipped (b64_char x)" "b64_char x \<noteq> CHR ''=''"
  using b64_table_checked and_3F_less [of x]
  by (auto simp: list_all_iff b64_char_def)

lemma b64_triple_bytes:
  fixes a b c :: u8
  defines "t \<equiv> b64_triple a b c"
  shows "word_of_int (push_bit 2 (uint (drop_bit 18 t AND 0x3F)) OR drop_bit 4 (uint (drop_bit 12 t AND 0x3F))) = a"
    and "word_of_int (push_bit 4 (uint (drop_bit 12 t AND 0x3F) AND 0x0F) OR drop_bit 2 (uint (drop_bit 6 t AND 0x3F))) = b"
    and "word_of_int (push_bit 6 (uint (drop_bit 6 t AND 0x3F) AND 0x03) OR uint (t AND 0x3F)) = c"
proof -
  have m: "(0x3F :: u32) = mask 6" "(0x0F :: int) = mask 4" "(0x03 :: int) = mask 2" by code_simp+
  have "2 \<le> n \<Longrightarrow> Suc (Suc (n - 2)) = n" for n :: nat by simp
  note bits = t_def b64_triple_def m bit_simps this
  show "word_of_int (push_bit 2 (uint (drop_bit 18 t AND 0x3F)) OR drop_bit 4 (uint (drop_bit 12 t AND 0x3F))) = a"
    by (rule bit_word_eqI) (auto simp: bits)
  show "word_of_int (push_bit 4 (uint (drop_bit 12 t AND 0x3F) AND 0x0F) OR drop_bit 2 (uint (drop_bit 6 t AND 0x3F))) = b"
    by (rule bit_word_eqI) (auto simp: bits)
  show "word_of_int (push_bit 6 (uint (drop_bit 6 t AND 0x3F) AND 0x03) OR uint (t AND 0x3F)) = c"
    by (rule bit_word_eqI) (auto simp: bits)
qed

lemma b64_push_take: "b64_push m v (take m xs) = take m (xs @ [word_of_int v])"
  by (simp add: b64_push_def)

lemma b64_group_next:
  "\<not> b64_skipped c \<Longrightarrow> b64_group (Suc k) (c # src) = (b64_digit c # fst (b64_group k src), snd (b64_group k src))"
  by (simp split: prod.split)

lemma b64_digit_eq [simp]: "\<not> b64_skipped (CHR ''='')" "b64_digit (CHR ''='') = 0"
  by (simp_all add: b64_skipped_def b64_digit_def)

lemma b64_digit_char [simp]: "\<not> b64_skipped (b64_char x)" "b64_digit (b64_char x) = uint (x AND 0x3F)"
  by (simp_all add: b64_char_val b64_digit_def)

text \<open>One group of the encoder, read by the decoder.\<close>

lemma b64_decode_group:
  assumes "\<not> b64_skipped c0" "\<not> b64_skipped c1" "\<not> b64_skipped c2" "\<not> b64_skipped c3"
  assumes "b64_digit c0 \<ge> 0" "b64_digit c1 \<ge> 0" "b64_digit c2 \<ge> 0" "b64_digit c3 \<ge> 0"
  shows "b64_decode_loop m (c0 # c1 # c2 # c3 # src) (take m dst) = b64_decode_loop m src (take m (dst @
    [word_of_int (push_bit 2 (b64_digit c0) OR drop_bit 4 (b64_digit c1)),
     word_of_int (push_bit 4 (b64_digit c1 AND 0x0F) OR drop_bit 2 (b64_digit c2)),
     word_of_int (push_bit 6 (b64_digit c2 AND 0x03) OR b64_digit c3)]))"
proof -
  have "b64_group 4 (c0 # c1 # c2 # c3 # src) = ([b64_digit c0, b64_digit c1, b64_digit c2, b64_digit c3], src)"
    using assms(1-4) by (simp add: b64_group_next eval_nat_numeral del: b64_group.simps(2))
  then show ?thesis
    using assms by (subst b64_decode_loop.simps) (simp add: b64_bytes_def b64_push_take del: take_append)
qed

lemma b64_decode_chars:
  "b64_decode_loop m (b64_char x0 # b64_char x1 # CHR ''='' # CHR ''='' # src) (take m dst) =
   b64_decode_loop m src (take m (dst @ [word_of_int (push_bit 2 (uint (x0 AND 0x3F)) OR drop_bit 4 (uint (x1 AND 0x3F))),
     word_of_int (push_bit 4 (uint (x1 AND 0x3F) AND 0x0F)), 0]))"
  "b64_decode_loop m (b64_char x0 # b64_char x1 # b64_char x2 # CHR ''='' # src) (take m dst) =
   b64_decode_loop m src (take m (dst @ [word_of_int (push_bit 2 (uint (x0 AND 0x3F)) OR drop_bit 4 (uint (x1 AND 0x3F))),
     word_of_int (push_bit 4 (uint (x1 AND 0x3F) AND 0x0F) OR drop_bit 2 (uint (x2 AND 0x3F))),
     word_of_int (push_bit 6 (uint (x2 AND 0x3F) AND 0x03))]))"
  "b64_decode_loop m (b64_char x0 # b64_char x1 # b64_char x2 # b64_char x3 # src) (take m dst) =
   b64_decode_loop m src (take m (dst @ [word_of_int (push_bit 2 (uint (x0 AND 0x3F)) OR drop_bit 4 (uint (x1 AND 0x3F))),
     word_of_int (push_bit 4 (uint (x1 AND 0x3F) AND 0x0F) OR drop_bit 2 (uint (x2 AND 0x3F))),
     word_of_int (push_bit 6 (uint (x2 AND 0x3F) AND 0x03) OR uint (x3 AND 0x3F))]))"
  by (subst b64_decode_group; simp)+

lemma b64_triple_low:
  "b64_triple a b 0 AND 0x3F = 0" "drop_bit 6 (b64_triple a 0 0) AND 0x3F = 0"
proof -
  have m: "(0x3F :: u32) = mask 6" by code_simp
  show "b64_triple a b 0 AND 0x3F = 0" "drop_bit 6 (b64_triple a 0 0) AND 0x3F = 0"
    by (rule bit_word_eqI; auto simp: b64_triple_def m bit_simps)+
qed

text \<open>The text may be followed by line ends and other characters that the decoder skips.\<close>

lemma b64_decode_skipped: "\<forall>c \<in> set t. b64_skipped c \<Longrightarrow> b64_decode_loop m t dst = dst"
proof -
  assume "\<forall>c \<in> set t. b64_skipped c"
  then have "dropWhile b64_skipped t = []" by simp
  then show ?thesis by (subst b64_decode_loop.simps) (simp only: list.case)
qed

lemma b64_decode_encode:
  assumes "\<forall>c \<in> set t. b64_skipped c"
  shows "b64_decode_loop m (b64_encode_loop src @ t) (take m dst) =
   take m (dst @ src @ replicate ((3 - length src mod 3) mod 3) 0)"
proof (induction src arbitrary: dst rule: b64_encode_loop.induct)
  case 1
  show ?case by (simp add: b64_decode_skipped [OF assms])
next
  case (2 a)
  show ?case using b64_triple_bytes [of a 0 0]
    by (simp only: b64_encode_loop.simps Let_def b64_decode_chars b64_triple_low append_Cons append_Nil)
       (simp add: b64_decode_skipped [OF assms] numeral_2_eq_2 del: take_append)
next
  case (3 a b)
  show ?case using b64_triple_bytes [of a b 0]
    by (simp only: b64_encode_loop.simps Let_def b64_decode_chars b64_triple_low append_Cons append_Nil)
       (simp add: b64_decode_skipped [OF assms] del: take_append)
next
  case (4 a b c src)
  have "(3 - length (a # b # c # src) mod 3) mod 3 = (3 - length src mod 3) mod 3" by simp
  with 4 [OF refl, of "dst @ [a, b, c]"] show ?case
    by (simp only: b64_encode_loop.simps Let_def append_Cons append_Nil b64_decode_chars b64_triple_bytes append_assoc)
qed

text \<open>
  C27. Decoding undoes encoding up to the padding. What the decoder makes of an encoded text is
  the original bytes followed by a zero byte for each padding character, cut to the size of the
  destination; so the original comes back exactly if its length is a multiple of three.
\<close>

theorem base64_roundtrip:
  assumes "crypto_base64_encode src n = Some s"
  shows "crypto_base64_decode s dst_max = take dst_max (src @ replicate ((3 - length src mod 3) mod 3) 0)"
  using assms b64_decode_encode [of "[]" dst_max src "[]"]
  by (auto simp: crypto_base64_encode_def crypto_base64_decode_def split: if_splits)

lemma base64_roundtrip_witness:
  "crypto_base64_encode [0x46, 0x4C] 5 = Some ''Rkw='' \<and> crypto_base64_decode ''Rkw='' 512 = [0x46, 0x4C, 0]"
proof -
  have e: "crypto_base64_encode [0x46, 0x4C] 5 = Some ''Rkw=''" by code_simp
  from base64_roundtrip [OF e, of 512] e show ?thesis by simp
qed

end
