(* ===== verification/Maglev.thy ===== *)
theory Maglev
  imports Fluxwan_Types Xdp_Types
begin

text \<open>
  The Maglev ring builder of \<open>src/wan_manager.c\<close>: \<open>rotl64\<close>,
  \<open>murmurhash3_x64_64\<close> and \<open>build_single_maglev_ring\<close>. The loops are total
  functions; the theorems show that they end with a full ring whose slots all
  belong to active members of the group.

  The arrays \<open>permutation\<close>, \<open>next\<close>, \<open>weights\<close> and \<open>cum_weight\<close> of the C function
  are the fields of one record per member. They are uninitialised stack memory
  for a member whose index is not below \<open>wan_count\<close>; that memory is the
  argument \<open>junk\<close>.
\<close>

section \<open>Definitions\<close>

definition rotl64 :: "u64 \<Rightarrow> nat \<Rightarrow> u64" where
  "rotl64 x r = push_bit r x OR drop_bit (64 - r) x"

definition murmur_mix :: "u64 \<Rightarrow> u64" where
  "murmur_mix h =
     (let h = h XOR drop_bit 33 h;
          h = h * 0xff51afd7ed558ccd;
          h = h XOR drop_bit 33 h;
          h = h * 0xc4ceb9fe1a85ec53
      in h XOR drop_bit 33 h)"

definition murmurhash3_x64_64 :: "u64 \<Rightarrow> u64 \<Rightarrow> u32 \<Rightarrow> u64" where
  "murmurhash3_x64_64 A B seed =
     (let h1 = ucast seed; h2 = ucast seed;
          c1 = 0x87c37b91114253d5; c2 = 0x4cf5ad432745937f;
          k1 = A; k2 = B;
          k1 = k1 * c1; k1 = rotl64 k1 31; k1 = k1 * c2; h1 = h1 XOR k1;
          h1 = rotl64 h1 27; h1 = h1 + h2; h1 = h1 * 5 + 0x52dce729;
          k2 = k2 * c2; k2 = rotl64 k2 33; k2 = k2 * c1; h2 = h2 XOR k2;
          h2 = rotl64 h2 31; h2 = h2 + h1; h2 = h2 * 5 + 0x38495ab5;
          h1 = h1 XOR 16; h2 = h2 XOR 16;
          h1 = h1 + h2; h2 = h2 + h1;
          h1 = murmur_mix h1;
          h2 = murmur_mix h2
      in h1 + h2)"

definition wan_name_hash :: "string \<Rightarrow> u64" where
  "wan_name_hash name = foldl (\<lambda>h c. (h * 33) XOR of_char c) 0x811c9dc5 name"

definition FREE_SLOT :: u32 where "FREE_SLOT = 0xFFFFFFFF"

record ring_slot =
  rs_idx :: u32
  rs_offset :: u32
  rs_skip :: u32
  rs_next :: nat
  rs_weight :: u32
  rs_cum :: u32

definition wan_ring_active :: "wan_config \<Rightarrow> bool" where
  "wan_ring_active w \<longleftrightarrow> w_enabled w \<and> w_state w \<noteq> WAN_STATE_DOWN \<and>
     w_state w \<noteq> WAN_STATE_DRAINING \<and> dynamic_weight w > 0"

definition setup_member :: "fluxwan_config \<Rightarrow> (nat \<Rightarrow> ring_slot) \<Rightarrow> nat \<Rightarrow> u32 \<Rightarrow> ring_slot" where
  "setup_member cfg junk m w_idx =
     (if unat w_idx \<ge> wan_count cfg then (junk m)\<lparr>rs_idx := w_idx, rs_cum := 0\<rparr>
      else
        let w = wans cfg ! unat w_idx;
            wan_hash = wan_name_hash (w_name w);
            offset_hash = murmurhash3_x64_64 wan_hash 42 0;
            skip_hash = murmurhash3_x64_64 wan_hash 2718281828 2307
        in \<lparr>rs_idx = w_idx,
            rs_offset = ucast (offset_hash mod of_nat MAGLEV_RING_SIZE),
            rs_skip = ucast (skip_hash mod of_nat (MAGLEV_RING_SIZE - 1) + 1),
            rs_next = 0,
            rs_weight = (if wan_ring_active w then dynamic_weight w else 0),
            rs_cum = 0\<rparr>)"

definition setup_members :: "fluxwan_config \<Rightarrow> (nat \<Rightarrow> ring_slot) \<Rightarrow> u32 list \<Rightarrow> ring_slot list" where
  "setup_members cfg junk members =
     map (\<lambda>m. setup_member cfg junk m (members ! m)) [0..<length members]"

text \<open>The members the setup loop counts as active, in order.\<close>

definition active_members :: "fluxwan_config \<Rightarrow> u32 list \<Rightarrow> u32 list" where
  "active_members cfg members =
     filter (\<lambda>i. unat i < wan_count cfg \<and> wan_ring_active (wans cfg ! unat i)) members"

text \<open>The inner loop: advance \<open>next\<close> to the member's next free slot.\<close>

definition probe_slot :: "u32 \<Rightarrow> u32 \<Rightarrow> nat \<Rightarrow> nat" where
  "probe_slot offset skip n = unat ((offset + of_nat n * skip) mod of_nat MAGLEV_RING_SIZE)"

function place :: "u32 list \<Rightarrow> u32 \<Rightarrow> u32 \<Rightarrow> u32 \<Rightarrow> nat \<Rightarrow> u32 list \<times> nat \<times> bool" where
  "place lut offset skip w_idx n =
     (if n < MAGLEV_RING_SIZE then
        let cur = probe_slot offset skip n in
        if lut ! cur = FREE_SLOT then (lut[cur := w_idx], n + 1, True)
        else place lut offset skip w_idx (n + 1)
      else (lut, n, False))"
  by pat_completeness auto
termination
  by (relation "measure (\<lambda>(_, _, _, _, n). MAGLEV_RING_SIZE - n)") (auto simp: MAGLEV_RING_SIZE_def)

declare place.simps [simp del]

text \<open>One pass over the members; \<open>break\<close> once the ring is full.\<close>

fun maglev_pass :: "u32 \<Rightarrow> ring_slot list \<Rightarrow> u32 list \<Rightarrow> nat \<Rightarrow> bool \<Rightarrow>
    ring_slot list \<times> u32 list \<times> nat \<times> bool" where
  "maglev_pass max_weight [] lut runs progress = ([], lut, runs, progress)"
| "maglev_pass max_weight (s # ss) lut runs progress =
     (if rs_weight s = 0 then
        let (ss', r) = maglev_pass max_weight ss lut runs progress in (s # ss', r)
      else
        let cum = rs_cum s + rs_weight s in
        if cum \<ge> max_weight then
          let (lut', n', placed) = place lut (rs_offset s) (rs_skip s) (rs_idx s) (rs_next s);
              s' = s\<lparr>rs_cum := cum - max_weight, rs_next := n'\<rparr>;
              runs' = (if placed then runs + 1 else runs);
              progress' = (progress \<or> placed)
          in if runs' = MAGLEV_RING_SIZE then (s' # ss, lut', runs', progress')
             else let (ss', r) = maglev_pass max_weight ss lut' runs' progress' in (s' # ss', r)
        else
          let (ss', r) = maglev_pass max_weight ss lut runs progress
          in (s\<lparr>rs_cum := cum\<rparr> # ss', r))"

definition fill_free :: "u32 \<Rightarrow> u32 list \<Rightarrow> u32 list" where
  "fill_free first_active lut = map (\<lambda>x. if x = FREE_SLOT then first_active else x) lut"

lemma maglev_pass_runs:
  assumes "maglev_pass mw ss lut runs pr = (ss', lut', runs', pr')"
  shows "runs \<le> runs' \<and> (pr \<longrightarrow> pr') \<and> (pr' \<longrightarrow> pr \<or> runs < runs') \<and>
    (\<not> pr' \<longrightarrow> runs' = runs)"
  using assms
proof (induction ss arbitrary: lut runs pr ss')
  case (Cons s ss)
  show ?case
  proof (cases "rs_weight s = 0 \<or> \<not> mw \<le> rs_cum s + rs_weight s")
    case True
    then obtain ss1 where "maglev_pass mw ss lut runs pr = (ss1, lut', runs', pr')"
      using Cons.prems by (auto simp: Let_def split: prod.splits if_splits)
    from Cons.IH [OF this] show ?thesis .
  next
    case False
    obtain l n b where pl: "place lut (rs_offset s) (rs_skip s) (rs_idx s) (rs_next s) = (l, n, b)"
      by (metis prod_cases3)
    let ?runs = "if b then runs + 1 else runs"
    show ?thesis
    proof (cases "?runs = MAGLEV_RING_SIZE")
      case True
      then show ?thesis using Cons.prems False pl by (auto simp: Let_def split: if_splits)
    next
      case go: False
      then obtain ss1 where "maglev_pass mw ss l ?runs (pr \<or> b) = (ss1, lut', runs', pr')"
        using Cons.prems False pl by (auto simp: Let_def split: prod.splits if_splits)
      from Cons.IH [OF this] show ?thesis by (auto split: if_splits)
    qed
  qed
qed simp

function maglev_loop :: "u32 \<Rightarrow> u32 \<Rightarrow> ring_slot list \<Rightarrow> u32 list \<Rightarrow> nat \<Rightarrow> u32 list" where
  "maglev_loop max_weight first_active ss lut runs =
     (if runs < MAGLEV_RING_SIZE then
        let (ss', lut', runs', progress) = maglev_pass max_weight ss lut runs False in
        if \<not> progress \<and> runs' < MAGLEV_RING_SIZE then fill_free first_active lut'
        else maglev_loop max_weight first_active ss' lut' runs'
      else lut)"
  by pat_completeness auto
termination
proof (relation "measure (\<lambda>(_, _, _, _, runs). MAGLEV_RING_SIZE - runs)", goal_cases)
  case (2 mw fa ss lut runs x ss' y lut' z runs' progress)
  then have "maglev_pass mw ss lut runs False = (ss', lut', runs', progress)" by simp
  from maglev_pass_runs [OF this] 2 show ?case by auto
qed simp

declare maglev_loop.simps [simp del]

definition max_member_weight :: "ring_slot list \<Rightarrow> u32" where
  "max_member_weight ss =
     (let m = foldl (\<lambda>m s. if rs_weight s > m then rs_weight s else m) 0 ss
      in if m = 0 then 1 else m)"

definition build_single_maglev_ring ::
  "fluxwan_config \<Rightarrow> (nat \<Rightarrow> ring_slot) \<Rightarrow> u32 list \<Rightarrow> u32 list" where
  "build_single_maglev_ring cfg junk members =
     (case members of [] \<Rightarrow> replicate MAGLEV_RING_SIZE 0
      | m0 # _ \<Rightarrow>
          (case active_members cfg members of [] \<Rightarrow> replicate MAGLEV_RING_SIZE m0
           | first_active # _ \<Rightarrow>
               let ss = setup_members cfg junk members
               in maglev_loop (max_member_weight ss) first_active ss
                    (replicate MAGLEV_RING_SIZE FREE_SLOT) 0))"

section \<open>The ring is full and holds active members only\<close>

definition free_slots :: "u32 list \<Rightarrow> nat" where
  "free_slots lut = length (filter ((=) FREE_SLOT) lut)"

lemma probe_slot_less: "probe_slot offset skip n < MAGLEV_RING_SIZE"
  by (simp add: probe_slot_def MAGLEV_RING_SIZE_def unat_mod)

lemma free_slots_update:
  assumes "i < length lut" "lut ! i = FREE_SLOT" "w \<noteq> FREE_SLOT"
  shows "free_slots lut = Suc (free_slots (lut[i := w]))"
  using assms
proof (induction lut arbitrary: i)
  case (Cons x lut)
  then show ?case by (cases i) (auto simp: free_slots_def)
qed simp

lemma place_spec:
  assumes "place lut offset skip w n = (l, n', b)" "length lut = MAGLEV_RING_SIZE" "w \<noteq> FREE_SLOT"
  shows "length l = MAGLEV_RING_SIZE \<and> set l \<subseteq> insert w (set lut) \<and>
    free_slots lut = (if b then Suc (free_slots l) else free_slots l)"
  using assms
proof (induction lut offset skip w n rule: place.induct)
  case (1 lut offset skip w n)
  let ?cur = "probe_slot offset skip n"
  show ?case
  proof (cases "n < MAGLEV_RING_SIZE \<and> lut ! ?cur \<noteq> FREE_SLOT")
    case True
    then have "place lut offset skip w (n + 1) = (l, n', b)"
      using "1.prems"(1) place.simps [of lut offset skip w n] by (simp add: Let_def)
    then show ?thesis using 1 True by blast
  next
    case False
    then show ?thesis
      using 1 place.simps [of lut offset skip w n] free_slots_update [of ?cur lut w]
        probe_slot_less [of offset skip n] set_update_subset_insert [of lut ?cur w]
      by (auto simp: Let_def split: if_splits)
  qed
qed

text \<open>
  The invariant of the placement loops: \<open>runs\<close> counts the occupied slots, the
  occupants are in \<open>A\<close>, and so is every member that still takes slots.
\<close>

definition ring_inv :: "u32 set \<Rightarrow> ring_slot list \<Rightarrow> u32 list \<Rightarrow> nat \<Rightarrow> bool" where
  "ring_inv A ss lut runs \<longleftrightarrow> length lut = MAGLEV_RING_SIZE \<and> set lut \<subseteq> insert FREE_SLOT A \<and>
     runs + free_slots lut = MAGLEV_RING_SIZE \<and> FREE_SLOT \<notin> A \<and>
     (\<forall>s \<in> set ss. rs_weight s \<noteq> 0 \<longrightarrow> rs_idx s \<in> A)"

lemma ring_inv_Cons:
  "ring_inv A (s # ss) lut runs \<longleftrightarrow>
     (rs_weight s \<noteq> 0 \<longrightarrow> rs_idx s \<in> A) \<and> ring_inv A ss lut runs"
  by (auto simp: ring_inv_def)

lemma ring_inv_place:
  assumes "ring_inv A ss lut runs" "w \<in> A" "place lut offset skip w n = (l, n', b)"
  shows "ring_inv A ss l (if b then runs + 1 else runs)"
proof -
  have "w \<noteq> FREE_SLOT" using assms(1,2) by (auto simp: ring_inv_def)
  then show ?thesis
    using place_spec [OF assms(3)] assms(1,2) by (auto simp: ring_inv_def split: if_splits)
qed

lemma ring_inv_pass:
  assumes "maglev_pass mw ss lut runs pr = (ss', lut', runs', pr')" "ring_inv A ss lut runs"
  shows "ring_inv A ss' lut' runs'"
  using assms
proof (induction ss arbitrary: lut runs pr ss')
  case (Cons s ss)
  show ?case
  proof (cases "rs_weight s = 0 \<or> \<not> mw \<le> rs_cum s + rs_weight s")
    case True
    then obtain ss1 s1 where "maglev_pass mw ss lut runs pr = (ss1, lut', runs', pr')"
      and "ss' = s1 # ss1" "rs_weight s1 = rs_weight s" "rs_idx s1 = rs_idx s"
      using Cons.prems(1) by (auto simp: Let_def split: prod.splits if_splits)
    then show ?thesis using Cons by (simp add: ring_inv_Cons)
  next
    case False
    obtain l n b where pl: "place lut (rs_offset s) (rs_skip s) (rs_idx s) (rs_next s) = (l, n, b)"
      by (metis prod_cases3)
    let ?runs = "if b then runs + 1 else runs"
    have idx: "rs_idx s \<in> A" using Cons.prems(2) False by (simp add: ring_inv_Cons)
    have inv: "ring_inv A ss l ?runs"
      using Cons.prems(2) ring_inv_place [OF _ idx pl] by (simp add: ring_inv_Cons)
    show ?thesis
    proof (cases "?runs = MAGLEV_RING_SIZE")
      case True
      then show ?thesis using Cons.prems False pl inv idx
        by (auto simp: Let_def ring_inv_Cons split: if_splits)
    next
      case go: False
      then obtain ss1 s1 where rec: "maglev_pass mw ss l ?runs (pr \<or> b) = (ss1, lut', runs', pr')"
        and "ss' = s1 # ss1" "rs_idx s1 = rs_idx s"
        using Cons.prems(1) False pl by (auto simp: Let_def split: prod.splits if_splits)
      then show ?thesis using Cons.IH [OF rec inv] idx by (simp add: ring_inv_Cons)
    qed
  qed
qed simp

lemma ring_inv_full:
  assumes "ring_inv A ss lut runs" "MAGLEV_RING_SIZE \<le> runs"
  shows "length lut = MAGLEV_RING_SIZE" "set lut \<subseteq> A"
proof -
  have "length (filter ((=) FREE_SLOT) lut) = 0"
    using assms unfolding ring_inv_def free_slots_def by linarith
  then have "FREE_SLOT \<notin> set lut" by (auto simp: filter_empty_conv)
  then show "length lut = MAGLEV_RING_SIZE" "set lut \<subseteq> A"
    using assms(1) by (auto simp: ring_inv_def)
qed

lemma maglev_loop_spec:
  assumes "ring_inv A ss lut runs" "first_active \<in> A"
  shows "length (maglev_loop mw first_active ss lut runs) = MAGLEV_RING_SIZE \<and>
    set (maglev_loop mw first_active ss lut runs) \<subseteq> A"
  using assms
proof (induction mw first_active ss lut runs rule: maglev_loop.induct)
  case (1 mw fa ss lut runs)
  show ?case
  proof (cases "runs < MAGLEV_RING_SIZE")
    case True
    obtain ss' lut' runs' pr where pass: "maglev_pass mw ss lut runs False = (ss', lut', runs', pr)"
      by (metis prod_cases4)
    note inv = ring_inv_pass [OF pass "1.prems"(1)]
    show ?thesis
    proof (cases "\<not> pr \<and> runs' < MAGLEV_RING_SIZE")
      case stop: True
      then have "maglev_loop mw fa ss lut runs = fill_free fa lut'"
        using True pass by (simp add: maglev_loop.simps [of mw fa ss lut runs])
      then show ?thesis using inv "1.prems"(2) by (auto simp: fill_free_def ring_inv_def)
    next
      case go: False
      then have "maglev_loop mw fa ss lut runs = maglev_loop mw fa ss' lut' runs'"
        using True pass by (auto simp: maglev_loop.simps [of mw fa ss lut runs])
      then show ?thesis using "1.IH" [OF True pass [symmetric] refl refl refl go inv "1.prems"(2)] by simp
    qed
  next
    case False
    then show ?thesis
      using ring_inv_full [OF "1.prems"(1)] by (simp add: maglev_loop.simps [of mw fa ss lut runs])
  qed
qed

lemma setup_members_weight:
  assumes "\<forall>i \<in> set members. unat i < wan_count cfg"
    and "s \<in> set (setup_members cfg junk members)" "rs_weight s \<noteq> 0"
  shows "rs_idx s \<in> set (active_members cfg members)"
proof -
  obtain m where m: "m < length members" "s = setup_member cfg junk m (members ! m)"
    using assms(2) by (auto simp: setup_members_def)
  then have "unat (members ! m) < wan_count cfg" using assms(1) by simp
  then show ?thesis
    using m assms(3) by (auto simp: setup_member_def active_members_def Let_def split: if_splits)
qed

lemma build_ring_spec:
  assumes mem: "\<forall>i \<in> set members. unat i < wan_count cfg" and n: "wan_count cfg \<le> MAX_WANS"
    and act: "active_members cfg members \<noteq> []"
  shows "length (build_single_maglev_ring cfg junk members) = MAGLEV_RING_SIZE \<and>
    set (build_single_maglev_ring cfg junk members) \<subseteq> set (active_members cfg members)"
proof -
  let ?A = "set (active_members cfg members)" and ?ss = "setup_members cfg junk members"
  obtain fa rest where fa: "active_members cfg members = fa # rest" using act by (cases "active_members cfg members") auto
  obtain m0 ms where m0: "members = m0 # ms" using act by (cases members) (auto simp: active_members_def)
  have "FREE_SLOT \<notin> ?A" using n by (auto simp: active_members_def FREE_SLOT_def MAX_WANS_def)
  then have "ring_inv ?A ?ss (replicate MAGLEV_RING_SIZE FREE_SLOT) 0"
    using setup_members_weight [OF mem] by (auto simp: ring_inv_def free_slots_def)
  moreover have "build_single_maglev_ring cfg junk members =
      maglev_loop (max_member_weight ?ss) fa ?ss (replicate MAGLEV_RING_SIZE FREE_SLOT) 0"
    unfolding build_single_maglev_ring_def fa by (simp add: m0 Let_def)
  ultimately show ?thesis using maglev_loop_spec [of ?A ?ss _ 0 fa] fa by simp
qed

text \<open>
  C8. The Maglev ring of a group with at least one active member is complete: it
  has 65537 slots and each of them names an active member of the group (enabled,
  neither down nor draining, positive weight). The placement loops end for all
  weights, and the result does not depend on uninitialised memory of any other
  member.
\<close>

theorem build_single_maglev_ring_active:
  assumes "\<forall>i \<in> set members. unat i < wan_count cfg" "wan_count cfg \<le> MAX_WANS"
    and "active_members cfg members \<noteq> []"
  shows "length (build_single_maglev_ring cfg junk members) = MAGLEV_RING_SIZE \<and>
    (\<forall>i \<in> set (build_single_maglev_ring cfg junk members).
       i \<in> set members \<and> wan_ring_active (wans cfg ! unat i))"
  using build_ring_spec [OF assms] by (auto simp: active_members_def)

definition sample_link :: "string \<Rightarrow> wan_state \<Rightarrow> u32 \<Rightarrow> wan_config" where
  "sample_link name s weight = zero_wan\<lparr>w_name := name, w_enabled := True, w_state := s,
     dynamic_weight := weight, config_weight := 10\<rparr>"

definition sample_config :: fluxwan_config where
  "sample_config = zero_config\<lparr>wans := [sample_link ''eth1'' WAN_STATE_HEALTHY 10,
     sample_link ''eth2'' WAN_STATE_DRAINING 10, sample_link ''eth3'' WAN_STATE_DEGRADED 2]\<rparr>"

theorem build_single_maglev_ring_active_witness:
  "\<forall>junk. 1 \<notin> set (build_single_maglev_ring sample_config junk [0, 1, 2])"
proof
  fix junk
  have "\<not> wan_ring_active (wans sample_config ! unat (1::u32))"
    "active_members sample_config [0, 1, 2] \<noteq> []"
    "\<forall>i \<in> set [0, 1, 2]. unat (i::u32) < wan_count sample_config" "wan_count sample_config \<le> MAX_WANS"
    by code_simp+
  then show "1 \<notin> set (build_single_maglev_ring sample_config junk [0, 1, 2])"
    using build_single_maglev_ring_active [of "[0, 1, 2]" sample_config junk] by blast
qed

section \<open>Probe sequences\<close>

lemma no_small_divisor_int: "list_all (\<lambda>d. (65537::int) mod d \<noteq> 0) [2..256]"
  by code_simp

lemma no_small_divisor: "2 \<le> d \<Longrightarrow> d \<le> 256 \<Longrightarrow> \<not> d dvd (65537::nat)"
proof
  assume d: "2 \<le> d" "d \<le> 256" "d dvd (65537::nat)"
  have "\<forall>x \<in> {2..256}. (65537::int) mod x \<noteq> 0"
    using no_small_divisor_int unfolding list_all_iff set_upto .
  moreover have "int d \<in> {2..256}" using d by simp
  ultimately have "(65537::int) mod int d \<noteq> 0" by (rule bspec)
  moreover have "int d dvd int 65537" using d(3) by (simp only: int_dvd_int_iff)
  ultimately show False by (simp add: dvd_eq_mod_eq_0)
qed

lemma ring_size_divisor:
  assumes "d dvd (65537::nat)"
  shows "d = 1 \<or> d = 65537"
proof (rule ccontr)
  assume d: "\<not> (d = 1 \<or> d = 65537)"
  obtain e where e: "65537 = d * e" using assms by (auto simp: dvd_def)
  have "d \<noteq> 0" "e \<noteq> 0" "e \<noteq> 1" using e d by (cases "d = 0 \<or> e = 0 \<or> e = 1"; auto)+
  then have "2 \<le> d" "2 \<le> e" using d by simp_all
  moreover have "d dvd 65537" "e dvd 65537" by (simp_all only: e dvd_triv_left dvd_triv_right)
  ultimately have "257 \<le> d" "257 \<le> e" using no_small_divisor [of d] no_small_divisor [of e] by force+
  then have "257 * 257 \<le> d * e" by (rule mult_le_mono)
  then show False using e by simp
qed

lemma coprime_ring_size: "0 < s \<Longrightarrow> s < 65537 \<Longrightarrow> coprime s (65537::nat)"
proof -
  assume s: "0 < s" "s < 65537"
  have "gcd s 65537 = 1 \<or> gcd s 65537 = (65537::nat)" using ring_size_divisor by simp
  moreover have "gcd s 65537 \<le> s" using s by (simp add: dvd_imp_le)
  ultimately show ?thesis using s by (simp add: coprime_iff_gcd_eq_1)
qed

lemma probe_slot_eq:
  assumes "unat offset < 65537" "unat skip < 65535" "n < 65537"
  shows "probe_slot offset skip n = (unat offset + n * unat skip) mod 65537"
proof -
  have "n * unat skip \<le> 65536 * 65534" using assms by (intro mult_le_mono) simp_all
  then have "unat (of_nat n * skip) = n * unat skip"
    using assms by (simp add: unat_word_ariths unat_of_nat)
  moreover from this have "unat (offset + of_nat n * skip) = unat offset + n * unat skip"
    using assms \<open>n * unat skip \<le> _\<close> by (simp add: unat_word_ariths)
  ultimately show ?thesis by (simp add: probe_slot_def MAGLEV_RING_SIZE_def unat_mod)
qed

text \<open>
  Every member's probe sequence is a permutation of the ring: for a start
  below 65537 and a non-zero step below 65535 (where the 32-bit product cannot
  wrap), the 65537 probes hit every slot exactly once, so a member finds a free
  slot whenever there is one.
\<close>

theorem probe_slot_permutation:
  assumes "unat offset < MAGLEV_RING_SIZE" "0 < unat skip" "unat skip < MAGLEV_RING_SIZE - 2"
  shows "bij_betw (probe_slot offset skip) {..<MAGLEV_RING_SIZE} {..<MAGLEV_RING_SIZE}"
proof -
  let ?f = "probe_slot offset skip" and ?R = "{..<MAGLEV_RING_SIZE}"
  have less: "n1 = n2" if le: "n1 \<le> n2" "n2 < 65537" and eq: "?f n1 = ?f n2" for n1 n2
  proof -
    have "(unat offset + n1 * unat skip) mod 65537 = (unat offset + n2 * unat skip) mod 65537"
      using eq le assms by (simp add: probe_slot_eq MAGLEV_RING_SIZE_def)
    then have "65537 dvd (unat offset + n2 * unat skip) - (unat offset + n1 * unat skip)"
      using le by (subst mod_eq_dvd_iff_nat [symmetric]) simp_all
    then have "65537 dvd (n2 - n1) * unat skip" by (simp add: diff_mult_distrib)
    moreover have "coprime (65537::nat) (unat skip)"
      using coprime_ring_size [of "unat skip"] assms by (simp add: MAGLEV_RING_SIZE_def coprime_commute)
    ultimately have "65537 dvd n2 - n1" by (simp add: coprime_dvd_mult_left_iff)
    then show ?thesis using le by (auto dest: dvd_imp_le)
  qed
  have "inj_on ?f ?R"
  proof (rule inj_onI)
    fix n1 n2 assume "n1 \<in> ?R" "n2 \<in> ?R" "?f n1 = ?f n2"
    then show "n1 = n2" using less [of n1 n2] less [of n2 n1]
      by (cases "n1 \<le> n2") (auto simp: MAGLEV_RING_SIZE_def)
  qed
  moreover have "?f ` ?R \<subseteq> ?R" using probe_slot_less by auto
  ultimately show ?thesis
    using endo_inj_surj [of ?R ?f] by (simp add: bij_betw_def)
qed

theorem probe_slot_permutation_witness:
  "bij_betw (probe_slot 5 3) {..<MAGLEV_RING_SIZE} {..<MAGLEV_RING_SIZE}"
  by (rule probe_slot_permutation) (simp_all add: MAGLEV_RING_SIZE_def)

end
