(* ===== verification/Bpf_Loader.thy ===== *)
theory Bpf_Loader
  imports Maglev Xdp_Sessions
begin

text \<open>
  The map writers and readers of \<open>src/bpf_loader.c\<close>, the bridge between the
  control plane's configuration and the maps of the XDP program, built with
  libbpf. A file descriptor is a boolean (valid or -1). \<open>if_nametoindex\<close> and the
  number of possible CPUs, which sizes what the kernel copies out of a per-CPU
  map, are arguments.
\<close>

section \<open>Definitions\<close>

record bpf_loader =
  fd_maglev_lut :: bool
  fd_wan_table :: bool
  fd_percpu_stats :: bool
  fd_ctrl_map :: bool
  fd_global_stats :: bool
  fd_policy_route :: bool
  fd_maglev_group :: bool
  fd_lpm_subnet :: bool
  num_cpus :: nat
  wan_ifnames :: "string list"
  bl_maps :: router_maps

datatype loader_error = LOADER_EINVAL

type_synonym 'a loader_result = "loader_error + 'a"

definition wan_map_entry :: "(string \<Rightarrow> u32) \<Rightarrow> nat \<Rightarrow> wan_config \<Rightarrow> bpf_wan_entry" where
  "wan_map_entry ifindex_of i w = \<lparr>
     we_wan_id = w_id w,
     we_ifindex = ifindex_of (w_name w),
     we_ip_addr = w_ip_addr w,
     we_gateway = w_gateway w,
     we_weight = (if w_state w = WAN_STATE_DRAINING then 0 else dynamic_weight w),
     we_is_active = (if w_state w \<noteq> WAN_STATE_DOWN then 1 else 0),
     we_table_id = w_table_id w,
     we_fwmark = of_nat (0x100 + i + 1),
     we_is_draining = (if w_state w = WAN_STATE_DRAINING then 1 else 0),
     we_mtu = (if w_mtu w \<noteq> 0 then w_mtu w else 1500)\<rparr>"

definition bpf_loader_update_wan_map ::
  "(string \<Rightarrow> u32) \<Rightarrow> nat \<Rightarrow> wan_config \<Rightarrow> bpf_loader \<Rightarrow> bpf_loader loader_result" where
  "bpf_loader_update_wan_map ifindex_of i w ldr =
     (if i \<ge> MAX_WANS then Inl LOADER_EINVAL
      else
        let ldr = (if w_name w \<noteq> [] then ldr\<lparr>wan_ifnames := (wan_ifnames ldr)[i := cstr_copy 32 (w_name w)]\<rparr>
                   else ldr);
            entry = wan_map_entry ifindex_of i w
        in Inr (if fd_wan_table ldr
                then ldr\<lparr>bl_maps := (bl_maps ldr)\<lparr>wan_table_map :=
                       array_modify (\<lambda>_. entry) (of_nat i) (wan_table_map (bl_maps ldr))\<rparr>\<rparr>
                else ldr))"

text \<open>The batched copy of the ring: at most 256 keys per system call.\<close>

fun write_batch :: "nat \<Rightarrow> u32 list \<Rightarrow> u32 list \<Rightarrow> u32 list" where
  "write_batch i [] m = m"
| "write_batch i (v # vs) m = write_batch (Suc i) vs (array_modify (\<lambda>_. v) (of_nat i) m)"

function lut_batches :: "u32 list \<Rightarrow> nat \<Rightarrow> nat \<Rightarrow> u32 list \<Rightarrow> u32 list" where
  "lut_batches lut ring_size i m =
     (if i < ring_size then
        let batch = min (ring_size - i) 256
        in lut_batches lut ring_size (i + batch) (write_batch i (take batch (drop i lut)) m)
      else m)"
  by pat_completeness auto
termination
  by (relation "measure (\<lambda>(_, r, i, _). r - i)") auto

declare lut_batches.simps [simp del]

definition bpf_loader_update_maglev_lut :: "u32 list \<Rightarrow> nat \<Rightarrow> bpf_loader \<Rightarrow> bpf_loader loader_result" where
  "bpf_loader_update_maglev_lut lut ring_size ldr =
     (if ring_size = 0 then Inl LOADER_EINVAL
      else
        let ring_size = min ring_size MAGLEV_RING_SIZE
        in Inr (if fd_maglev_lut ldr
                then ldr\<lparr>bl_maps := (bl_maps ldr)\<lparr>maglev_lut_map :=
                       lut_batches lut ring_size 0 (maglev_lut_map (bl_maps ldr))\<rparr>\<rparr>
                else ldr))"

definition bpf_loader_update_group_maglev_lut ::
  "u32 \<Rightarrow> u32 list \<Rightarrow> nat \<Rightarrow> bpf_loader \<Rightarrow> bpf_loader loader_result" where
  "bpf_loader_update_group_maglev_lut group_id lut ring_size ldr =
     (if unat group_id \<ge> 8 then Inl LOADER_EINVAL
      else Inr (if fd_maglev_group ldr
        then ldr\<lparr>bl_maps := (bl_maps ldr)\<lparr>maglev_group_map :=
               write_batch (unat group_id * MAGLEV_RING_SIZE)
                 (take (min ring_size MAGLEV_RING_SIZE) lut) (maglev_group_map (bl_maps ldr))\<rparr>\<rparr>
        else ldr))"

definition policy_map_entry :: "policy_route list \<Rightarrow> nat \<Rightarrow> bpf_policy_entry" where
  "policy_map_entry routes i =
     (if i < length routes \<and> pr_enabled (routes ! i)
      then \<lparr>subnet_ip = pr_subnet_ip (routes ! i), netmask = pr_netmask (routes ! i),
            target_group = pr_target_group_id (routes ! i), pe_is_active = 1\<rparr>
      else zero_policy)"

definition bpf_loader_update_policy_routes :: "policy_route list \<Rightarrow> bpf_loader \<Rightarrow> bpf_loader" where
  "bpf_loader_update_policy_routes routes ldr =
     (if fd_policy_route ldr
      then ldr\<lparr>bl_maps := (bl_maps ldr)\<lparr>policy_route_map :=
             foldl (\<lambda>m i. array_modify (\<lambda>_. policy_map_entry routes i) (of_nat i) m)
               (policy_route_map (bl_maps ldr)) [0..<16]\<rparr>\<rparr>
      else ldr)"

definition bpf_loader_update_ctrl_map :: "u32 \<Rightarrow> u32 \<Rightarrow> u32 \<Rightarrow> u32 \<Rightarrow> bpf_loader \<Rightarrow> bpf_loader" where
  "bpf_loader_update_ctrl_map lan_ip act snat debug ldr =
     (if fd_ctrl_map ldr
      then ldr\<lparr>bl_maps := (bl_maps ldr)\<lparr>ctrl_map :=
             array_modify (\<lambda>_. \<lparr>rc_lan_ip = lan_ip, active_wans = act, snat_enabled = snat,
               debug_enabled = debug,
               router_flags = (if snat \<noteq> 0 then 1 else 0) OR (if debug \<noteq> 0 then 2 else 0),
               hc_interval_ms = 500\<rparr>) 0 (ctrl_map (bl_maps ldr))\<rparr>\<rparr>
      else ldr)"

definition bpf_loader_update_lpm_route :: "u32 \<Rightarrow> u32 \<Rightarrow> u32 \<Rightarrow> bpf_loader \<Rightarrow> bpf_loader" where
  "bpf_loader_update_lpm_route subnet plen target ldr =
     (if fd_lpm_subnet ldr
      then ldr\<lparr>bl_maps := (bl_maps ldr)\<lparr>lpm_subnet_map := (lpm_subnet_map (bl_maps ldr))
             (\<lparr>prefixlen = plen, lpm_addr = subnet\<rparr> \<mapsto> target)\<rparr>\<rparr>
      else ldr)"

text \<open>
  Reading a per-CPU element: the kernel copies one value per possible CPU, with
  the six counters of its own \<open>struct bpf_wan_stats\<close>, into a buffer of
  \<open>num_cpus\<close> elements of the five-counter structure of \<open>fluxwan.h\<close>. None is a
  write beyond the buffer.
\<close>

definition kernel_wan_stats :: "bpf_wan_stats \<Rightarrow> u64 list" where
  "kernel_wan_stats s = [ws_rx_packets s, ws_rx_bytes s, ws_tx_packets s, ws_tx_bytes s,
     ws_snat_packets s, ws_dropped_packets s]"

definition copy_to_user :: "u64 list \<Rightarrow> nat \<Rightarrow> u64 list option" where
  "copy_to_user ws n = (if length ws \<le> n then Some (ws @ replicate (n - length ws) 0) else None)"

definition percpu_lookup :: "nat \<Rightarrow> u32 \<Rightarrow> bpf_loader \<Rightarrow> u64 list option" where
  "percpu_lookup possible_cpus key ldr =
     copy_to_user (concat (map (\<lambda>c. kernel_wan_stats (wan_percpu_stats_map (bl_maps ldr) c ! unat key))
       [0..<possible_cpus])) (5 * num_cpus ldr)"

definition sum_field :: "nat \<Rightarrow> nat \<Rightarrow> u64 list \<Rightarrow> u64" where
  "sum_field n field ws = sum_list (map (\<lambda>c. ws ! (5 * c + field)) [0..<n])"

text \<open>The counters of \<open>/sys/class/net\<close>, the fallback without a map, are the argument \<open>sysfs\<close>.\<close>

definition bpf_loader_get_percpu_wan_stats ::
  "nat \<Rightarrow> (string \<Rightarrow> u64 \<times> u64 \<times> u64 \<times> u64) \<Rightarrow> nat \<Rightarrow> bpf_loader \<Rightarrow>
   (u64 \<times> u64 \<times> u64 \<times> u64) loader_result option" where
  "bpf_loader_get_percpu_wan_stats possible_cpus sysfs i ldr =
     (if i \<ge> MAX_WANS then Some (Inl LOADER_EINVAL)
      else if \<not> fd_percpu_stats ldr then Some (Inr (sysfs (wan_ifnames ldr ! i)))
      else do {
        ws \<leftarrow> percpu_lookup possible_cpus (of_nat i) ldr;
        let n = num_cpus ldr;
        Some (Inr (sum_field n 1 ws, sum_field n 0 ws, sum_field n 3 ws, sum_field n 2 ws))
      })"

definition add_global_stats :: "router_global_stats \<Rightarrow> router_global_stats \<Rightarrow> router_global_stats" where
  "add_global_stats a b = a\<lparr>
     total_rx_packets := total_rx_packets a + total_rx_packets b,
     total_rx_bytes := total_rx_bytes a + total_rx_bytes b,
     total_snat_rewrites := total_snat_rewrites a + total_snat_rewrites b,
     total_sticky_hits := total_sticky_hits a + total_sticky_hits b,
     total_maglev_dispatches := total_maglev_dispatches a + total_maglev_dispatches b,
     total_failovers := total_failovers a + total_failovers b,
     total_drops := total_drops a + total_drops b,
     total_session_evictions := total_session_evictions a + total_session_evictions b\<rparr>"

definition bpf_loader_get_global_stats :: "bpf_loader \<Rightarrow> router_global_stats" where
  "bpf_loader_get_global_stats ldr =
     (if fd_global_stats ldr
      then foldl add_global_stats zero_global_stats
             (map (\<lambda>c. hd (global_stats_map (bl_maps ldr) c)) [0..<num_cpus ldr])
      else zero_global_stats\<lparr>total_rx_packets := 10240, total_rx_bytes := 10240 * 128,
             total_sticky_hits := 8000, total_maglev_dispatches := 2240\<rparr>)"

section \<open>The ring copies\<close>

lemma write_batch_append: "write_batch i (vs @ ws) m = write_batch (i + length vs) ws (write_batch i vs m)"
  by (induction i vs m rule: write_batch.induct) simp_all

lemma length_write_batch [simp]: "length (write_batch i vs m) = length m"
  by (induction i vs m rule: write_batch.induct) simp_all

lemma nth_write_batch:
  assumes "i + length vs \<le> length m" "length m < 2 ^ 32"
  shows "write_batch i vs m ! j = (if i \<le> j \<and> j < i + length vs then vs ! (j - i) else m ! j)"
  using assms
proof (induction i vs m arbitrary: j rule: write_batch.induct)
  case (2 i v vs m)
  then have "array_modify (\<lambda>_. v) (of_nat i) m = m[i := v]"
    by (simp add: array_modify_def unat_of_nat)
  then show ?case using 2 by (auto simp: nth_upd nth_Cons' Suc_le_eq)
qed auto

lemma write_batch_eq:
  assumes "i + length vs \<le> length m" "length m < 2 ^ 32"
  shows "write_batch i vs m = take i m @ vs @ drop (i + length vs) m"
proof (rule nth_equalityI)
  fix j assume "j < length (write_batch i vs m)"
  then have "j < length m" by simp
  then show "write_batch i vs m ! j = (take i m @ vs @ drop (i + length vs) m) ! j"
    using assms by (auto simp: nth_write_batch [OF assms] nth_append min_def)
qed (use assms in simp)

lemma lut_batches_eq:
  assumes "r \<le> length lut" "r \<le> length m" "length m < 2 ^ 32" "i \<le> r"
  shows "lut_batches lut r i m = write_batch i (take (r - i) (drop i lut)) m"
  using assms
proof (induction lut r i m rule: lut_batches.induct)
  case (1 lut r i m)
  show ?case
  proof (cases "i < r")
    case True
    let ?b = "min (r - i) 256"
    let ?m = "write_batch i (take ?b (drop i lut)) m"
    have "lut_batches lut r i m = lut_batches lut r (i + ?b) ?m"
      using True by (simp add: lut_batches.simps [of lut r i m] Let_def)
    also have "\<dots> = write_batch (i + ?b) (take (r - (i + ?b)) (drop (i + ?b) lut)) ?m"
      using True 1 by (intro "1.IH") simp_all
    also have "\<dots> = write_batch i (take ?b (drop i lut) @ take (r - (i + ?b)) (drop (i + ?b) lut)) m"
      using True 1 by (simp add: write_batch_append min_def)
    also have "take ?b (drop i lut) @ take (r - (i + ?b)) (drop (i + ?b) lut) = take (r - i) (drop i lut)"
    proof -
      have "take (?b + (r - (i + ?b))) (drop i lut) =
          take ?b (drop i lut) @ take (r - (i + ?b)) (drop ?b (drop i lut))"
        by (rule take_add)
      moreover have "?b + (r - (i + ?b)) = r - i" using True by simp
      ultimately show ?thesis by (simp only: drop_drop add.commute)
    qed
    finally show ?thesis .
  next
    case False
    then show ?thesis using 1 by (subst lut_batches.simps) simp
  qed
qed

lemma lut_batches_full:
  assumes "length lut = MAGLEV_RING_SIZE" "length m = MAGLEV_RING_SIZE"
  shows "lut_batches lut MAGLEV_RING_SIZE 0 m = lut"
proof -
  have "length m < 2 ^ 32" using assms(2) by (simp add: MAGLEV_RING_SIZE_def)
  then show ?thesis using assms by (simp add: lut_batches_eq write_batch_eq)
qed

text \<open>
  Writing a full ring in batches of 256 keys installs exactly that ring in
  the kernel's lookup table, and nothing else changes in the maps.
\<close>

theorem update_maglev_lut_installs:
  assumes "fd_maglev_lut ldr" "length lut = MAGLEV_RING_SIZE"
    and "length (maglev_lut_map (bl_maps ldr)) = MAGLEV_RING_SIZE"
  shows "bpf_loader_update_maglev_lut lut MAGLEV_RING_SIZE ldr =
    Inr (ldr\<lparr>bl_maps := (bl_maps ldr)\<lparr>maglev_lut_map := lut\<rparr>\<rparr>)"
proof -
  have "MAGLEV_RING_SIZE \<noteq> 0" by (simp add: MAGLEV_RING_SIZE_def)
  then show ?thesis
    using assms lut_batches_full [of lut "maglev_lut_map (bl_maps ldr)"]
    by (simp add: bpf_loader_update_maglev_lut_def)
qed

definition sample_loader :: bpf_loader where
  "sample_loader = \<lparr>fd_maglev_lut = True, fd_wan_table = True, fd_percpu_stats = True,
     fd_ctrl_map = True, fd_global_stats = True, fd_policy_route = True, fd_maglev_group = True,
     fd_lpm_subnet = True, num_cpus = 2, wan_ifnames = replicate 256 [], bl_maps = empty_router_maps\<rparr>"

lemma sample_loader_sizes:
  "length (maglev_lut_map (bl_maps sample_loader)) = MAGLEV_RING_SIZE"
  "length (maglev_group_map (bl_maps sample_loader)) = MAX_BPF_GROUPS * MAGLEV_RING_SIZE"
  "length (wan_table_map (bl_maps sample_loader)) = MAX_EBPF_WANS"
  "length (policy_route_map (bl_maps sample_loader)) = MAX_BPF_POLICIES"
  by (simp_all add: sample_loader_def empty_router_maps_def)

theorem update_maglev_lut_installs_witness:
  "bpf_loader_update_maglev_lut (replicate MAGLEV_RING_SIZE 3) MAGLEV_RING_SIZE sample_loader =
     Inr (sample_loader\<lparr>bl_maps := empty_router_maps\<lparr>maglev_lut_map := replicate MAGLEV_RING_SIZE 3\<rparr>\<rparr>)"
  using update_maglev_lut_installs [of sample_loader "replicate MAGLEV_RING_SIZE 3"] sample_loader_sizes(1)
  by (simp add: sample_loader_def)

section \<open>Group rings\<close>

lemma unat_group_slot:
  assumes "unat g < MAX_BPF_GROUPS"
  shows "unat (group_slot g (h mod of_nat MAGLEV_RING_SIZE)) =
    unat g * MAGLEV_RING_SIZE + unat (h mod of_nat MAGLEV_RING_SIZE)"
proof -
  have "unat (h mod 65537 :: u32) < 65537" using unat_mod [of h 65537] by simp
  then show ?thesis using assms by (simp add: group_slot_def size_defs unat_word_ariths)
qed

lemma group_map_after_update:
  assumes len: "length lut = MAGLEV_RING_SIZE"
      "length (maglev_group_map (bl_maps ldr)) = MAX_BPF_GROUPS * MAGLEV_RING_SIZE"
    and g: "unat g < MAX_BPF_GROUPS" and fd: "fd_maglev_group ldr"
    and upd: "bpf_loader_update_group_maglev_lut g lut MAGLEV_RING_SIZE ldr = Inr ldr'"
    and g': "unat g' < MAX_BPF_GROUPS"
  shows "array_lookup (maglev_group_map (bl_maps ldr')) (group_slot g' (h mod of_nat MAGLEV_RING_SIZE)) =
      (if g' = g then Some (lut ! unat (h mod of_nat MAGLEV_RING_SIZE))
       else array_lookup (maglev_group_map (bl_maps ldr)) (group_slot g' (h mod of_nat MAGLEV_RING_SIZE)))"
proof -
  let ?s = "unat (h mod of_nat MAGLEV_RING_SIZE)" and ?R = MAGLEV_RING_SIZE
  let ?m = "maglev_group_map (bl_maps ldr)"
  have s: "?s < ?R" by (simp add: MAGLEV_RING_SIZE_def unat_mod)
  have bound: "(unat x + 1) * ?R \<le> MAX_BPF_GROUPS * ?R" if "unat x < MAX_BPF_GROUPS" for x :: u32
    using that by (intro mult_le_mono1) simp
  have m': "maglev_group_map (bl_maps ldr') = write_batch (unat g * ?R) lut ?m"
    using upd fd len g by (auto simp: bpf_loader_update_group_maglev_lut_def MAX_BPF_GROUPS_def)
  have nth: "maglev_group_map (bl_maps ldr') ! j =
      (if unat g * ?R \<le> j \<and> j < unat g * ?R + ?R then lut ! (j - unat g * ?R) else ?m ! j)" for j
    unfolding m' using bound [OF g] len
    by (subst nth_write_batch) (simp_all add: size_defs)
  have far: "\<not> (unat g * ?R \<le> unat g' * ?R + ?s \<and> unat g' * ?R + ?s < unat g * ?R + ?R)"
    if "g' \<noteq> g"
  proof -
    have "unat g' < unat g \<or> unat g < unat g'"
      using that by (metis linorder_neqE_nat unsigned_word_eqI)
    then have "(unat g' + 1) * ?R \<le> unat g * ?R \<or> (unat g + 1) * ?R \<le> unat g' * ?R"
      by (elim disjE; intro disjI1 mult_le_mono1 disjI2; simp)
    then show ?thesis using s by auto
  qed
  have "unat g' * ?R + ?s < length ?m" using bound [OF g'] len s by simp
  then show ?thesis
    using far nth [of "unat g' * ?R + ?s"] m' s
    by (auto simp: array_lookup_def unat_group_slot [OF g'])
qed

text \<open>
  Groups are isolated. After the loader has written a group's ring, a flow
  that a policy route assigns to the group is sent to the member that ring has in
  the flow's slot, and a write of one group's ring leaves the slots of all other
  groups as they are.
\<close>

theorem group_ring_isolated:
  assumes g: "0 < g" "unat g < MAX_BPF_GROUPS" and fd: "fd_maglev_group ldr"
    and len: "length lut = MAGLEV_RING_SIZE"
      "length (maglev_group_map (bl_maps ldr)) = MAX_BPF_GROUPS * MAGLEV_RING_SIZE"
    and upd: "bpf_loader_update_group_maglev_lut g lut MAGLEV_RING_SIZE ldr = Inr ldr'"
    and lut: "\<forall>v \<in> set lut. unat v < MAX_EBPF_WANS"
  shows "(\<forall>g' h. unat g' < MAX_BPF_GROUPS \<and> g' \<noteq> g \<longrightarrow>
      array_lookup (maglev_group_map (bl_maps ldr')) (group_slot g' (h mod of_nat MAGLEV_RING_SIZE)) =
      array_lookup (maglev_group_map (bl_maps ldr)) (group_slot g' (h mod of_nat MAGLEV_RING_SIZE))) \<and>
    (policy_group (src_ip key) (take MAX_BPF_POLICIES (policy_route_map (bl_maps ldr'))) = g \<longrightarrow>
      maglev_pick key h (bl_maps ldr') = lut ! unat (h mod of_nat MAGLEV_RING_SIZE))"
proof -
  have "unat (h mod of_nat MAGLEV_RING_SIZE) < length lut"
    using len by (simp add: MAGLEV_RING_SIZE_def unat_mod)
  then have "unat (lut ! unat (h mod of_nat MAGLEV_RING_SIZE)) < MAX_EBPF_WANS" using lut by simp
  then show ?thesis
    using group_map_after_update [OF len g(2) fd upd] g by (simp add: maglev_pick_def Let_def)
qed

theorem group_ring_isolated_witness:
  "\<exists>ldr'. bpf_loader_update_group_maglev_lut 2 (replicate MAGLEV_RING_SIZE 3) MAGLEV_RING_SIZE sample_loader
      = Inr ldr' \<and>
    (\<forall>h. array_lookup (maglev_group_map (bl_maps ldr')) (group_slot 1 (h mod of_nat MAGLEV_RING_SIZE)) =
      array_lookup (maglev_group_map (bl_maps sample_loader)) (group_slot 1 (h mod of_nat MAGLEV_RING_SIZE)))"
proof -
  obtain ldr' where upd: "bpf_loader_update_group_maglev_lut 2 (replicate MAGLEV_RING_SIZE 3)
      MAGLEV_RING_SIZE sample_loader = Inr ldr'"
    by (simp add: bpf_loader_update_group_maglev_lut_def)
  moreover have "fd_maglev_group sample_loader" by (simp add: sample_loader_def)
  ultimately show ?thesis
    using group_ring_isolated [of 2 sample_loader "replicate MAGLEV_RING_SIZE 3" ldr' sample_key 0]
      sample_loader_sizes(2)
    by (auto simp: MAX_BPF_GROUPS_def MAX_EBPF_WANS_def)
qed

section \<open>WAN table entries\<close>

text \<open>
  The data plane sees the control plane's decision. After the loader has
  written WAN \<open>i\<close>, the XDP program takes it for new flows exactly if it is neither
  down nor draining and has a positive dynamic weight, and keeps established
  sessions on it exactly if it is draining or up with a positive weight.
\<close>

theorem update_wan_map_eligibility:
  assumes "i < MAX_WANS" "fd_wan_table ldr" "length (wan_table_map (bl_maps ldr)) = MAX_EBPF_WANS"
    and "bpf_loader_update_wan_map ifindex_of i w ldr = Inr ldr'"
  shows "\<exists>e. array_lookup (wan_table_map (bl_maps ldr')) (of_nat i) = Some e \<and>
    (wan_eligible e \<longleftrightarrow> w_state w \<in> {WAN_STATE_DEGRADED, WAN_STATE_HEALTHY} \<and> dynamic_weight w > 0) \<and>
    (wan_accepts_session e \<longleftrightarrow> w_state w = WAN_STATE_DRAINING \<or>
       (w_state w \<noteq> WAN_STATE_DOWN \<and> dynamic_weight w > 0))"
proof -
  have "unat (of_nat i :: u32) = i" using assms(1) by (simp add: MAX_WANS_def unat_of_nat)
  then have "array_lookup (wan_table_map (bl_maps ldr')) (of_nat i) = Some (wan_map_entry ifindex_of i w)"
    using assms by (auto simp: bpf_loader_update_wan_map_def Let_def array_modify_def array_lookup_def
        MAX_WANS_def MAX_EBPF_WANS_def split: if_splits)
  then show ?thesis
    by (cases "w_state w") (auto simp: wan_map_entry_def wan_eligible_def wan_accepts_session_def)
qed

theorem update_wan_map_eligibility_witness:
  "\<exists>ldr'. bpf_loader_update_wan_map (\<lambda>_. 4) 1 (sample_link ''eth2'' WAN_STATE_DRAINING 10) sample_loader = Inr ldr' \<and>
     (\<exists>e. array_lookup (wan_table_map (bl_maps ldr')) (of_nat 1) = Some e \<and>
        \<not> wan_eligible e \<and> wan_accepts_session e)"
proof -
  let ?w = "sample_link ''eth2'' WAN_STATE_DRAINING 10"
  obtain ldr' where upd: "bpf_loader_update_wan_map (\<lambda>_. 4) 1 ?w sample_loader = Inr ldr'"
    by (simp add: bpf_loader_update_wan_map_def MAX_WANS_def Let_def)
  moreover have "fd_wan_table sample_loader" "w_state ?w = WAN_STATE_DRAINING"
    by (simp_all add: sample_loader_def sample_link_def)
  ultimately show ?thesis
    using update_wan_map_eligibility [OF _ _ sample_loader_sizes(3) upd] by (auto simp: MAX_WANS_def)
qed

section \<open>Per-CPU statistics\<close>

text \<open>
  Reading the per-CPU counters of a WAN always writes beyond the buffer: the
  kernel copies six counters for each possible CPU and the loader allocates five
  for each online CPU.
\<close>

theorem get_percpu_wan_stats_overflows:
  assumes "fd_percpu_stats ldr" "i < MAX_WANS" "0 < num_cpus ldr" "num_cpus ldr \<le> possible_cpus"
  shows "bpf_loader_get_percpu_wan_stats possible_cpus sysfs i ldr = None"
proof -
  have "length (concat (map (\<lambda>c. kernel_wan_stats (f c)) [0..<n])) = 6 * n" for f n
    by (induction n) (simp_all add: kernel_wan_stats_def)
  then show ?thesis
    using assms by (simp add: bpf_loader_get_percpu_wan_stats_def percpu_lookup_def copy_to_user_def)
qed

theorem get_percpu_wan_stats_overflows_witness:
  "bpf_loader_get_percpu_wan_stats 2 (\<lambda>_. (0, 0, 0, 0)) 0 sample_loader = None"
  by (rule get_percpu_wan_stats_overflows) (simp_all add: sample_loader_def MAX_WANS_def)

end
