(* ===== verification/Net_Text.thy ===== *)
theory Net_Text
  imports Prelude
begin

text \<open>
  The address helpers of \<open>include/fluxwan.h\<close>: \<open>ip_to_str\<close>, \<open>str_to_ip\<close> and
  \<open>parse_cidr_subnet\<close>, with the C library routines they call (\<open>inet_ntop\<close>,
  \<open>inet_pton\<close>, \<open>atoi\<close>, \<open>strchr\<close>). An address is the 32-bit word whose bytes in
  memory are the dotted quad.
\<close>

section \<open>Decimal numbers\<close>

definition digit_val :: "char \<Rightarrow> nat option" where
  "digit_val c = (if (48::nat) \<le> of_char c \<and> of_char c \<le> (57::nat) then Some (of_char c - 48) else None)"

definition digit_char :: "nat \<Rightarrow> char" where
  "digit_char d = char_of (48 + d)"

fun dec_string :: "nat \<Rightarrow> string" where
  "dec_string n = (if n < 10 then [digit_char n] else dec_string (n div 10) @ [digit_char (n mod 10)])"

declare dec_string.simps [simp del]

definition is_space :: "char \<Rightarrow> bool" where
  "is_space c \<longleftrightarrow> of_char c = (32::nat) \<or> ((9::nat) \<le> of_char c \<and> of_char c \<le> (13::nat))"

fun read_digits :: "nat \<Rightarrow> string \<Rightarrow> nat" where
  "read_digits acc [] = acc"
| "read_digits acc (c # cs) =
     (case digit_val c of None \<Rightarrow> acc | Some d \<Rightarrow> read_digits (acc * 10 + d) cs)"

text \<open>\<open>strtol\<close> saturates at the 64-bit range; \<open>atoi\<close> keeps the low 32 bits.\<close>

definition strtol :: "string \<Rightarrow> int" where
  "strtol s =
     (let s = dropWhile is_space s;
          v = (case s of [] \<Rightarrow> 0
               | c # cs \<Rightarrow> if c = CHR ''-'' then - int (read_digits 0 cs)
                           else if c = CHR ''+'' then int (read_digits 0 cs)
                           else int (read_digits 0 s))
      in max (- (2 ^ 63)) (min (2 ^ 63 - 1) v))"

definition atoi :: "string \<Rightarrow> u32" where
  "atoi s = word_of_int (strtol s)"

section \<open>Dotted quads\<close>

text \<open>\<open>inet_pton(AF_INET)\<close>: four octets, no leading zeros, nothing else.\<close>

fun inet_pton4 :: "string \<Rightarrow> nat \<Rightarrow> bool \<Rightarrow> nat \<Rightarrow> nat list \<Rightarrow> nat list option" where
  "inet_pton4 [] octets saw_digit cur acc = (if octets < 4 then None else Some (acc @ [cur]))"
| "inet_pton4 (c # cs) octets saw_digit cur acc =
     (case digit_val c of
        Some d \<Rightarrow>
          if saw_digit \<and> cur = 0 then None
          else if cur * 10 + d > 255 then None
          else if saw_digit then inet_pton4 cs octets True (cur * 10 + d) acc
          else if octets + 1 > 4 then None
          else inet_pton4 cs (octets + 1) True (cur * 10 + d) acc
      | None \<Rightarrow>
          if c = CHR ''.'' \<and> saw_digit then
            if octets = 4 then None else inet_pton4 cs octets False 0 (acc @ [cur])
          else None)"

definition inet_pton :: "string \<Rightarrow> u32 option" where
  "inet_pton s = (case inet_pton4 s 0 False 0 [] of
     Some [a, b, c, d] \<Rightarrow> Some (le32 (of_nat a) (of_nat b) (of_nat c) (of_nat d))
   | _ \<Rightarrow> None)"

definition str_to_ip :: "string \<Rightarrow> u32" where
  "str_to_ip s = (case inet_pton s of None \<Rightarrow> 0 | Some addr \<Rightarrow> addr)"

definition ip_to_str :: "u32 \<Rightarrow> string" where
  "ip_to_str ip = dec_string (unat (byte_of32 0 ip)) @ ''.'' @ dec_string (unat (byte_of32 1 ip)) @ ''.'' @
     dec_string (unat (byte_of32 2 ip)) @ ''.'' @ dec_string (unat (byte_of32 3 ip))"

section \<open>Subnets\<close>

text \<open>The mask of a prefix length, in network byte order.\<close>

definition prefix_netmask :: "u32 \<Rightarrow> u32" where
  "prefix_netmask pfx =
     (if pfx = 0 then 0
      else if pfx = 32 then 0xFFFFFFFF
      else htonl (push_bit (unat (32 - pfx)) 0xFFFFFFFF))"

text \<open>The result is the triple of out-parameters: address, netmask, prefix length.\<close>

definition parse_cidr_subnet :: "string \<Rightarrow> u32 \<times> u32 \<times> u32" where
  "parse_cidr_subnet cidr =
     (let head = takeWhile (\<lambda>c. c \<noteq> CHR ''/'') cidr;
          pfx = (if CHR ''/'' \<in> set cidr
                 then let p = atoi (drop (length head + 1) cidr) in if p > 32 then 32 else p
                 else 24);
          ip_buf = take 31 head
      in (str_to_ip ip_buf, prefix_netmask pfx, pfx))"

section \<open>Round trip of addresses\<close>

lemma digit_val_digit_char: "d < 10 \<Longrightarrow> digit_val (digit_char d) = Some d"
  by (simp add: digit_val_def digit_char_def)

lemma digit_val_dot: "digit_val (CHR ''.'') = None"
  by (simp add: digit_val_def)

lemma dec_string_cases:
  "n < 10 \<Longrightarrow> dec_string n = [digit_char n]"
  "10 \<le> n \<Longrightarrow> n < 100 \<Longrightarrow> dec_string n = [digit_char (n div 10), digit_char (n mod 10)]"
  "100 \<le> n \<Longrightarrow> n < 1000 \<Longrightarrow> dec_string n =
     [digit_char (n div 100), digit_char (n div 10 mod 10), digit_char (n mod 10)]"
proof -
  show one: "dec_string n = [digit_char n]" if "n < 10" for n
    using that by (simp add: dec_string.simps [of n])
  show two: "dec_string n = [digit_char (n div 10), digit_char (n mod 10)]" if "10 \<le> n" "n < 100" for n
    using that one [of "n div 10"] by (simp add: dec_string.simps [of n] less_mult_imp_div_less)
  have "n div 10 div 10 = n div 100" by (simp add: div_mult2_eq [symmetric])
  then show "dec_string n = [digit_char (n div 100), digit_char (n div 10 mod 10), digit_char (n mod 10)]"
    if "100 \<le> n" "n < 1000"
    using that two [of "n div 10"] by (simp add: dec_string.simps [of n] less_mult_imp_div_less)
qed

lemma inet_pton4_dec_string:
  assumes "n < 256" "k < 4"
  shows "inet_pton4 (dec_string n @ rest) k False 0 acc = inet_pton4 rest (k + 1) True n acc"
proof -
  consider "n < 10" | "10 \<le> n \<and> n < 100" | "100 \<le> n \<and> n < 1000" using assms by linarith
  then show ?thesis
  proof cases
    case 1
    then show ?thesis using assms by (simp add: dec_string_cases digit_val_digit_char)
  next
    case 2
    moreover have "n div 10 < 10" "n div 10 \<noteq> 0" "n div 10 * 10 + n mod 10 = n"
      using 2 by (simp_all add: less_mult_imp_div_less div_eq_0_iff)
    moreover from this have "\<not> 255 < n div 10" by linarith
    ultimately show ?thesis using assms by (simp add: dec_string_cases digit_val_digit_char)
  next
    case 3
    have d: "n div 100 < 10" "n div 100 \<noteq> 0" "n div 100 \<le> 2"
      using 3 assms by (simp_all add: less_mult_imp_div_less div_eq_0_iff div_le_mono)
    moreover have t: "n div 100 * 10 + n div 10 mod 10 = n div 10"
      using div_mult2_eq [of n 10 10] by simp
    moreover have "\<not> 255 < n div 10" using assms div_le_dividend [of n 10] by linarith
    ultimately show ?thesis using 3 assms by (simp add: dec_string_cases digit_val_digit_char)
  qed
qed

lemma inet_pton4_dot:
  "octets \<noteq> 4 \<Longrightarrow> inet_pton4 (CHR ''.'' # cs) octets True cur acc = inet_pton4 cs octets False 0 (acc @ [cur])"
  by (simp add: digit_val_dot)

lemma inet_pton4_ip_to_str:
  "inet_pton4 (ip_to_str ip) 0 False 0 [] = Some (map (\<lambda>i. unat (byte_of32 i ip)) [0, 1, 2, 3])"
proof -
  have b: "unat (byte_of32 i ip) < 256" for i using unat_byte by blast
  show ?thesis
    using inet_pton4_dec_string [OF b, of "Suc (Suc (Suc 0))" _ "[]"]
    by (simp add: ip_to_str_def inet_pton4_dec_string b inet_pton4_dot del: inet_pton4.simps(2))
qed

text \<open>Printing an address and reading it back gives the same address, for every one of
  the $2^{32}$ words: \<open>str_to_ip\<close> inverts \<open>ip_to_str\<close>.\<close>

theorem str_to_ip_ip_to_str: "str_to_ip (ip_to_str ip) = ip"
  by (simp add: str_to_ip_def inet_pton_def inet_pton4_ip_to_str le32_byte_of32)

section \<open>Subnet matching\<close>

lemma htonl_and: "htonl (a AND b) = htonl a AND htonl b"
proof -
  have "byte_of32 k (a AND b) = byte_of32 k a AND byte_of32 k b" for k
    by (rule bit_word_eqI) (auto simp: byte_of32_def bit_simps)
  moreover have "le32 (p AND p') (q AND q') (r AND r') (s AND s') = le32 p q r s AND le32 p' q' r' s'"
    for p p' q q' r r' s s'
    by (rule bit_word_eqI) (auto simp: le32_def bit_simps)
  ultimately show ?thesis by (simp add: htonl_def)
qed

lemma mask_match_iff:
  fixes a b :: u32
  assumes "k \<le> 32"
  shows "a AND NOT (mask k) = b \<longleftrightarrow> drop_bit k a = drop_bit k b \<and> take_bit k b = 0"
proof
  assume b: "a AND NOT (mask k) = b"
  have "drop_bit k (a AND NOT (mask k)) = drop_bit k a"
    by (rule bit_word_eqI) (auto simp: bit_simps dest: bit_imp_le_length)
  moreover have "take_bit k (a AND NOT (mask k)) = 0"
    by (rule bit_word_eqI) (auto simp: bit_simps)
  ultimately show "drop_bit k a = drop_bit k b \<and> take_bit k b = 0" using b by simp
next
  assume b: "drop_bit k a = drop_bit k b \<and> take_bit k b = 0"
  have "a AND NOT (mask k) = push_bit k (drop_bit k a)" by (rule bit_word_eqI) (auto simp: bit_simps)
  also have "\<dots> = b" using b bits_ident [of k b] by simp
  finally show "a AND NOT (mask k) = b" .
qed

lemma htonl_prefix_netmask:
  assumes "pfx \<le> 32" shows "htonl (prefix_netmask pfx) = NOT (mask (32 - unat pfx))"
proof -
  have "unat (32 - pfx) = 32 - unat pfx" using assms by (simp add: unat_sub word_le_nat_alt)
  moreover have "htonl 0xFFFFFFFF = - 1" "htonl 0 = NOT (mask 32)" by code_simp+
  moreover have "(0xFFFFFFFF :: u32) = - 1" by simp
  then have "push_bit k (0xFFFFFFFF :: u32) = NOT (mask k)" for k
    by (simp only: push_bit_minus_one_eq_not_mask)
  ultimately show ?thesis by (auto simp: prefix_netmask_def)
qed

lemma prefix_netmask_match:
  assumes "pfx \<le> 32"
  shows "a AND prefix_netmask pfx = b \<longleftrightarrow>
    drop_bit (32 - unat pfx) (htonl a) = drop_bit (32 - unat pfx) (htonl b) \<and>
    take_bit (32 - unat pfx) (htonl b) = 0"
proof -
  have "a AND prefix_netmask pfx = b \<longleftrightarrow> htonl (a AND prefix_netmask pfx) = htonl b" by simp
  also have "\<dots> \<longleftrightarrow> htonl a AND NOT (mask (32 - unat pfx)) = htonl b"
    by (simp only: htonl_and htonl_prefix_netmask [OF assms])
  finally show ?thesis by (simp only: mask_match_iff diff_le_self)
qed

lemma parse_cidr_prefix_le: "parse_cidr_subnet s = (ip, nm, pfx) \<Longrightarrow> pfx \<le> 32"
  by (auto simp: parse_cidr_subnet_def Let_def split: if_splits)

lemma parse_cidr_netmask: "parse_cidr_subnet s = (ip, nm, pfx) \<Longrightarrow> nm = prefix_netmask pfx"
  by (auto simp: parse_cidr_subnet_def Let_def)

end
