(* ===== verification/Wan_State.thy ===== *)
theory Wan_State
  imports Bpf_Loader Net_Text
begin

text \<open>
  The state shared by the WAN manager and the PPPoE session manager
  (\<open>src/wan_manager.c\<close>, \<open>src/pppoe_manager.c\<close>), the system event log, and the
  operating system both of them drive. What the code does to the system (shell
  commands, files, signals, netlink requests) is appended to a history; what the
  system answers (clocks, file contents, process states, interface addresses) is
  a function of that history, the argument \<open>env\<close>.
\<close>

section \<open>Formatted text\<close>

definition fmt_u :: "u32 \<Rightarrow> string" where
  "fmt_u w = dec_string (unat w)"

definition fmt_d :: "int \<Rightarrow> string" where
  "fmt_d n = (if n < 0 then ''-'' @ dec_string (nat (- n)) else dec_string (nat n))"

text \<open>\<open>%.1f\<close> of a non-negative number: rounded to the nearest tenth, ties to even.\<close>

definition fmt_1f :: "rat \<Rightarrow> string" where
  "fmt_1f x =
     (let f = \<lfloor>10 * x\<rfloor>; r = 10 * x - of_int f;
          n = nat (if 2 * r > 1 \<or> (2 * r = 1 \<and> odd f) then f + 1 else f)
      in dec_string (n div 10) @ ''.'' @ dec_string (n mod 10))"

definition NL :: char where "NL = char_of (10::nat)"

text \<open>\<open>fgets\<close> into a buffer of \<open>n + 1\<close> characters, until the end of the file.\<close>

definition fgets_line :: "nat \<Rightarrow> string \<Rightarrow> string" where
  "fgets_line n s =
     (let l = takeWhile (\<lambda>c. c \<noteq> NL) s
      in if length l < length s \<and> length l < n then l @ [NL] else take n l)"

function fgets_lines :: "nat \<Rightarrow> string \<Rightarrow> string list" where
  "fgets_lines n s =
     (let l = fgets_line n s
      in if l = [] then [] else l # fgets_lines n (drop (length l) s))"
  by pat_completeness auto
termination
proof (relation "measure (\<lambda>(_, s). length s)")
  fix n s l assume l: "l = fgets_line n s" "l \<noteq> []"
  have "s \<noteq> []" using l by (auto simp: fgets_line_def)
  then show "((n, drop (length l) s), n, s) \<in> measure (\<lambda>(_, s). length s)" using l(2) by simp
qed simp

declare fgets_lines.simps [simp del]

text \<open>\<open>sscanf\<close> with \<open>%<n>s\<close> and with \<open>%d\<close>.\<close>

definition scan_word :: "nat \<Rightarrow> string \<Rightarrow> string option" where
  "scan_word n s =
     (let w = take n (takeWhile (\<lambda>c. \<not> is_space c) (dropWhile is_space s))
      in if w = [] then None else Some w)"

definition scan_int :: "string \<Rightarrow> int option" where
  "scan_int s =
     (let s = dropWhile is_space s; t = (case s of c # cs \<Rightarrow> if c = CHR ''-'' \<or> c = CHR ''+'' then cs else s | [] \<Rightarrow> [])
      in case t of c # _ \<Rightarrow> if digit_val c = None then None else Some (sint (atoi s)) | [] \<Rightarrow> None)"

section \<open>The operating system\<close>

datatype os_action =
  SYSTEM string
| ADD_IP_RULE u32 u32 u32
| ADD_DEFAULT_ROUTE u32 u32 int
| NET_APPLY_WAN_NAT string bool
| NET_APPLY_CONFIGURATION fluxwan_config bool
| KILL int string
| WAITPID int
| UNLINK string
| WRITE_FILE string string
| APPEND_FILE string string
| CHMOD string
| MKDIR string
| EXEC "string list"
| INSTALL_DHCP_HOOK

type_synonym history = "os_action list"

record wifi_link =
  link_connected :: bool
  link_signal_dbm :: int
  link_signal_pct :: int
  link_channel :: u32

record wan_env =
  env_time :: "history \<Rightarrow> u64"
  env_localtime :: "u64 \<Rightarrow> string option"
  env_now_ms :: "history \<Rightarrow> u64"
  env_authorized :: "history \<Rightarrow> bool"
  env_ifindex :: "history \<Rightarrow> string \<Rightarrow> u32"
  env_junk :: "nat \<Rightarrow> ring_slot"
  env_wifi_link :: "history \<Rightarrow> string \<Rightarrow> wifi_link option"
  env_file :: "history \<Rightarrow> string \<Rightarrow> string option"
  env_can_write :: "history \<Rightarrow> string \<Rightarrow> bool"
  env_executable :: "history \<Rightarrow> string \<Rightarrow> bool"
  env_alive :: "history \<Rightarrow> int \<Rightarrow> bool"
  env_exited :: "history \<Rightarrow> int \<Rightarrow> bool"
  env_fork :: "history \<Rightarrow> int"
  env_popen_line :: "history \<Rightarrow> string \<Rightarrow> string option"
  env_ifaddr :: "history \<Rightarrow> string \<Rightarrow> u32 option"

section \<open>The daemon state\<close>

datatype pppoe_state = PPPOE_STATE_IDLE | PPPOE_STATE_DIALING | PPPOE_STATE_AUTH
  | PPPOE_STATE_CONNECTED | PPPOE_STATE_DISCONNECTED | PPPOE_STATE_RECONNECTING | PPPOE_STATE_STOPPING

record pppoe_session =
  wan_index :: nat
  ps_state :: pppoe_state
  pppd_pid :: int
  opts_path :: string
  pid_file :: string
  ppp_ifname :: string
  macvlan_ifname :: string
  virtual_mac :: string
  assigned_ip :: u32
  remote_ip :: u32
  assigned_ip_str :: string
  remote_ip_str :: string
  dial_start_ms :: u64
  connected_since_ms :: u64
  next_retry_ms :: u64
  last_check_ms :: u64
  backoff_s :: u32
  reconnect_attempts :: int
  last_username :: string
  last_password :: string

record pppoe_manager =
  sessions :: "pppoe_session list"
  active_count :: int

text \<open>
  The manager context, with the configuration it points to and the module's static
  variables: the event log and the flag of the DHCP hook script.
\<close>

record wan_manager =
  wm_config :: fluxwan_config
  wm_nl :: bool
  wm_bpf :: "bpf_loader option"
  wm_pppoe :: "pppoe_manager option"
  maglev_lut :: "u32 list"
  last_dhcp_renew_ms :: "u64 list"
  dhcp_dead_cycles :: "u32 list"
  last_dhcp_rebind_ms :: "u64 list"
  g_logs :: "system_log_entry list"
  s_hook_installed :: bool
  wm_history :: history

definition os :: "os_action \<Rightarrow> wan_manager \<Rightarrow> wan_manager" where
  "os a wm = wm\<lparr>wm_history := wm_history wm @ [a]\<rparr>"

definition with_bpf :: "(bpf_loader \<Rightarrow> bpf_loader) \<Rightarrow> wan_manager \<Rightarrow> wan_manager" where
  "with_bpf f wm = wm\<lparr>wm_bpf := map_option f (wm_bpf wm)\<rparr>"

text \<open>A loader call whose error code the caller ignores.\<close>

definition unless_error :: "(bpf_loader \<Rightarrow> bpf_loader loader_result) \<Rightarrow> bpf_loader \<Rightarrow> bpf_loader" where
  "unless_error f ldr = (case f ldr of Inl _ \<Rightarrow> ldr | Inr ldr' \<Rightarrow> ldr')"

definition upd_cfg_wan :: "nat \<Rightarrow> (wan_config \<Rightarrow> wan_config) \<Rightarrow> wan_manager \<Rightarrow> wan_manager" where
  "upd_cfg_wan i f wm = wm\<lparr>wm_config := upd_wan i f (wm_config wm)\<rparr>"

abbreviation wan_at :: "wan_manager \<Rightarrow> nat \<Rightarrow> wan_config" where
  "wan_at wm i \<equiv> wans (wm_config wm) ! i"

section \<open>The event log\<close>

definition log_entry :: "u64 \<Rightarrow> string option \<Rightarrow> string \<Rightarrow> string \<Rightarrow> system_log_entry" where
  "log_entry now local_time level msg = \<lparr>
     log_timestamp_sec = now,
     log_time_str = cstr_copy 32 (case local_time of Some s \<Rightarrow> s | None \<Rightarrow> dec_string (unat now)),
     log_level = cstr_copy 16 level,
     log_message = cstr_copy 256 msg\<rparr>"

definition push_log :: "system_log_entry \<Rightarrow> system_log_entry list \<Rightarrow> system_log_entry list" where
  "push_log e logs =
     (if length logs < MAX_SYSTEM_LOGS then logs @ [e]
      else (take (MAX_SYSTEM_LOGS - 1) (drop 1 logs)) @ [e])"

definition wan_manager_add_log :: "wan_env \<Rightarrow> string \<Rightarrow> string \<Rightarrow> wan_manager \<Rightarrow> wan_manager" where
  "wan_manager_add_log env level msg wm =
     (let now = env_time env (wm_history wm)
      in wm\<lparr>g_logs := push_log (log_entry now (env_localtime env now) level msg) (g_logs wm)\<rparr>)"

definition wan_manager_get_logs :: "nat \<Rightarrow> system_log_entry list \<Rightarrow> system_log_entry list" where
  "wan_manager_get_logs max_count logs =
     (let count = (if length logs < max_count then length logs else max_count)
      in map (\<lambda>i. logs ! (length logs - 1 - i)) [0..<count])"

lemma foldl_push_log:
  "foldl (\<lambda>logs e. push_log e logs) [] es = drop (length es - MAX_SYSTEM_LOGS) es"
proof (induction es rule: rev_induct)
  case (snoc e es)
  show ?case
  proof (cases "length es < MAX_SYSTEM_LOGS")
    case True
    then show ?thesis using snoc by (simp add: push_log_def)
  next
    case False
    let ?k = "length es - MAX_SYSTEM_LOGS"
    have "length (drop ?k es) = MAX_SYSTEM_LOGS" using False by simp
    moreover have "Suc (length es) - MAX_SYSTEM_LOGS = Suc ?k" using False by simp
    ultimately show ?thesis using snoc False
      by (simp add: push_log_def MAX_SYSTEM_LOGS_def)
  qed
qed simp

lemma get_logs_rev: "wan_manager_get_logs k logs = take k (rev logs)"
proof (rule nth_equalityI)
  show "length (wan_manager_get_logs k logs) = length (take k (rev logs))"
    by (simp add: wan_manager_get_logs_def)
  fix i assume "i < length (wan_manager_get_logs k logs)"
  then have "i < k" "i < length logs" by (simp_all add: wan_manager_get_logs_def split: if_splits)
  then show "wan_manager_get_logs k logs ! i = take k (rev logs) ! i"
    by (simp add: wan_manager_get_logs_def rev_nth)
qed

text \<open>
  The event log keeps the most recent 32 events: after any sequence of events,
  asking for \<open>k\<close> of them returns the newest ones, newest first, and never more than
  32, with no event lost before the buffer is full.
\<close>

theorem get_logs_most_recent:
  "wan_manager_get_logs k (foldl (\<lambda>logs e. push_log e logs) [] es) = take (min k MAX_SYSTEM_LOGS) (rev es)"
  by (cases "length es \<le> MAX_SYSTEM_LOGS") (simp_all add: get_logs_rev foldl_push_log rev_drop min_def)

end
