(* ===== verification/C_Text.thy ===== *)
theory C_Text
  imports Wan_State
begin

text \<open>
  Texts as the C library reads and searches them, shared by the components that keep their data
  in text files: NUL-terminated strings, \<open>strstr\<close>, \<open>fscanf\<close> of 64-bit numbers, texts made of
  lines, and the text that a file holds after a history of writes.
\<close>

section \<open>Definitions\<close>

text \<open>Texts as C has them: up to the first NUL character.\<close>

definition cstr :: "string \<Rightarrow> string" where
  "cstr s = takeWhile (\<lambda>c. of_char c \<noteq> (0::nat)) s"

text \<open>\<open>fscanf\<close> with \<open>%llu\<close>: an optional sign and digits, saturated at 64 bits.\<close>

definition scan_llu :: "string \<Rightarrow> u64 option" where
  "scan_llu t =
     (let t = dropWhile is_space t;
          neg = (case t of c # _ \<Rightarrow> c = CHR ''-'' | [] \<Rightarrow> False);
          t = (case t of c # cs \<Rightarrow> if c = CHR ''-'' \<or> c = CHR ''+'' then cs else t | [] \<Rightarrow> [])
      in case t of
           [] \<Rightarrow> None
         | c # _ \<Rightarrow>
             if digit_val c = None then None
             else let v = read_digits 0 t
                  in Some (if v \<ge> 2 ^ 64 then - 1 else if neg then - of_nat v else of_nat v))"

text \<open>\<open>strstr\<close>: the text from the first occurrence of \<open>pat\<close> on.\<close>

fun strstr :: "string \<Rightarrow> string \<Rightarrow> string option" where
  "strstr [] pat = (if pat = [] then Some [] else None)"
| "strstr (c # cs) pat = (if take (length pat) (c # cs) = pat then Some (c # cs) else strstr cs pat)"

definition TAB :: char where "TAB = char_of (9::nat)"
definition CR :: char where "CR = char_of (13::nat)"

definition text_lines :: "string list \<Rightarrow> string" where
  "text_lines ls = concat (map (\<lambda>l. l @ [NL]) ls)"

text \<open>What the file \<open>path\<close> holds after a history; \<open>None\<close> when the history leaves none.\<close>

fun file_step :: "string \<Rightarrow> string option \<Rightarrow> os_action \<Rightarrow> string option" where
  "file_step path t (WRITE_FILE p s) = (if p = path then Some s else t)"
| "file_step path t (APPEND_FILE p s) =
     (if p = path then Some ((case t of None \<Rightarrow> [] | Some old \<Rightarrow> old) @ s) else t)"
| "file_step path t (UNLINK p) = (if p = path then None else t)"
| "file_step path t _ = t"

definition file_text :: "history \<Rightarrow> string \<Rightarrow> string option" where
  "file_text h path = foldl (file_step path) None h"

section \<open>Numbers\<close>

lemma dec_string_Cons: "\<exists>c cs. dec_string n = c # cs"
  by (induction n rule: dec_string.induct) (subst dec_string.simps, auto)

lemma dec_string_digits: "c \<in> set (dec_string n) \<Longrightarrow> digit_val c \<noteq> None"
proof (induction n rule: dec_string.induct)
  case (1 n)
  show ?case
  proof (cases "n < 10")
    case True
    with 1 show ?thesis by (auto simp: dec_string.simps [of n] digit_val_digit_char)
  next
    case False
    with 1 show ?thesis by (auto simp: dec_string.simps [of n] digit_val_digit_char)
  qed
qed

lemma read_digits_dec_string:
  "\<exists>k. read_digits a (dec_string n @ rest) = read_digits (a * 10 ^ k + n) rest"
proof (induction n arbitrary: a rest rule: dec_string.induct)
  case (1 n)
  show ?case
  proof (cases "n < 10")
    case True
    then have "read_digits a (dec_string n @ rest) = read_digits (a * 10 ^ 1 + n) rest"
      by (simp add: dec_string.simps [of n] digit_val_digit_char)
    then show ?thesis by blast
  next
    case False
    then obtain k where "read_digits a (dec_string (n div 10) @ digit_char (n mod 10) # rest) =
        read_digits (a * 10 ^ k + n div 10) (digit_char (n mod 10) # rest)"
      using 1 by blast
    then have "read_digits a (dec_string n @ rest) = read_digits (a * 10 ^ Suc k + n) rest"
      using False by (simp add: dec_string.simps [of n] digit_val_digit_char algebra_simps)
    then show ?thesis by blast
  qed
qed

lemma scan_llu_dec_string:
  assumes "n < 2 ^ 64"
  shows "scan_llu (dec_string n @ [NL]) = Some (of_nat n)"
proof -
  obtain c cs where c: "dec_string n = c # cs" using dec_string_Cons by blast
  have d: "digit_val c \<noteq> None" using dec_string_digits [of c n] by (simp add: c)
  then have "\<not> is_space c" "c \<noteq> CHR ''-''" "c \<noteq> CHR ''+''"
    by (auto simp: digit_val_def is_space_def split: if_splits)
  moreover have "digit_val NL = None" by (simp add: NL_def digit_val_def)
  then have "read_digits 0 (dec_string n @ [NL]) = n" using read_digits_dec_string [of 0 n "[NL]"] by simp
  ultimately show ?thesis using assms d unfolding scan_llu_def c by (simp add: Let_def)
qed

section \<open>Searching\<close>

lemma strstr_prefix: "take (length pat) s = pat \<Longrightarrow> strstr s pat = Some s"
  by (cases s) auto

lemma strstr_suffix: "strstr s pat = Some r \<Longrightarrow> \<exists>p. s = p @ r \<and> take (length pat) r = pat"
proof (induction s)
  case (Cons c cs)
  then show ?case by (cases "take (length pat) (c # cs) = pat") (auto intro: exI [of _ "[]"] exI [of _ "c # _"])
qed (auto split: if_splits)

text \<open>The pattern is not found in a text before a place where its first character first occurs.\<close>

lemma strstr_skip:
  assumes "pat = a # as" "a \<notin> set p"
  shows "strstr (p @ s) pat = strstr s pat"
  using assms(2) by (induction p) (auto simp: assms(1))

section \<open>Lines\<close>

lemma text_lines_Nil [simp]: "text_lines [] = []"
  by (simp add: text_lines_def)

lemma text_lines_Cons [simp]: "text_lines (l # ls) = l @ NL # text_lines ls"
  by (simp add: text_lines_def)

lemma text_lines_append [simp]: "text_lines (a @ b) = text_lines a @ text_lines b"
  by (simp add: text_lines_def)

lemma fgets_line_NL:
  assumes "NL \<notin> set l" "length l < n"
  shows "fgets_line n (l @ NL # s) = l @ [NL]"
proof -
  have "takeWhile (\<lambda>c. c \<noteq> NL) (l @ NL # s) = l" using assms(1) by (induction l) auto
  then show ?thesis using assms(2) by (simp add: fgets_line_def)
qed

lemma fgets_lines_text_lines:
  assumes "\<forall>l \<in> set ls. NL \<notin> set l \<and> length l < n"
  shows "fgets_lines n (text_lines ls) = map (\<lambda>l. l @ [NL]) ls"
  using assms
proof (induction ls)
  case Nil
  then show ?case by (subst fgets_lines.simps) (simp add: fgets_line_def)
next
  case (Cons l ls)
  then have "fgets_line n (text_lines (l # ls)) = l @ [NL]" by (simp add: fgets_line_NL)
  then show ?case using Cons by (subst fgets_lines.simps) (simp add: Let_def)
qed

section \<open>Files\<close>

lemma file_text_Nil [simp]: "file_text [] path = None"
  by (simp add: file_text_def)

lemma file_text_snoc: "file_text (h @ [a]) path = file_step path (file_text h path) a"
  by (simp add: file_text_def)

text \<open>Actions that do not touch the file keep its text.\<close>

definition leaves_file :: "string \<Rightarrow> history \<Rightarrow> bool" where
  "leaves_file path h \<longleftrightarrow> (\<forall>a \<in> set h. \<forall>t. file_step path t a = t)"

lemma leaves_file_Nil [simp]: "leaves_file path []"
  by (simp add: leaves_file_def)

lemma leaves_file_append [simp]: "leaves_file path (g @ h) \<longleftrightarrow> leaves_file path g \<and> leaves_file path h"
  by (auto simp: leaves_file_def)

lemma leaves_file_Cons [simp]: "leaves_file path (a # h) \<longleftrightarrow> (\<forall>t. file_step path t a = t) \<and> leaves_file path h"
  by (simp add: leaves_file_def)

lemma file_text_leaves: "leaves_file path g \<Longrightarrow> file_text (h @ g) path = file_text h path"
  by (induction g arbitrary: h rule: rev_induct)
    (simp_all add: file_text_snoc flip: append_assoc)

end
