(* ===== verification/License_Manager.thy ===== *)
theory License_Manager
  imports Ed25519 Base64 C_Text
begin

text \<open>
  The licence engine (\<open>src/license_manager.c\<close>): hardware identifier, signed licence keys, the
  ledger against turning the clock back, subscriptions and the grace period. The two files of
  the licence are part of the state; the clock, the files that identify the hardware and what
  the stack holds are the argument \<open>env\<close>. The theory shows that only signed keys for this
  hardware make a licence valid, that the grace period ends, that a clock that is turned back
  is detected, and what a restart does.
\<close>

section \<open>Definitions\<close>

definition LICENSE_DEFAULT_GRACE_SEC :: u32 where "LICENSE_DEFAULT_GRACE_SEC = 1800"

datatype license_type = LICENSE_TYPE_UNLICENSED | LICENSE_TYPE_DAYS | LICENSE_TYPE_LIFETIME

datatype license_status =
    LICENSE_STATUS_UNLICENSED | LICENSE_STATUS_ACTIVE | LICENSE_STATUS_EXPIRED
  | LICENSE_STATUS_TAMPERED | LICENSE_STATUS_HW_MISMATCH | LICENSE_STATUS_GRACE

record license_info =
  li_type :: license_type
  li_status :: license_status
  li_is_valid :: bool
  li_hwid :: string
  li_client_name :: string
  li_max_wans :: u16
  li_days_total :: u32
  li_days_remaining :: u32
  li_issued_at :: u64
  li_expires_at :: u64
  li_active_seconds_remaining :: u64
  li_grace_seconds_remaining :: u32
  li_status_str :: string
  li_type_str :: string

record license_payload =
  lp_magic :: "u8 list"
  lp_version :: u8
  lp_type :: u8
  lp_max_wans :: u16
  lp_issued_at :: u64
  lp_expires_at :: u64
  lp_days_total :: u32
  lp_hwid :: "u8 list"
  lp_client_name :: "u8 list"
  lp_features :: u8
  lp_reserved :: "u8 list"

text \<open>The globals of the engine and the two files it keeps.\<close>

record lic_state =
  g_license_info :: license_info
  g_boot_timestamp :: u64
  g_last_tick_ms :: u64
  g_cached_hwid :: string
  key_file :: "string option"
  watermark_file :: "string option"

text \<open>
  The environment of one call: the clock (\<open>le_time2\<close> is a second reading in the same call),
  whether the two files can be opened for writing, the files of the system, the uninitialised
  arrays of the cryptography and whether \<open>malloc\<close> succeeds.
\<close>

record lic_env =
  le_time :: u64
  le_time2 :: u64
  le_key_writable :: bool
  le_watermark_writable :: bool
  le_file :: "string \<Rightarrow> string option"
  le_stack256 :: "u8 list"
  le_stack512 :: "u8 list"
  le_stack_gf :: gf
  le_malloc :: bool

definition MASTER_PUBLIC_KEY :: "u8 list" where
  "MASTER_PUBLIC_KEY =
    [0x7b, 0x43, 0x59, 0xc6, 0x6e, 0xea, 0x55, 0xdc, 0xff, 0xa1, 0x9f, 0x94, 0xdd, 0x90, 0x0a, 0xed,
     0x9a, 0x8c, 0x86, 0x5d, 0xe3, 0xf5, 0xd2, 0xbc, 0xec, 0x5a, 0xd7, 0x5b, 0xf8, 0x1a, 0x40, 0x69]"

abbreviation HWID_SALT :: string where
  "HWID_SALT \<equiv> ''FLUXWAN-SECURE-HARDWARE-ROOT-2026-AHMED-ALDULAIMI''"

definition initial_license_info :: license_info where
  "initial_license_info = \<lparr>li_type = LICENSE_TYPE_UNLICENSED, li_status = LICENSE_STATUS_GRACE, li_is_valid = False,
     li_hwid = ''FWID-UNINITIALIZED'', li_client_name = ''Unregistered System'', li_max_wans = 3,
     li_days_total = 0, li_days_remaining = 0, li_issued_at = 0, li_expires_at = 0,
     li_active_seconds_remaining = 0, li_grace_seconds_remaining = LICENSE_DEFAULT_GRACE_SEC,
     li_status_str = ''GRACE_PERIOD'', li_type_str = ''UNLICENSED''\<rparr>"

text \<open>A process that starts with the given files.\<close>

definition license_start :: "string option \<Rightarrow> string option \<Rightarrow> lic_state" where
  "license_start key watermark = \<lparr>g_license_info = initial_license_info, g_boot_timestamp = 0, g_last_tick_ms = 0,
     g_cached_hwid = [], key_file = key, watermark_file = watermark\<rparr>"

abbreviation upd_info :: "(license_info \<Rightarrow> license_info) \<Rightarrow> lic_state \<Rightarrow> lic_state" where
  "upd_info f s \<equiv> s\<lparr>g_license_info := f (g_license_info s)\<rparr>"

subsection \<open>Hardware identifier\<close>

definition text_bytes :: "string \<Rightarrow> u8 list" where
  "text_bytes s = map of_char s"

definition bytes_text :: "u8 list \<Rightarrow> string" where
  "bytes_text b = map (\<lambda>x. char_of (unat x)) (takeWhile (\<lambda>x. x \<noteq> 0) b)"

definition trimmed :: "char \<Rightarrow> bool" where
  "trimmed c \<longleftrightarrow> of_char c \<in> {13, 10, 32, 9 :: nat}"

definition read_file_trimmed :: "lic_env \<Rightarrow> string \<Rightarrow> nat \<Rightarrow> string" where
  "read_file_trimmed env path max_len =
     (case le_file env path of
        None \<Rightarrow> []
      | Some t \<Rightarrow> rev (dropWhile trimmed (rev (cstr (fgets_line (max_len - 1) t)))))"

fun first_text :: "lic_env \<Rightarrow> string list \<Rightarrow> nat \<Rightarrow> string \<Rightarrow> string" where
  "first_text env [] max_len dflt = dflt"
| "first_text env (path # paths) max_len dflt =
     (let t = read_file_trimmed env path max_len in if t = [] then first_text env paths max_len dflt else t)"

fun cpu_model :: "string list \<Rightarrow> string" where
  "cpu_model [] = []"
| "cpu_model (l # ls) =
     (let l' = cstr l
      in if (take 10 l' = ''model name'' \<or> take 8 l' = ''Hardware'') \<and> CHR '':'' \<in> set l'
         then take 255 (tl (dropWhile (\<lambda>c. c \<noteq> CHR '':'') l')) else cpu_model ls)"

definition cpu_info :: "lic_env \<Rightarrow> string" where
  "cpu_info env =
     (let t = (case le_file env ''/proc/cpuinfo'' of None \<Rightarrow> [] | Some f \<Rightarrow> cpu_model (fgets_lines 255 f))
      in if t = [] then ''Generic-x86-Architecture'' else t)"

definition upper_hex :: "nat \<Rightarrow> char" where
  "upper_hex d = (if d < 10 then digit_char d else char_of (55 + d))"

definition fmt_02X :: "u8 \<Rightarrow> string" where
  "fmt_02X b = [upper_hex (unat b div 16), upper_hex (unat b mod 16)]"

definition hardware_text :: "lic_env \<Rightarrow> string" where
  "hardware_text env =
     (let dmi_uuid = first_text env
            [''/sys/class/dmi/id/product_uuid'', ''/etc/machine-id'', ''/var/lib/dbus/machine-id''] 128
            ''FLUXWAN-NODEVICE-UUID-DEFAULT'';
          disk_serial = first_text env
            [''/sys/block/sda/device/serial'', ''/sys/block/nvme0n1/device/serial'', ''/sys/block/vda/serial''] 128
            ''FLUXWAN-DISK-DEFAULT-SN'';
          mac_addr = first_text env [''/sys/class/net/eth0/address'', ''/sys/class/net/eth1/address''] 64
            ''00:00:00:00:00:00''
      in cstr_copy 1024 (HWID_SALT @ ''|'' @ dmi_uuid @ ''|'' @ disk_serial @ ''|'' @ cpu_info env @ ''|'' @ mac_addr))"

definition license_get_hardware_id :: "lic_env \<Rightarrow> lic_state \<Rightarrow> string \<times> lic_state" where
  "license_get_hardware_id env s =
     (if g_cached_hwid s \<noteq> [] then (g_cached_hwid s, s)
      else let hash = crypto_sha256 (le_stack256 env) (text_bytes (hardware_text env));
               h = (\<lambda>i. fmt_02X (hash ! i));
               t = ''FWID-'' @ h 0 @ h 1 @ ''-'' @ h 2 @ h 3 @ ''-'' @ h 4 @ h 5 @ ''-'' @ h 6 @ h 7
           in (t, s\<lparr>g_cached_hwid := t\<rparr>))"

subsection \<open>The ledger of the clock\<close>

definition read_watermark :: "lic_state \<Rightarrow> u64" where
  "read_watermark s =
     (case watermark_file s of None \<Rightarrow> 0 | Some t \<Rightarrow> (case scan_llu t of None \<Rightarrow> 0 | Some wm \<Rightarrow> wm))"

definition update_watermark :: "lic_env \<Rightarrow> u64 \<Rightarrow> lic_state \<Rightarrow> lic_state" where
  "update_watermark env current_ts s =
     (let existing = read_watermark s
      in if current_ts > existing \<and> le_watermark_writable env
         then s\<lparr>watermark_file := Some (dec_string (unat current_ts) @ [NL])\<rparr> else s)"

subsection \<open>Keys\<close>

definition le64 :: "u8 list \<Rightarrow> u64" where
  "le64 b = foldr (\<lambda>x w. ucast x OR push_bit 8 w) (take 8 b) 0"

definition payload_of :: "u8 list \<Rightarrow> license_payload" where
  "payload_of b = \<lparr>lp_magic = take 4 b, lp_version = b ! 4, lp_type = b ! 5, lp_max_wans = le16 (b ! 6) (b ! 7),
     lp_issued_at = le64 (drop 8 b), lp_expires_at = le64 (drop 16 b),
     lp_days_total = le32 (b ! 24) (b ! 25) (b ! 26) (b ! 27), lp_hwid = take 32 (drop 28 b),
     lp_client_name = take 64 (drop 60 b), lp_features = b ! 124, lp_reserved = take 15 (drop 125 b)\<rparr>"

text \<open>
  A key is rejected with the error code of the source. The decoder never returns a negative
  length, so the code $-2$ does not occur.
\<close>

definition parse_and_verify_license_key :: "lic_env \<Rightarrow> string \<Rightarrow> int + license_payload" where
  "parse_and_verify_license_key env key_str =
     (let p = dropWhile trimmed key_str;
          p = (if take 9 p = ''FLUX-LIC-'' then drop 9 p else p);
          blob = crypto_base64_decode p 512
      in if length blob \<noteq> 140 + 64 then Inl (- 3)
         else if take 4 blob \<noteq> text_bytes ''FLIC'' then Inl (- 4)
         else if \<not> crypto_ed25519_verify (le_stack_gf env) (le_stack512 env) (le_malloc env)
                     (drop 140 blob) (take 140 blob) MASTER_PUBLIC_KEY then Inl (- 5)
         else Inr (payload_of (take 140 blob)))"

text \<open>\<open>strcasecmp\<close>. The local identifier has 24 characters, so that the comparison ends within the field.\<close>

definition lower_case :: "char \<Rightarrow> char" where
  "lower_case c = (let n = of_char c in if 65 \<le> n \<and> n \<le> (90::nat) then char_of (n + 32) else c)"

definition same_text :: "string \<Rightarrow> string \<Rightarrow> bool" where
  "same_text a b \<longleftrightarrow> map lower_case a = map lower_case b"

abbreviation days_left :: "u64 \<Rightarrow> u32" where
  "days_left rem_sec \<equiv> ucast ((rem_sec + 86399) div 86400)"

definition rolled_back :: "u64 \<Rightarrow> u64 \<Rightarrow> bool" where
  "rolled_back now_ts watermark \<longleftrightarrow> watermark > 0 \<and> now_ts + 300 < watermark"

definition payload_info :: "license_payload \<Rightarrow> license_info \<Rightarrow> license_info" where
  "payload_info payload info = info\<lparr>
     li_max_wans := (if lp_max_wans payload > 0 then lp_max_wans payload else 256),
     li_issued_at := lp_issued_at payload, li_expires_at := lp_expires_at payload,
     li_days_total := lp_days_total payload,
     li_client_name := take 63 (bytes_text (lp_client_name payload)),
     li_hwid := take 31 (bytes_text (lp_hwid payload))\<rparr>"

definition subscription_status :: "lic_env \<Rightarrow> u64 \<Rightarrow> license_payload \<Rightarrow> lic_state \<Rightarrow> lic_state" where
  "subscription_status env now_ts payload s =
     (let s = upd_info (\<lambda>i. i\<lparr>li_type := LICENSE_TYPE_DAYS, li_type_str := ''DAYS''\<rparr>) s
      in if rolled_back now_ts (read_watermark s)
         then upd_info (\<lambda>i. i\<lparr>li_status := LICENSE_STATUS_TAMPERED, li_is_valid := False, li_days_remaining := 0,
                li_active_seconds_remaining := 0, li_status_str := ''CLOCK_TAMPERED''\<rparr>) s
         else let s = update_watermark env now_ts s
              in if now_ts \<ge> lp_expires_at payload
                 then upd_info (\<lambda>i. i\<lparr>li_status := LICENSE_STATUS_EXPIRED, li_is_valid := False, li_days_remaining := 0,
                        li_active_seconds_remaining := 0, li_status_str := ''EXPIRED''\<rparr>) s
                 else let rem_sec = lp_expires_at payload - now_ts
                      in upd_info (\<lambda>i. i\<lparr>li_status := LICENSE_STATUS_ACTIVE, li_is_valid := True,
                           li_active_seconds_remaining := rem_sec, li_days_remaining := days_left rem_sec,
                           li_status_str := ''ACTIVE''\<rparr>) s)"

definition update_license_status_from_payload ::
  "lic_env \<Rightarrow> u64 \<Rightarrow> license_payload \<Rightarrow> lic_state \<Rightarrow> lic_state" where
  "update_license_status_from_payload env now_ts payload s = (case license_get_hardware_id env s of (local_hwid, s) \<Rightarrow>
     let s = upd_info (payload_info payload) s
     in if \<not> same_text (bytes_text (lp_hwid payload)) local_hwid
        then upd_info (\<lambda>i. i\<lparr>li_status := LICENSE_STATUS_HW_MISMATCH, li_is_valid := False,
               li_status_str := ''HW_MISMATCH'',
               li_type_str := (if lp_type payload = 2 then ''LIFETIME'' else ''DAYS'')\<rparr>) s
        else if lp_type payload = 2
        then upd_info (\<lambda>i. i\<lparr>li_type := LICENSE_TYPE_LIFETIME, li_status := LICENSE_STATUS_ACTIVE, li_is_valid := True,
               li_days_remaining := 99999, li_active_seconds_remaining := 0xFFFFFFFF,
               li_status_str := ''ACTIVE'', li_type_str := ''LIFETIME''\<rparr>) s
        else subscription_status env now_ts payload s)"

subsection \<open>The interface\<close>

definition load_key :: "lic_env \<Rightarrow> lic_state \<Rightarrow> lic_state" where
  "load_key env s =
     (case key_file s of
        None \<Rightarrow> s
      | Some t \<Rightarrow>
          let key_buf = fgets_line 1023 t
          in if key_buf = [] then s
             else (case parse_and_verify_license_key env (cstr key_buf) of
                     Inl _ \<Rightarrow> s
                   | Inr payload \<Rightarrow> update_license_status_from_payload env (le_time2 env) payload s))"

definition license_manager_init :: "lic_env \<Rightarrow> lic_state \<Rightarrow> int \<times> lic_state" where
  "license_manager_init env s =
     (let s = s\<lparr>g_boot_timestamp := le_time env, g_last_tick_ms := 0\<rparr>;
          (hwid, s) = license_get_hardware_id env s;
          s = upd_info (\<lambda>i. i\<lparr>li_hwid := hwid\<rparr>) s;
          s = load_key env s;
          s = (if \<not> li_is_valid (g_license_info s)
               then upd_info (\<lambda>i. i\<lparr>li_status := LICENSE_STATUS_GRACE,
                      li_grace_seconds_remaining := LICENSE_DEFAULT_GRACE_SEC, li_status_str := ''GRACE_PERIOD''\<rparr>) s
               else s)
      in (if li_is_valid (g_license_info s) then 0 else - 1, s))"

definition tick_elapsed :: "u64 \<Rightarrow> lic_state \<Rightarrow> u32 \<times> lic_state" where
  "tick_elapsed now_ms s =
     (if g_last_tick_ms s > 0 \<and> now_ms > g_last_tick_ms s
      then let elapsed_sec = ucast ((now_ms - g_last_tick_ms s) div 1000)
           in (elapsed_sec, if elapsed_sec > 0 then s\<lparr>g_last_tick_ms := now_ms\<rparr> else s)
      else (0, s\<lparr>g_last_tick_ms := now_ms\<rparr>))"

definition tick_grace :: "u32 \<Rightarrow> license_info \<Rightarrow> license_info" where
  "tick_grace elapsed_sec i =
     (if \<not> li_is_valid i \<and> li_status i = LICENSE_STATUS_GRACE \<and> elapsed_sec > 0
      then if li_grace_seconds_remaining i > elapsed_sec
           then i\<lparr>li_grace_seconds_remaining := li_grace_seconds_remaining i - elapsed_sec\<rparr>
           else i\<lparr>li_grace_seconds_remaining := 0, li_status := LICENSE_STATUS_UNLICENSED,
                  li_status_str := ''UNLICENSED''\<rparr>
      else i)"

definition tick_days :: "lic_env \<Rightarrow> lic_state \<Rightarrow> lic_state" where
  "tick_days env s =
     (if li_is_valid (g_license_info s) \<and> li_type (g_license_info s) = LICENSE_TYPE_DAYS
      then let now_ts = le_time env
           in if rolled_back now_ts (read_watermark s)
              then upd_info (\<lambda>i. i\<lparr>li_status := LICENSE_STATUS_TAMPERED, li_is_valid := False,
                     li_status_str := ''CLOCK_TAMPERED''\<rparr>) s
              else let s = update_watermark env now_ts s
                   in if now_ts \<ge> li_expires_at (g_license_info s)
                      then upd_info (\<lambda>i. i\<lparr>li_status := LICENSE_STATUS_EXPIRED, li_is_valid := False,
                             li_days_remaining := 0, li_active_seconds_remaining := 0, li_status_str := ''EXPIRED''\<rparr>) s
                      else let rem_sec = li_expires_at (g_license_info s) - now_ts
                           in upd_info (\<lambda>i. i\<lparr>li_active_seconds_remaining := rem_sec,
                                li_days_remaining := days_left rem_sec\<rparr>) s
      else s)"

definition license_manager_tick :: "lic_env \<Rightarrow> u64 \<Rightarrow> lic_state \<Rightarrow> lic_state" where
  "license_manager_tick env now_ms s = (case tick_elapsed now_ms s of (elapsed_sec, s) \<Rightarrow>
     tick_days env (upd_info (tick_grace elapsed_sec) s))"

definition activation_error :: "int \<Rightarrow> string" where
  "activation_error rc =
     (if rc = - 2 then ''Invalid Base64 format.''
      else if rc = - 3 then ''Invalid license key length.''
      else if rc = - 4 then ''Unrecognized license header.''
      else if rc = - 5 then ''Cryptographic signature verification failed (Untrusted Key).''
      else ''License verification error ('' @ fmt_d rc @ '').'')"

definition save_key :: "lic_env \<Rightarrow> string \<Rightarrow> lic_state \<Rightarrow> lic_state" where
  "save_key env key s = (if le_key_writable env then s\<lparr>key_file := Some (key @ [NL])\<rparr> else s)"

definition license_manager_activate :: "lic_env \<Rightarrow> string \<Rightarrow> nat \<Rightarrow> lic_state \<Rightarrow> int \<times> string \<times> lic_state" where
  "license_manager_activate env key err_len s =
     (if key = [] then (- 1, cstr_copy err_len ''License key string is empty.'', s)
      else case parse_and_verify_license_key env key of
        Inl rc \<Rightarrow> (- 1, cstr_copy err_len (activation_error rc), s)
      | Inr payload \<Rightarrow>
          (case license_get_hardware_id env s of (local_hwid, s) \<Rightarrow>
             if \<not> same_text (bytes_text (lp_hwid payload)) local_hwid
             then (- 2, cstr_copy err_len (''License Hardware ID mismatch! Key is for ['' @ bytes_text (lp_hwid payload) @
                     ''], but this machine is ['' @ local_hwid @ ''].''), s)
             else if lp_type payload = 1 \<and> le_time env \<ge> lp_expires_at payload
             then (- 3, cstr_copy err_len ''This subscription key has already expired.'', s)
             else let s = save_key env key s;
                      s = update_watermark env (le_time env) s;
                      s = update_license_status_from_payload env (le_time2 env) payload s
                  in (0, cstr_copy err_len (''Success: Activated '' @ li_type_str (g_license_info s) @ '' license for '' @
                        li_client_name (g_license_info s) @ ''.''), s)))"

definition license_is_authorized :: "lic_state \<Rightarrow> bool" where
  "license_is_authorized s =
     (let i = g_license_info s
      in if li_is_valid i then True
         else li_status i = LICENSE_STATUS_GRACE \<and> li_grace_seconds_remaining i > 0)"

section \<open>The ledger\<close>

lemma read_update_watermark:
  "read_watermark (update_watermark env ts s) =
     (if le_watermark_writable env then max ts (read_watermark s) else read_watermark s)"
proof -
  have "read_watermark (s\<lparr>watermark_file := Some (dec_string (unat ts) @ [NL])\<rparr>) = ts"
    using scan_llu_dec_string [of "unat ts"] unat_u64_less [of ts] by (simp add: read_watermark_def)
  then show ?thesis by (auto simp: update_watermark_def Let_def max_def)
qed

lemma update_watermark_fields [simp]:
  "g_license_info (update_watermark env ts s) = g_license_info s"
  "g_last_tick_ms (update_watermark env ts s) = g_last_tick_ms s"
  "g_cached_hwid (update_watermark env ts s) = g_cached_hwid s"
  by (simp_all add: update_watermark_def Let_def)

section \<open>Signed licences\<close>

text \<open>The arrays on the stack have the size that their declarations give them.\<close>

definition env_ok :: "lic_env \<Rightarrow> bool" where
  "env_ok env \<longleftrightarrow> length (le_stack256 env) = 64 \<and> length (le_stack512 env) = 128 \<and> length (le_stack_gf env) = 16"

definition ed_accepts :: "u8 list \<Rightarrow> u8 list \<Rightarrow> bool" where
  "ed_accepts signature message = ed_verify (crypto_sha512 (replicate 128 0)) signature message MASTER_PUBLIC_KEY"

lemma verify_accepts:
  assumes "env_ok env" "length signature = 64" "length message = 140"
  shows "crypto_ed25519_verify (le_stack_gf env) (le_stack512 env) mem signature message MASTER_PUBLIC_KEY \<longleftrightarrow>
    mem \<and> ed_accepts signature message"
proof -
  have k: "length MASTER_PUBLIC_KEY = 32" by (simp add: MASTER_PUBLIC_KEY_def)
  have e: "crypto_sha512 (le_stack512 env) m = crypto_sha512 (replicate 128 0) m" if "length m < 2 ^ 61" for m
    using assms(1) that by (simp add: env_ok_def crypto_sha512_def sha512.md_hash_pad)
  have "length (take 32 signature @ MASTER_PUBLIC_KEY @ message) < 2 ^ 61" using assms k by simp
  then have "ed_verify (crypto_sha512 (le_stack512 env)) signature message MASTER_PUBLIC_KEY = ed_accepts signature message"
    unfolding ed_verify_def ed_accepts_def Let_def by (simp only: e)
  then show ?thesis
    using crypto_ed25519_verify_eq [OF assms(2) k, of "le_stack_gf env" "le_stack512 env" message mem] assms
    by (simp add: env_ok_def)
qed

definition signed_licence :: "string \<Rightarrow> license_info \<Rightarrow> bool" where
  "signed_licence hwid i \<longleftrightarrow> (\<exists>message signature. length message = 140 \<and> length signature = 64 \<and>
     take 4 message = text_bytes ''FLIC'' \<and> ed_accepts signature message \<and>
     same_text (bytes_text (take 32 (drop 28 message))) hwid \<and> li_expires_at i = le64 (drop 16 message) \<and>
     li_type i = (if message ! 5 = 2 then LICENSE_TYPE_LIFETIME else LICENSE_TYPE_DAYS))"

lemma parse_signed:
  assumes "env_ok env" "parse_and_verify_license_key env key = Inr payload"
  obtains message signature where "length message = 140" "length signature = 64" "take 4 message = text_bytes ''FLIC''"
    "ed_accepts signature message" "payload = payload_of message"
proof -
  define blob where "blob = crypto_base64_decode (let p = dropWhile trimmed key in if take 9 p = ''FLUX-LIC-'' then drop 9 p else p) 512"
  have b: "length blob = 204" "take 4 blob = text_bytes ''FLIC''" "payload = payload_of (take 140 blob)"
    "crypto_ed25519_verify (le_stack_gf env) (le_stack512 env) (le_malloc env) (drop 140 blob) (take 140 blob) MASTER_PUBLIC_KEY"
    using assms(2) unfolding parse_and_verify_license_key_def Let_def blob_def by (auto split: if_splits)
  moreover from b have "ed_accepts (drop 140 blob) (take 140 blob)"
    using verify_accepts [OF assms(1), of "drop 140 blob" "take 140 blob"] by simp
  ultimately show thesis using that [of "take 140 blob" "drop 140 blob"] by simp
qed

definition lic_inv :: "lic_state \<Rightarrow> bool" where
  "lic_inv s \<longleftrightarrow> g_cached_hwid s \<noteq> [] \<and>
     (li_is_valid (g_license_info s) \<longrightarrow>
        li_status (g_license_info s) = LICENSE_STATUS_ACTIVE \<and> signed_licence (g_cached_hwid s) (g_license_info s)) \<and>
     (li_status (g_license_info s) = LICENSE_STATUS_GRACE \<longrightarrow>
        li_grace_seconds_remaining (g_license_info s) \<le> LICENSE_DEFAULT_GRACE_SEC)"

lemma hardware_id:
  assumes "license_get_hardware_id env s = (t, s')"
  shows "t = g_cached_hwid s'" "g_cached_hwid s' \<noteq> []" "g_cached_hwid s \<noteq> [] \<Longrightarrow> s' = s"
    "g_license_info s' = g_license_info s" "key_file s' = key_file s" "watermark_file s' = watermark_file s"
  using assms by (auto simp: license_get_hardware_id_def Let_def split: if_splits)

lemma update_status_inv:
  assumes "env_ok env" "parse_and_verify_license_key env key = Inr payload"
    "li_status (g_license_info s) = LICENSE_STATUS_GRACE \<longrightarrow> li_grace_seconds_remaining (g_license_info s) \<le> LICENSE_DEFAULT_GRACE_SEC"
  shows "lic_inv (update_license_status_from_payload env now_ts payload s)"
proof -
  obtain local_hwid s1 where h: "license_get_hardware_id env s = (local_hwid, s1)" by fastforce
  obtain message signature where p: "length message = 140" "length signature = 64" "take 4 message = text_bytes ''FLIC''"
    "ed_accepts signature message" "payload = payload_of message" using parse_signed [OF assms(1,2)] by metis
  have hw: "lp_hwid payload = take 32 (drop 28 message)" "lp_expires_at payload = le64 (drop 16 message)" "lp_type payload = message ! 5"
    by (simp_all add: p payload_of_def)
  have sg: "signed_licence (g_cached_hwid s1) i"
    if "same_text (bytes_text (lp_hwid payload)) local_hwid" "li_expires_at i = lp_expires_at payload"
      "li_type i = (if lp_type payload = 2 then LICENSE_TYPE_LIFETIME else LICENSE_TYPE_DAYS)" for i
    using that p hardware_id(1) [OF h] unfolding signed_licence_def hw by metis
  show ?thesis
    using hardware_id(2) [OF h] sg assms(3)
    by (auto simp: lic_inv_def update_license_status_from_payload_def h Let_def subscription_status_def payload_info_def)
qed

text \<open>What a tick and an activation keep.\<close>

lemma tick_days_info:
  "li_is_valid (g_license_info (tick_days env s)) \<Longrightarrow> li_is_valid (g_license_info s)"
  "li_expires_at (g_license_info (tick_days env s)) = li_expires_at (g_license_info s)"
  "li_type (g_license_info (tick_days env s)) = li_type (g_license_info s)"
  "li_is_valid (g_license_info (tick_days env s)) \<Longrightarrow> li_status (g_license_info (tick_days env s)) = li_status (g_license_info s)"
  "li_grace_seconds_remaining (g_license_info (tick_days env s)) = li_grace_seconds_remaining (g_license_info s)"
  "g_cached_hwid (tick_days env s) = g_cached_hwid s" "g_last_tick_ms (tick_days env s) = g_last_tick_ms s"
  "li_status (g_license_info (tick_days env s)) = LICENSE_STATUS_GRACE \<Longrightarrow> li_status (g_license_info s) = LICENSE_STATUS_GRACE"
  by (auto simp: tick_days_def Let_def split: if_splits)

lemma tick_grace_info:
  "li_is_valid (tick_grace e i) = li_is_valid i" "li_expires_at (tick_grace e i) = li_expires_at i" "li_type (tick_grace e i) = li_type i"
  "li_is_valid i \<Longrightarrow> tick_grace e i = i"
  "li_status (tick_grace e i) = LICENSE_STATUS_GRACE \<Longrightarrow> li_status i = LICENSE_STATUS_GRACE"
  "li_grace_seconds_remaining (tick_grace e i) \<le> li_grace_seconds_remaining i"
  by (auto simp: tick_grace_def word_sub_le less_imp_le split: if_splits)

lemma tick_elapsed_fields:
  assumes "tick_elapsed now_ms s = (e, s')"
  shows "g_license_info s' = g_license_info s" "g_cached_hwid s' = g_cached_hwid s" "watermark_file s' = watermark_file s"
  using assms by (auto simp: tick_elapsed_def Let_def split: if_splits)

lemma signed_licence_cong:
  "li_expires_at i = li_expires_at j \<Longrightarrow> li_type i = li_type j \<Longrightarrow> signed_licence hwid i = signed_licence hwid j"
  by (simp add: signed_licence_def)

lemma lic_inv_tick: "lic_inv s \<Longrightarrow> lic_inv (license_manager_tick env now_ms s)"
proof -
  assume inv: "lic_inv s"
  obtain e s1 where e: "tick_elapsed now_ms s = (e, s1)" by fastforce
  note f = tick_elapsed_fields [OF e]
  let ?s = "upd_info (tick_grace e) s1"
  have "signed_licence hwid (g_license_info (tick_days env ?s)) = signed_licence hwid (g_license_info s)" for hwid
    by (rule signed_licence_cong) (simp_all add: tick_days_info tick_grace_info f)
  then show ?thesis
    using inv tick_days_info [of env ?s] tick_grace_info [where e = e and i = "g_license_info s"]
    unfolding lic_inv_def license_manager_tick_def e prod.case by (auto simp: f intro: order_trans)
qed

lemma lic_inv_init: "env_ok env \<Longrightarrow> lic_inv (snd (license_manager_init env (license_start key watermark)))"
proof -
  assume env: "env_ok env"
  define s0 where "s0 = (license_start key watermark)\<lparr>g_boot_timestamp := le_time env, g_last_tick_ms := 0\<rparr>"
  obtain hwid s1 where h: "license_get_hardware_id env s0 = (hwid, s1)" by fastforce
  define s2 where "s2 = upd_info (\<lambda>i. i\<lparr>li_hwid := hwid\<rparr>) s1"
  have s2: "\<not> li_is_valid (g_license_info s2)" "g_cached_hwid s2 \<noteq> []"
      "li_grace_seconds_remaining (g_license_info s2) \<le> LICENSE_DEFAULT_GRACE_SEC"
    using hardware_id(2,4) [OF h] by (simp_all add: s2_def s0_def license_start_def initial_license_info_def)
  then have i2: "lic_inv s2" by (simp add: lic_inv_def)
  have "lic_inv (load_key env s2)"
    using i2 update_status_inv [OF env] s2(3) by (auto simp: load_key_def Let_def split: option.splits sum.splits)
  then show ?thesis
    by (auto simp: license_manager_init_def s0_def [symmetric] h s2_def [symmetric] Let_def lic_inv_def)
qed

lemma init_outcome:
  assumes "license_manager_init env s0 = (rc, s)"
  shows "rc = 0 \<and> li_is_valid (g_license_info s) \<or>
    rc = - 1 \<and> \<not> li_is_valid (g_license_info s) \<and> li_status (g_license_info s) = LICENSE_STATUS_GRACE \<and>
      li_grace_seconds_remaining (g_license_info s) = 1800"
  using assms unfolding license_manager_init_def
  by (auto simp: Let_def LICENSE_DEFAULT_GRACE_SEC_def split: prod.splits if_splits)

lemma lic_inv_files: "lic_inv (s\<lparr>key_file := k, watermark_file := w\<rparr>) = lic_inv s"
  by (simp add: lic_inv_def)

lemma lic_inv_activate:
  assumes "env_ok env" "lic_inv s"
  shows "lic_inv (snd (snd (license_manager_activate env key err_len s)))"
proof -
  have h: "license_get_hardware_id env s = (g_cached_hwid s, s)"
    using assms(2) by (simp add: license_get_hardware_id_def lic_inv_def)
  have g: "li_status (g_license_info (update_watermark env t (save_key env key s))) = LICENSE_STATUS_GRACE \<longrightarrow>
      li_grace_seconds_remaining (g_license_info (update_watermark env t (save_key env key s))) \<le> LICENSE_DEFAULT_GRACE_SEC" for t
    using assms(2) by (simp add: lic_inv_def save_key_def)
  show ?thesis
    using assms(2) update_status_inv [OF assms(1) _ g]
    by (auto simp: license_manager_activate_def h Let_def split: sum.splits)
qed

inductive lic_reachable :: "lic_state \<Rightarrow> bool" where
  start: "env_ok env \<Longrightarrow> lic_reachable (snd (license_manager_init env (license_start key watermark)))"
| tick: "lic_reachable s \<Longrightarrow> lic_reachable (license_manager_tick env now_ms s)"
| activate: "lic_reachable s \<Longrightarrow> env_ok env \<Longrightarrow> lic_reachable (snd (snd (license_manager_activate env key err_len s)))"
| files: "lic_reachable s \<Longrightarrow> lic_reachable (s\<lparr>key_file := k, watermark_file := w\<rparr>)"

lemma reachable_lic_inv: "lic_reachable s \<Longrightarrow> lic_inv s"
  by (induction rule: lic_reachable.induct) (auto simp: lic_inv_init lic_inv_tick lic_inv_activate lic_inv_files)

section \<open>The grace period\<close>

lemma update_status_last_tick:
  "g_last_tick_ms (update_license_status_from_payload env now_ts payload s) = g_last_tick_ms s"
proof -
  obtain t s' where h: "license_get_hardware_id env s = (t, s')" by fastforce
  then have "g_last_tick_ms s' = g_last_tick_ms s" by (auto simp: license_get_hardware_id_def Let_def split: if_splits)
  then show ?thesis by (simp add: update_license_status_from_payload_def h Let_def subscription_status_def)
qed

lemma init_last_tick: "license_manager_init env s0 = (rc, s) \<Longrightarrow> g_last_tick_ms s = 0"
proof -
  assume i: "license_manager_init env s0 = (rc, s)"
  obtain t s' where h: "license_get_hardware_id env (s0\<lparr>g_boot_timestamp := le_time env, g_last_tick_ms := 0\<rparr>) = (t, s')" by fastforce
  then have "g_last_tick_ms s' = 0" by (auto simp: license_get_hardware_id_def Let_def split: if_splits)
  then have "g_last_tick_ms (load_key env (upd_info (\<lambda>i. i\<lparr>li_hwid := t\<rparr>) s')) = 0"
    by (simp add: load_key_def Let_def update_status_last_tick split: option.split sum.split)
  with i h show ?thesis by (auto simp: license_manager_init_def Let_def split: if_splits)
qed

text \<open>
  Without a licence, at the time of the last tick: seconds are counted down at least half as
  fast as they pass, because a fraction of a second is lost only when a whole one is counted.
\<close>

definition counting_down :: "nat \<Rightarrow> nat \<Rightarrow> lic_state \<Rightarrow> bool" where
  "counting_down t0 t s \<longleftrightarrow> \<not> li_is_valid (g_license_info s) \<and>
     t0 \<le> unat (g_last_tick_ms s) \<and> unat (g_last_tick_ms s) \<le> t \<and> t < unat (g_last_tick_ms s) + 1000 \<and>
     (li_status (g_license_info s) = LICENSE_STATUS_GRACE \<longrightarrow>
        unat (g_last_tick_ms s) + 2000 * unat (li_grace_seconds_remaining (g_license_info s)) \<le> t0 + 2000 * 1800)"

lemma tick_unlicensed:
  assumes "\<not> li_is_valid (g_license_info s)" "tick_elapsed now_ms s = (e, s1)"
  shows "license_manager_tick env now_ms s = upd_info (tick_grace e) s1"
  using assms tick_elapsed_fields [OF assms(2)]
  by (simp add: license_manager_tick_def tick_days_def tick_grace_info)

lemma counting_down_tick:
  assumes "counting_down t0 t s" "0 < t0" "t \<le> unat now_ms" "unat now_ms < 2 ^ 41"
  shows "counting_down t0 (unat now_ms) (license_manager_tick env now_ms s)"
proof -
  define l where "l = g_last_tick_ms s"
  note c = assms(1) [unfolded counting_down_def l_def [symmetric]]
  have l0: "l > 0" using c assms(2) by (simp add: word_less_nat_alt)
  have v: "\<not> li_is_valid (g_license_info s)" using c by blast
  obtain e s1 where e: "tick_elapsed now_ms s = (e, s1)" by fastforce
  note f = tick_elapsed_fields [OF e]
  note tick = tick_unlicensed [OF v e, of env]
  show ?thesis
  proof (cases "now_ms > l")
    case False
    then have "now_ms = l" using c assms(3) by (simp add: word_less_nat_alt word_unat_eq_iff)
    then have "e = 0" "g_last_tick_ms s1 = l" using e l0 by (auto simp: tick_elapsed_def l_def)
    then show ?thesis using c f \<open>now_ms = l\<close> unfolding tick by (simp add: counting_down_def tick_grace_def)
  next
    case True
    have d: "unat (now_ms - l) = unat now_ms - unat l" using True by (simp add: unat_sub)
    define q where "q = (unat now_ms - unat l) div 1000"
    have q: "q < 2 ^ 32" using assms(4) by (simp add: q_def)
    have "unat ((now_ms - l) div 1000) = q" by (simp add: unat_div d q_def)
    then have eq: "unat e = q" and s1: "s1 = (if q > 0 then s\<lparr>g_last_tick_ms := now_ms\<rparr> else s)"
      using e True l0 q by (auto simp: tick_elapsed_def Let_def l_def [symmetric] unsigned_ucast_eq take_bit_nat_eq_self word_less_nat_alt)
    have ln: "unat l \<le> unat now_ms" using True by (simp add: word_less_nat_alt)
    then have r: "unat now_ms - unat l < 1000 * q + 1000" "1000 * q \<le> unat now_ms - unat l" by (simp_all add: q_def)
    show ?thesis
    proof (cases "q = 0")
      case True
      then have "e = 0" using eq by (simp add: unat_eq_zero)
      then show ?thesis using c r True s1 ln unfolding tick by (auto simp: counting_down_def tick_grace_def l_def)
    next
      case False
      let ?g = "li_grace_seconds_remaining (g_license_info s)"
      have "unat (?g - e) = unat ?g - q" if "e < ?g" using that eq by (simp add: unat_sub less_imp_le)
      then show ?thesis using c r False s1 eq ln unfolding tick
        by (auto simp: counting_down_def tick_grace_def word_less_nat_alt)
    qed
  qed
qed

lemma counting_down_run:
  assumes "counting_down t0 t s" "0 < t0" "sorted (t # map (unat \<circ> snd) ticks)" "\<forall>x \<in> set ticks. unat (snd x) < 2 ^ 41"
  shows "counting_down t0 (last (t # map (unat \<circ> snd) ticks)) (foldl (\<lambda>s (env, t). license_manager_tick env t s) s ticks)"
  using assms
proof (induction ticks arbitrary: t s)
  case (Cons x ticks)
  obtain env now_ms where x: "x = (env, now_ms)" by fastforce
  have "counting_down t0 (unat now_ms) (license_manager_tick env now_ms s)"
    using Cons.prems x by (intro counting_down_tick [OF Cons.prems(1,2)]) auto
  from Cons.IH [OF this Cons.prems(2)] Cons.prems(3,4) show ?case by (simp add: x)
qed simp

lemma counting_down_over: "counting_down t0 t s \<Longrightarrow> t0 + 3601000 \<le> t \<Longrightarrow> \<not> license_is_authorized s"
  by (auto simp: counting_down_def license_is_authorized_def Let_def)

section \<open>Clocks and keys\<close>

lemma tick_lost: "\<not> li_is_valid (g_license_info s) \<Longrightarrow> li_status (g_license_info s) \<noteq> LICENSE_STATUS_GRACE \<Longrightarrow>
    g_license_info (license_manager_tick env now_ms s) = g_license_info s"
proof -
  assume a: "\<not> li_is_valid (g_license_info s)" "li_status (g_license_info s) \<noteq> LICENSE_STATUS_GRACE"
  obtain e s1 where e: "tick_elapsed now_ms s = (e, s1)" by fastforce
  show ?thesis using a tick_elapsed_fields [OF e] by (simp add: tick_unlicensed [OF a(1) e] tick_grace_def)
qed

lemma tick_valid: "li_is_valid (g_license_info (license_manager_tick env now_ms s)) \<Longrightarrow> li_is_valid (g_license_info s)"
proof -
  assume v: "li_is_valid (g_license_info (license_manager_tick env now_ms s))"
  obtain e s1 where e: "tick_elapsed now_ms s = (e, s1)" by fastforce
  from v tick_days_info(1) [of env "upd_info (tick_grace e) s1"] show ?thesis
    by (simp add: license_manager_tick_def e tick_grace_info tick_elapsed_fields [OF e])
qed

lemma run_lost:
  assumes "\<not> li_is_valid (g_license_info s)" "li_status (g_license_info s) \<noteq> LICENSE_STATUS_GRACE"
  shows "g_license_info (foldl (\<lambda>s (env, t). license_manager_tick env t s) s ticks) = g_license_info s"
  using assms by (induction ticks arbitrary: s) (auto simp: tick_lost)

lemma tick_subscription:
  assumes "li_is_valid (g_license_info s)" "li_type (g_license_info s) = LICENSE_TYPE_DAYS"
  obtains s1 where "g_license_info s1 = g_license_info s" "read_watermark s1 = read_watermark s"
    "license_manager_tick env now_ms s = tick_days env s1"
proof -
  obtain e s1 where e: "tick_elapsed now_ms s = (e, s1)" by fastforce
  note f = tick_elapsed_fields [OF e]
  have "upd_info (tick_grace e) s1 = s1" using assms(1) by (simp add: f tick_grace_info flip: f(1))
  then show thesis using that [of s1] f by (simp add: license_manager_tick_def e read_watermark_def)
qed

lemma crypto_base64_decode_key:
  assumes "crypto_base64_encode b n = Some t" "length b = 204" "\<forall>c \<in> set u. b64_skipped c"
  shows "crypto_base64_decode (t @ u) 512 = b"
  using assms b64_decode_encode [OF assms(3), of 512 b "[]"]
  by (auto simp: crypto_base64_encode_def crypto_base64_decode_def split: if_splits)

lemma update_status_key_file: "key_file (update_license_status_from_payload env now_ts payload s) = key_file s"
proof -
  obtain t s' where h: "license_get_hardware_id env s = (t, s')" by fastforce
  show ?thesis using hardware_id(5) [OF h]
    by (simp add: update_license_status_from_payload_def h Let_def subscription_status_def update_watermark_def)
qed

section \<open>Properties\<close>


definition sample_lic_env :: "u64 \<Rightarrow> lic_env" where
  "sample_lic_env t = \<lparr>le_time = t, le_time2 = t, le_key_writable = True, le_watermark_writable = True,
     le_file = (\<lambda>_. None), le_stack256 = replicate 64 0, le_stack512 = replicate 128 0,
     le_stack_gf = replicate 16 0, le_malloc = True\<rparr>"

lemma sample_env_ok: "env_ok (sample_lic_env t)"
  by (simp add: env_ok_def sample_lic_env_def)


text \<open>
  C32. A restart always authorises. Whatever the licence file, the ledger and the clock say (no
  key, a forged key, an expired subscription, a key for other hardware, a clock that was turned
  back), after initialisation the system is authorised: either the licence is valid and the
  result is 0, or the result is $-1$ and a full grace period of 1800 seconds begins.
\<close>

theorem restart_always_authorises:
  "\<exists>rc s. license_manager_init env (license_start key watermark) = (rc, s) \<and> license_is_authorized s \<and>
     (rc = 0 \<and> li_is_valid (g_license_info s) \<or>
      rc = - 1 \<and> li_status (g_license_info s) = LICENSE_STATUS_GRACE \<and> li_grace_seconds_remaining (g_license_info s) = 1800)"
proof -
  obtain rc s where i: "license_manager_init env (license_start key watermark) = (rc, s)" by fastforce
  with init_outcome [OF i] show ?thesis by (auto simp: license_is_authorized_def)
qed

text \<open>
  C31. The grace period ends. After a start without a valid licence, and ticks at any times that
  do not decrease: as soon as an hour and a second have passed since the first tick, the system
  is not authorised, whatever the system clock and the files say in the meantime. (The half hour
  may stretch to an hour: each count drops the fraction of a second that has passed.)
\<close>

theorem grace_period_ends:
  assumes "license_manager_init env (license_start key watermark) = (- 1, s)" "0 < t0"
    and "sorted (map unat (t0 # map snd ticks))" "unat t0 + 3601000 \<le> unat (last (t0 # map snd ticks))"
    and "\<forall>x \<in> set ticks. unat (snd x) < 2 ^ 41"
  shows "\<not> license_is_authorized (foldl (\<lambda>s (env, t). license_manager_tick env t s) s ((env0, t0) # ticks))"
proof -
  have i: "\<not> li_is_valid (g_license_info s)" "li_grace_seconds_remaining (g_license_info s) = 1800"
    using init_outcome [OF assms(1)] by auto
  have e: "tick_elapsed t0 s = (0, s\<lparr>g_last_tick_ms := t0\<rparr>)" by (simp add: tick_elapsed_def init_last_tick [OF assms(1)])
  have "counting_down (unat t0) (unat t0) (license_manager_tick env0 t0 s)"
    unfolding tick_unlicensed [OF i(1) e] using i by (simp add: counting_down_def tick_grace_def)
  moreover have "0 < unat t0" using assms(2) by (simp add: word_less_nat_alt)
  ultimately have "counting_down (unat t0) (last (unat t0 # map (unat \<circ> snd) ticks))
      (foldl (\<lambda>s (env, t). license_manager_tick env t s) (license_manager_tick env0 t0 s) ticks)"
    using assms(3,5) by (intro counting_down_run) (simp_all add: comp_def)
  moreover have "last (unat t0 # map (unat \<circ> snd) ticks) = unat (last (t0 # map snd ticks))"
    by (simp add: last_map comp_def)
  ultimately show ?thesis using counting_down_over assms(4) by simp
qed

theorem grace_period_ends_witness:
  "\<not> license_is_authorized (foldl (\<lambda>s (env, t). license_manager_tick env t s)
     (snd (license_manager_init (sample_lic_env 7) (license_start None None)))
     [(sample_lic_env 8, 1000), (sample_lic_env 9, 1800000), (sample_lic_env 3, 3602000)])"
proof -
  have "fst (license_manager_init (sample_lic_env 7) (license_start None None)) = - 1"
    by (auto simp: license_manager_init_def load_key_def license_start_def license_get_hardware_id_def Let_def initial_license_info_def)
  then have "license_manager_init (sample_lic_env 7) (license_start None None) =
      (- 1, snd (license_manager_init (sample_lic_env 7) (license_start None None)))" by (simp add: prod_eq_iff)
  from grace_period_ends [OF this, of 1000 "[(sample_lic_env 9, 1800000), (sample_lic_env 3, 3602000)]" "sample_lic_env 8"]
  show ?thesis by simp
qed

text \<open>
  C33. Turning the clock back is detected. When a subscription is valid after a tick that could
  write the ledger, and at a later tick the clock is more than five minutes behind that tick,
  the licence is marked as tampered, and the system stays unauthorised through all further
  ticks, even when the clock is set right again: only an activation or a restart helps.
\<close>

theorem clock_rollback_detected:
  assumes "li_is_valid (g_license_info (license_manager_tick env1 m1 s))"
    and "li_type (g_license_info s) = LICENSE_TYPE_DAYS" "le_watermark_writable env1"
    and "unat (le_time env2) + 300 < unat (le_time env1)"
  shows "li_status (g_license_info (license_manager_tick env2 m2 (license_manager_tick env1 m1 s))) = LICENSE_STATUS_TAMPERED \<and>
    \<not> license_is_authorized (foldl (\<lambda>s (env, t). license_manager_tick env t s)
        (license_manager_tick env2 m2 (license_manager_tick env1 m1 s)) ticks)"
proof -
  have v: "li_is_valid (g_license_info s)" using assms(1) by (rule tick_valid)
  obtain s1 where s1: "g_license_info s1 = g_license_info s" "license_manager_tick env1 m1 s = tick_days env1 s1"
    using tick_subscription [OF v assms(2)] by metis
  define s2 where "s2 = tick_days env1 s1"
  have s2: "li_is_valid (g_license_info s2)" "li_type (g_license_info s2) = LICENSE_TYPE_DAYS"
    using assms(1,2) by (simp_all add: s2_def s1 tick_days_info)
  have "read_watermark s2 = read_watermark (update_watermark env1 (le_time env1) s1)"
    using s2(1) v assms(2) by (auto simp: s2_def tick_days_def s1 Let_def read_watermark_def split: if_splits)
  then have wm: "le_time env1 \<le> read_watermark s2" by (simp add: read_update_watermark assms(3))
  obtain s3 where s3: "g_license_info s3 = g_license_info s2" "read_watermark s3 = read_watermark s2"
      "license_manager_tick env2 m2 s2 = tick_days env2 s3"
    using tick_subscription [OF s2] by metis
  have "unat (le_time env2 + 300) = unat (le_time env2) + 300"
    using assms(4) unat_u64_less [of "le_time env1"] by (simp add: unat_add_lem [THEN iffD1])
  then have "rolled_back (le_time env2) (read_watermark s2)"
    using assms(4) wm by (simp add: rolled_back_def word_less_nat_alt word_le_nat_alt)
  then have t: "\<not> li_is_valid (g_license_info (tick_days env2 s3))"
    "li_status (g_license_info (tick_days env2 s3)) = LICENSE_STATUS_TAMPERED"
    using s2 by (simp_all add: tick_days_def s3 Let_def)
  with run_lost [OF t(1)] show ?thesis by (simp add: s1 s2_def [symmetric] s3 license_is_authorized_def Let_def)
qed

theorem clock_rollback_detected_witness:
  "\<exists>s. \<not> license_is_authorized (foldl (\<lambda>s (env, t). license_manager_tick env t s)
     (license_manager_tick (sample_lic_env 600) 2000 (license_manager_tick (sample_lic_env 1000) 1000 s))
     [(sample_lic_env 1001, 3000)])"
proof -
  define s where "s = (license_start None None)\<lparr>g_license_info := initial_license_info
    \<lparr>li_is_valid := True, li_type := LICENSE_TYPE_DAYS, li_status := LICENSE_STATUS_ACTIVE, li_expires_at := 100000\<rparr>\<rparr>"
  have "li_is_valid (g_license_info (license_manager_tick (sample_lic_env 1000) 1000 s))"
    by (simp add: s_def license_start_def license_manager_tick_def tick_elapsed_def tick_grace_def tick_days_def Let_def
      sample_lic_env_def rolled_back_def read_watermark_def update_watermark_def initial_license_info_def)
  from clock_rollback_detected [OF this, of "sample_lic_env 600" 2000 "[(sample_lic_env 1001, 3000)]"] show ?thesis
    by (auto simp: s_def sample_lic_env_def)
qed

text \<open>
  C34. What becomes of a key. A key text made of the prefix and the encoding of 140 bytes of
  payload and 64 bytes of signature, behind white space and followed by line ends, is decoded to
  exactly these bytes; it is rejected with $-4$ when the header is wrong, with $-5$ when memory is
  short or the signature check of RFC 8032 fails under the vendor's key, and otherwise yields the
  fields of the payload.
\<close>

theorem licence_key_parsed:
  assumes "env_ok env" "length payload = 140" "length signature = 64"
    and "crypto_base64_encode (payload @ signature) n = Some t"
    and "\<forall>c \<in> set w. trimmed c" "\<forall>c \<in> set u. b64_skipped c"
  shows "parse_and_verify_license_key env (w @ ''FLUX-LIC-'' @ t @ u) =
    (if take 4 payload \<noteq> text_bytes ''FLIC'' then Inl (- 4)
     else if le_malloc env \<and> ed_accepts signature payload then Inr (payload_of payload) else Inl (- 5))"
proof -
  have "dropWhile trimmed (w @ ''FLUX-LIC-'' @ t @ u) = ''FLUX-LIC-'' @ t @ u"
    using assms(5) by (subst dropWhile_append2) (auto simp: trimmed_def)
  moreover have "crypto_base64_decode (t @ u) 512 = payload @ signature"
    using assms(2-4,6) by (intro crypto_base64_decode_key) auto
  ultimately show ?thesis
    using assms(1-3) by (simp add: parse_and_verify_license_key_def Let_def verify_accepts)
qed

lemma encode_zeros: "b64_encode_loop (replicate (3 * n) 0) = replicate (4 * n) (CHR ''A'')"
proof (induction n)
  case (Suc n)
  have "b64_char 0 = CHR ''A''" "b64_triple 0 0 0 = 0" by code_simp+
  moreover have "replicate (3 * Suc n) (0 :: u8) = 0 # 0 # 0 # replicate (3 * n) 0" by (simp add: eval_nat_numeral)
  moreover have "replicate (4 * Suc n) (CHR ''A'') = CHR ''A'' # CHR ''A'' # CHR ''A'' # CHR ''A'' # replicate (4 * n) (CHR ''A'')"
    by (simp add: eval_nat_numeral)
  ultimately show ?case using Suc by (simp add: Let_def)
qed simp

theorem licence_key_parsed_witness:
  "parse_and_verify_license_key (sample_lic_env 0) ('' '' @ ''FLUX-LIC-'' @ replicate 272 (CHR ''A'') @ [NL]) = Inl (- 4)"
proof -
  have l: "length (replicate 140 (0 :: u8)) = 140" "length (replicate 64 (0 :: u8)) = 64" by (simp_all only: length_replicate)
  have "replicate 140 0 @ replicate 64 (0 :: u8) = replicate (3 * 68) 0" by (simp only: replicate_add [symmetric]) simp
  then have e: "crypto_base64_encode (replicate 140 0 @ replicate 64 0) 300 = Some (replicate 272 (CHR ''A''))"
    using encode_zeros [of 68] by (simp only: crypto_base64_encode_def length_replicate) simp
  have w: "\<forall>c \<in> set '' ''. trimmed c" "\<forall>c \<in> set [NL]. b64_skipped c" by code_simp+
  have "take 4 (replicate 140 (0 :: u8)) = [0, 0, 0, 0]" by (simp add: take_replicate eval_nat_numeral)
  moreover have "[0, 0, 0, 0] \<noteq> text_bytes ''FLIC''" by code_simp
  ultimately show ?thesis using licence_key_parsed [OF sample_env_ok l e w, of 0] by (simp only: simp_thms if_True)
qed


end
