(* ===== verification/Pppoe_Server.thy ===== *)
theory Pppoe_Server
  imports C_Text
begin

text \<open>
  The broadband access server (\<open>src/pppoe_server.c\<close>): the tables of subscribers and of bandwidth
  profiles, the files it writes for \<open>pppd\<close> (secrets, options, RADIUS client, session hooks), the
  sessions it reads back from the files the hooks leave, and the tick that locks out subscribers
  whose time is over. What the server does to the system is appended to a history, as in
  \<open>Wan_State\<close>. The mutex is not modelled: the operations are taken one after another.
\<close>

section \<open>Definitions\<close>

subsection \<open>Data\<close>

abbreviation MAX_PPPOE_USERS :: nat where "MAX_PPPOE_USERS \<equiv> 4096"
abbreviation MAX_PPPOE_PROFILES :: nat where "MAX_PPPOE_PROFILES \<equiv> 64"
abbreviation MAX_PPPOE_SESSIONS :: nat where "MAX_PPPOE_SESSIONS \<equiv> 1024"

record pppoe_profile =
  pf_name :: string
  rate_down_kbps :: u32
  rate_up_kbps :: u32
  validity_days :: u32
  pf_description :: string

record pppoe_user =
  u_username :: string
  u_password :: string
  u_profile :: string
  u_static_ip :: string
  u_comment :: string
  u_created_at :: u64
  u_expires_at :: u64
  u_enabled :: bool

datatype radius_proto = RADIUS_PROTO_UDP | RADIUS_PROTO_RADSEC

record radius_config =
  rad_enabled :: bool
  rad_proto :: radius_proto
  rad_server :: string
  rad_secret :: string
  rad_auth_port :: u16
  rad_acct_port :: u16
  rad_coa_port :: u16
  rad_interim_interval :: u32
  rad_nas_identifier :: string
  rad_tls_verify_cert :: bool
  rad_ca_cert_path :: string
  rad_client_cert_path :: string
  rad_client_key_path :: string
  rad_sni_hostname :: string

record pppoe_server_config =
  bs_enabled :: bool
  bs_lan_mode :: string
  bs_interface :: string
  bs_service_name :: string
  bs_ac_name :: string
  bs_local_ip :: string
  bs_pool_start :: string
  bs_pool_end :: string
  bs_pool_count :: u32
  bs_dns1 :: string
  bs_dns2 :: string
  bs_mru :: u16
  bs_mss :: u16
  bs_radius :: radius_config
  bs_profiles :: "pppoe_profile list"
  bs_users :: "pppoe_user list"

record session_history =
  sh_ifname :: string
  sh_last_rx_bytes :: u64
  sh_last_tx_bytes :: u64
  sh_last_time_ms :: u64

record pppoe_active_session =
  as_ifname :: string
  as_username :: string
  as_ip :: string
  as_mac :: string
  as_connect_time :: u64
  as_uptime_sec :: u64
  as_rx_bytes :: u64
  as_tx_bytes :: u64
  as_rx_packets :: u64
  as_tx_packets :: u64
  as_rx_rate_kbps :: u32
  as_tx_rate_kbps :: u32
  as_profile :: string

text \<open>
  The context with the configuration it points to; \<open>sv_history\<close> is the used part of the array of
  past counters and \<open>sv_last_check_ms\<close> the static variable of the tick.
\<close>

record pppoe_server_ctx =
  sv_config :: pppoe_server_config
  sv_history :: "session_history list"
  sv_last_check_ms :: u64
  sv_hist :: history

text \<open>The system as the server sees it, with the names in \<open>/run/fluxwan/pppoe\<close> in directory order.\<close>

record bras_env = wan_env +
  env_session_dir :: "history \<Rightarrow> string list option"

abbreviation act :: "history \<Rightarrow> pppoe_server_ctx \<Rightarrow> pppoe_server_ctx" where
  "act g st \<equiv> st\<lparr>sv_hist := sv_hist st @ g\<rparr>"

abbreviation upd_users :: "(pppoe_user list \<Rightarrow> pppoe_user list) \<Rightarrow> pppoe_server_ctx \<Rightarrow> pppoe_server_ctx" where
  "upd_users f st \<equiv> st\<lparr>sv_config := (sv_config st)\<lparr>bs_users := f (bs_users (sv_config st))\<rparr>\<rparr>"

abbreviation upd_profiles :: "(pppoe_profile list \<Rightarrow> pppoe_profile list) \<Rightarrow> pppoe_server_ctx \<Rightarrow> pppoe_server_ctx" where
  "upd_profiles f st \<equiv> st\<lparr>sv_config := (sv_config st)\<lparr>bs_profiles := f (bs_profiles (sv_config st))\<rparr>\<rparr>"

abbreviation users :: "pppoe_server_ctx \<Rightarrow> pppoe_user list" where "users st \<equiv> bs_users (sv_config st)"
abbreviation profiles :: "pppoe_server_ctx \<Rightarrow> pppoe_profile list" where "profiles st \<equiv> bs_profiles (sv_config st)"

definition or_default :: "string \<Rightarrow> string \<Rightarrow> string" where
  "or_default t d = (if t = [] then d else t)"

subsection \<open>Start-up defaults\<close>

definition default_profiles :: "pppoe_profile list" where
  "default_profiles =
    [\<lparr>pf_name = ''Economy_10M'', rate_down_kbps = 10240, rate_up_kbps = 5120, validity_days = 30,
      pf_description = ''10 Mbps Down / 5 Mbps Up (30 Days)''\<rparr>,
     \<lparr>pf_name = ''Standard_25M'', rate_down_kbps = 25600, rate_up_kbps = 10240, validity_days = 30,
      pf_description = ''25 Mbps Down / 10 Mbps Up (30 Days)''\<rparr>,
     \<lparr>pf_name = ''Ultra_50M'', rate_down_kbps = 51200, rate_up_kbps = 20480, validity_days = 30,
      pf_description = ''50 Mbps Down / 20 Mbps Up (30 Days)''\<rparr>,
     \<lparr>pf_name = ''Unlimited'', rate_down_kbps = 0, rate_up_kbps = 0, validity_days = 0,
      pf_description = ''Max Line Speed (No Shaping / Unlimited)''\<rparr>]"

definition default_user :: "u64 \<Rightarrow> pppoe_user" where
  "default_user now = \<lparr>u_username = ''fluxwan'', u_password = ''123456'', u_profile = ''Standard_25M'',
     u_static_ip = [], u_comment = ''Default Broadband User'', u_created_at = now, u_expires_at = 0, u_enabled = True\<rparr>"

text \<open>
  The unused elements of the two arrays are zero, as \<open>config_load\<close> leaves them. The context is
  \<open>None\<close> when \<open>calloc\<close> fails.
\<close>

definition pppoe_server_init ::
  "bool \<Rightarrow> u64 \<Rightarrow> string \<Rightarrow> pppoe_server_config \<Rightarrow> history \<Rightarrow> pppoe_server_ctx option" where
  "pppoe_server_init alloc now lan_if c h =
     (if \<not> alloc then None
      else Some \<lparr>sv_config = c\<lparr>
        bs_interface := or_default (bs_interface c) (cstr_copy 32 (or_default lan_if ''eth0'')),
        bs_lan_mode := or_default (bs_lan_mode c) ''dual'',
        bs_service_name := or_default (bs_service_name c) ''FluxWAN-Broadband'',
        bs_ac_name := or_default (bs_ac_name c) ''FluxWAN-BRAS'',
        bs_local_ip := or_default (bs_local_ip c) ''10.100.0.1'',
        bs_pool_start := or_default (bs_pool_start c) ''10.100.0.2'',
        bs_pool_end := or_default (bs_pool_end c) ''10.100.0.254'',
        bs_pool_count := (if bs_pool_count c = 0 then 250 else bs_pool_count c),
        bs_dns1 := or_default (bs_dns1 c) ''1.1.1.1'',
        bs_dns2 := or_default (bs_dns2 c) ''8.8.8.8'',
        bs_mru := (if bs_mru c = 0 then 1492 else bs_mru c),
        bs_mss := (if bs_mss c = 0 then 1452 else bs_mss c),
        bs_profiles := (if bs_profiles c = [] then default_profiles else bs_profiles c),
        bs_users := (if bs_users c = [] then [default_user now] else bs_users c)\<rparr>,
      sv_history = [], sv_last_check_ms = 0, sv_hist = h\<rparr>)"

subsection \<open>Keyed tables\<close>

text \<open>
  The two arrays with their counters, searched by name: the search loop, replacing or appending
  an entry, and removing one by moving the rest down.
\<close>

fun find_idx :: "('a \<Rightarrow> string) \<Rightarrow> string \<Rightarrow> 'a list \<Rightarrow> nat option" where
  "find_idx key k [] = None"
| "find_idx key k (x # xs) = (if key x = k then Some 0 else map_option Suc (find_idx key k xs))"

definition table_find :: "('a \<Rightarrow> string) \<Rightarrow> string \<Rightarrow> 'a list \<Rightarrow> 'a option" where
  "table_find key k t = map_option (\<lambda>i. t ! i) (find_idx key k t)"

definition table_put :: "('a \<Rightarrow> string) \<Rightarrow> nat \<Rightarrow> 'a \<Rightarrow> 'a list \<Rightarrow> 'a list option" where
  "table_put key cap x t =
     (case find_idx key (key x) t of
        Some i \<Rightarrow> Some (t[i := x])
      | None \<Rightarrow> if length t < cap then Some (t @ [x]) else None)"

definition table_delete :: "('a \<Rightarrow> string) \<Rightarrow> string \<Rightarrow> 'a list \<Rightarrow> 'a list" where
  "table_delete key k t =
     (case find_idx key k t of Some i \<Rightarrow> take i t @ drop (Suc i) t | None \<Rightarrow> t)"

definition table_upd :: "('a \<Rightarrow> string) \<Rightarrow> string \<Rightarrow> ('a \<Rightarrow> 'a) \<Rightarrow> 'a list \<Rightarrow> 'a list" where
  "table_upd key k f t = (case find_idx key k t of Some i \<Rightarrow> t[i := f (t ! i)] | None \<Rightarrow> t)"

subsection \<open>The files of the daemon\<close>

definition ppp_options :: "pppoe_server_config \<Rightarrow> string list" where
  "ppp_options c =
     [''# FluxWAN Broadband Remote Access Server Options'', ''# Generated dynamically by FluxWAN Core'', [],
      ''auth'', ''+chap'', ''+pap'', ''lcp-echo-interval 10'', ''lcp-echo-failure 3'',
      ''ms-dns '' @ or_default (bs_dns1 c) ''1.1.1.1'', ''ms-dns '' @ or_default (bs_dns2 c) ''8.8.8.8'',
      ''default-asyncmap'', ''nopcomp'', ''noaccomp'', ''nodeflate'', ''novj'', ''nobsdcomp'', ''ktune'',
      ''mru '' @ dec_string (if bs_mru c > 0 then unat (bs_mru c) else 1492),
      ''mtu '' @ dec_string (if bs_mru c > 0 then unat (bs_mru c) else 1492)] @
     (if rad_enabled (bs_radius c)
      then [[], ''# RADIUS / RadSec AAA Integration'', ''plugin radius.so'', ''plugin radattr.so'',
            ''radius-config-file /etc/ppp/radius/radius.conf'']
      else [])"

definition write_pppoe_server_options :: "bras_env \<Rightarrow> pppoe_server_config \<Rightarrow> history \<Rightarrow> int \<times> history" where
  "write_pppoe_server_options env c h =
     (if \<not> env_can_write env h ''/etc/ppp/pppoe-server-options'' then (- 1, h)
      else (0, h @ [WRITE_FILE ''/etc/ppp/pppoe-server-options'' (text_lines (ppp_options c))]))"

text \<open>A line of fields separated by tabs.\<close>

fun tabbed :: "string list \<Rightarrow> string" where
  "tabbed [] = []"
| "tabbed [f] = f"
| "tabbed (f # fs) = f @ TAB # tabbed fs"

abbreviation radius_attribute :: "string \<times> string \<times> string \<Rightarrow> string" where
  "radius_attribute \<equiv> (\<lambda>(name, code, typ). tabbed [''ATTRIBUTE'', name, code, typ])"

definition radius_dictionary :: "string list" where
  "radius_dictionary =
     [''# FluxWAN Carrier RADIUS / RadSec Dictionary''] @
     map radius_attribute
      [(''User-Name'', ''1'', ''string''), (''User-Password'', ''2'', ''string''),
       (''CHAP-Password'', ''3'', ''string''), (''NAS-IP-Address'', ''4'', ''ipaddr''),
       (''NAS-Port'', ''5'', ''integer''), (''Service-Type'', ''6'', ''integer''),
       (''Framed-Protocol'', ''7'', ''integer''), (''Framed-IP-Address'', ''8'', ''ipaddr''),
       (''Framed-IP-Netmask'', ''9'', ''ipaddr''), (''Filter-Id'', ''11'', ''string''),
       (''Framed-MTU'', ''12'', ''integer''), (''Reply-Message'', ''18'', ''string''),
       (''Session-Timeout'', ''27'', ''integer''), (''Idle-Timeout'', ''28'', ''integer''),
       (''Called-Station-Id'', ''30'', ''string''), (''Calling-Station-Id'', ''31'', ''string''),
       (''NAS-Identifier'', ''32'', ''string''), (''Acct-Status-Type'', ''40'', ''integer''),
       (''Acct-Delay-Time'', ''41'', ''integer''), (''Acct-Input-Octets'', ''42'', ''integer''),
       (''Acct-Output-Octets'', ''43'', ''integer''), (''Acct-Session-Id'', ''44'', ''string''),
       (''Acct-Authentic'', ''45'', ''integer''), (''Acct-Session-Time'', ''46'', ''integer''),
       (''Acct-Input-Packets'', ''47'', ''integer''), (''Acct-Output-Packets'', ''48'', ''integer''),
       (''Acct-Terminate-Cause'', ''49'', ''integer''), (''Acct-Interim-Interval'', ''85'', ''integer''),
       (''NAS-Port-Type'', ''61'', ''integer'')] @
     [[], tabbed [''VALUE'', ''Service-Type'', ''Framed-User'', ''2''],
      tabbed [''VALUE'', ''Framed-Protocol'', ''PPP'', ''1''], [],
      ''# MikroTik Vendor Dictionary (VSA 14988)'', tabbed [''VENDOR'', ''MikroTik'', ''14988'']] @
     map (\<lambda>a. radius_attribute a @ TAB # ''MikroTik'')
      [(''Mikrotik-Recv-Limit'', ''1'', ''integer''), (''Mikrotik-Xmit-Limit'', ''2'', ''integer''),
       (''Mikrotik-Group'', ''3'', ''string''), (''Mikrotik-Wireless-Forward'', ''4'', ''integer''),
       (''Mikrotik-Rate-Limit'', ''8'', ''string''), (''Mikrotik-Realm'', ''9'', ''string''),
       (''Mikrotik-Host-IP'', ''10'', ''ipaddr'')]"

definition radius_servers :: "radius_config \<Rightarrow> string list" where
  "radius_servers r =
     (let sec = or_default (rad_secret r) (if rad_proto r = RADIUS_PROTO_RADSEC then ''radsec'' else ''testing123'')
      in [''# Server Secret'', rad_server r @ '' '' @ sec, ''127.0.0.1 '' @ sec, ''localhost '' @ sec])"

definition radius_conf :: "radius_config \<Rightarrow> string list" where
  "radius_conf r =
     (let radsec = (rad_proto r = RADIUS_PROTO_RADSEC);
          auth_p = (if rad_auth_port r > 0 then rad_auth_port r else if radsec then 2083 else 1812);
          acct_p = (if rad_acct_port r > 0 then rad_acct_port r else if radsec then 2083 else 1813)
      in [''# FluxWAN RADIUS Client Configuration''] @
         (if radsec then [''authserver 127.0.0.1:11812'', ''acctserver 127.0.0.1:11813'']
          else [''authserver '' @ rad_server r @ '':'' @ dec_string (unat auth_p),
                ''acctserver '' @ rad_server r @ '':'' @ dec_string (unat acct_p)]) @
         [''servers /etc/ppp/radius/servers'', ''dictionary /etc/ppp/radius/dictionary'', ''default_realm'',
          ''radius_timeout '' @ (if radsec then ''10'' else ''5''), ''radius_retries 3'',
          ''nas_identifier '' @ or_default (rad_nas_identifier r) ''FluxWAN-BRAS-01''])"

definition radsec_option :: "string \<Rightarrow> string \<Rightarrow> string \<Rightarrow> string list" where
  \<open>radsec_option var flag path =
     (var @ ''=""'') # (if path = [] then [] else [''[ -f "'' @ path @ ''" ] && '' @ var @ ''="'' @ flag @ '' '' @ path @ ''"''])\<close>

definition radsec_bridge :: "radius_config \<Rightarrow> string list" where
  \<open>radsec_bridge r =
     [''#!/bin/sh'', ''# FluxWAN Automated RadSec RFC 6614 TLS Relay Bridge'',
      ''SERVER="'' @ rad_server r @ ''"'',
      ''PORT="'' @ dec_string (if rad_auth_port r > 0 then unat (rad_auth_port r) else 2083) @ ''"'',
      ''SNI="'' @ or_default (rad_sni_hostname r) (rad_server r) @ ''"''] @
     radsec_option ''CA_OPT'' ''-CAfile'' (rad_ca_cert_path r) @
     radsec_option ''CERT_OPT'' ''-cert'' (rad_client_cert_path r) @
     radsec_option ''KEY_OPT'' ''-key'' (rad_client_key_path r) @
     [''if which radsecproxy >/dev/null 2>&1; then'',
      ''  cat << 'RSEOF' > /etc/radsecproxy.conf'',
      ''ListenUDP 127.0.0.1:11812'', ''ListenUDP 127.0.0.1:11813'', ''Server upstream_radsec {'', ''  type TLS'',
      ''  host $SERVER:$PORT'',
      ''  secret "'' @ or_default (rad_secret r) ''radsec'' @ ''"'', ''}'', ''RSEOF'',
      ''  exec radsecproxy -c /etc/radsecproxy.conf -f'',
      ''elif which socat >/dev/null 2>&1; then'',
      ''  exec socat UDP-LISTEN:11812,fork,reuseaddr OPENSSL:$SERVER:$PORT,servername=$SNI $CA_OPT $CERT_OPT $KEY_OPT'',
      ''fi'']\<close>

definition write_lines :: "bras_env \<Rightarrow> string \<Rightarrow> string list \<Rightarrow> history \<Rightarrow> history \<Rightarrow> history" where
  "write_lines env path ls after h =
     (if env_can_write env h path then h @ WRITE_FILE path (text_lines ls) # after else h)"

definition setup_radius_config :: "bras_env \<Rightarrow> pppoe_server_config \<Rightarrow> history \<Rightarrow> history" where
  "setup_radius_config env c h =
     (let r = bs_radius c
      in if \<not> rad_enabled r \<or> rad_server r = [] then h
         else let h = h @ [SYSTEM ''mkdir -p /etc/ppp/radius /run/fluxwan/radius 2>/dev/null || true''];
                  h = write_lines env ''/etc/ppp/radius/dictionary'' radius_dictionary [] h;
                  h = write_lines env ''/etc/ppp/radius/servers'' (radius_servers r)
                        [SYSTEM ''chmod 600 /etc/ppp/radius/servers 2>/dev/null || true''] h;
                  h = write_lines env ''/etc/ppp/radius/radius.conf'' (radius_conf r) [] h
              in if rad_proto r \<noteq> RADIUS_PROTO_RADSEC then h
                 else write_lines env ''/usr/local/bin/fluxwan-radsec-bridge'' (radsec_bridge r)
                   [SYSTEM ''chmod +x /usr/local/bin/fluxwan-radsec-bridge 2>/dev/null || true'',
                    SYSTEM ''nohup /usr/local/bin/fluxwan-radsec-bridge >/tmp/radsec_bridge.log 2>&1 &'']
                   (h @ [SYSTEM ''pkill -f 'fluxwan-radsec-bridge' 2>/dev/null || true'',
                         SYSTEM ''pkill -f 'radsecproxy' 2>/dev/null || true'']))"

definition subscriber_active :: "u64 \<Rightarrow> pppoe_user \<Rightarrow> bool" where
  "subscriber_active now u \<longleftrightarrow>
     \<not> (\<not> u_enabled u \<or> u_username u = []) \<and> \<not> (u_expires_at u > 0 \<and> now \<ge> u_expires_at u)"

definition secret_line :: "pppoe_user \<Rightarrow> string" where
  \<open>secret_line u = ''"'' @ u_username u @ ''" * "'' @ u_password u @ ''" '' @ or_default (u_static_ip u) ''*''\<close>

definition secrets_text :: "u64 \<Rightarrow> pppoe_user list \<Rightarrow> string" where
  "secrets_text now us = text_lines
     ([''# FluxWAN Broadband Accounts Secrets'', ''# Secrets for authentication using CHAP / PAP'',
       ''# client server secret IP_addresses''] @
      map secret_line (filter (subscriber_active now) us))"

abbreviation chap_secrets :: string where "chap_secrets \<equiv> ''/etc/ppp/chap-secrets''"
abbreviation pap_secrets :: string where "pap_secrets \<equiv> ''/etc/ppp/pap-secrets''"

definition write_pppoe_secrets :: "bras_env \<Rightarrow> pppoe_server_config \<Rightarrow> history \<Rightarrow> int \<times> history" where
  "write_pppoe_secrets env c h =
     (let f_chap = env_can_write env h chap_secrets; f_pap = env_can_write env h pap_secrets;
          t = secrets_text (env_time env h) (bs_users c)
      in if \<not> f_chap \<and> \<not> f_pap then (- 1, h)
         else (0, h @ (if f_chap then [WRITE_FILE chap_secrets t] else []) @
                      (if f_pap then [WRITE_FILE pap_secrets t] else [])))"

abbreviation save_secrets :: "bras_env \<Rightarrow> pppoe_server_ctx \<Rightarrow> pppoe_server_ctx" where
  "save_secrets env st \<equiv> st\<lparr>sv_hist := snd (write_pppoe_secrets env (sv_config st) (sv_hist st))\<rparr>"

definition shaping_lines :: "pppoe_profile \<Rightarrow> string list" where
  \<open>shaping_lines p =
     (if rate_down_kbps p > 0
      then [''if [ "$PROFILE" = "'' @ pf_name p @ ''" ]; then'',
            ''  tc qdisc add dev "$1" root tbf rate '' @ fmt_u (rate_down_kbps p) @
              ''kbit burst 32kbit latency 50ms 2>/dev/null || true'',
            ''fi'']
      else [])\<close>

definition ip_up_script :: "pppoe_profile list \<Rightarrow> string list" where
  \<open>ip_up_script ps =
     [''#!/bin/sh'', ''# FluxWAN Broadband Dynamic Session Hook'', ''mkdir -p /run/fluxwan/pppoe'',
      ''SESSION_FILE="/run/fluxwan/pppoe/$1.session"'',
      ''cat << 'EOF' > "$SESSION_FILE"'',
      ''IFNAME=$1'', ''TTY=$2'', ''SPEED=$3'', ''LOCAL_IP=$4'', ''REMOTE_IP=$5'', ''IPPARAM=$6'',
      ''USERNAME=${PEERNAME:-$USER}'', ''CONNECT_TIME=$(date +%s)'', ''MAC=${MACREMOTE:-unknown}'',
      ''EOF''] @
     concat (map shaping_lines ps) @
     [''# Dynamic RADIUS / RadSec Rate Limiting'', ''RADATTR="/var/run/radattr.$1"'',
      ''if [ -f "$RADATTR" ]; then'',
      ''  MK_RATE=$(grep -i 'Mikrotik-Rate-Limit' "$RADATTR" | awk '{print $2}' | tr -d '"' | cut -d'/' -f1)'',
      ''  if [ -n "$MK_RATE" ]; then'',
      ''    case "$MK_RATE" in'',
      ''      *M|*m) RATE_KB=$((${MK_RATE%[Mm]} * 1024)) ;;'',
      ''      *k|*K) RATE_KB=${MK_RATE%[Kk]} ;;'',
      ''      *[0-9]) RATE_KB=$((MK_RATE / 1000)) ;;'',
      ''    esac'',
      ''    if [ "$RATE_KB" -gt 0 ] 2>/dev/null; then'',
      ''      tc qdisc del dev "$1" root 2>/dev/null || true'',
      ''      tc qdisc add dev "$1" root tbf rate "${RATE_KB}kbit" burst 64kbit latency 50ms 2>/dev/null || true'',
      ''    fi'', ''  fi'', ''fi'']\<close>

definition ip_down_script :: "string list" where
  \<open>ip_down_script =
     [''#!/bin/sh'', ''# FluxWAN Broadband Session Teardown Hook'',
      ''rm -f "/run/fluxwan/pppoe/$1.session" "/var/run/radattr.$1" 2>/dev/null || true'']\<close>

definition setup_pppoe_scripts :: "bras_env \<Rightarrow> pppoe_server_config \<Rightarrow> history \<Rightarrow> history" where
  "setup_pppoe_scripts env c h =
     (let h = h @ [SYSTEM ''mkdir -p /run/fluxwan/pppoe /etc/ppp 2>/dev/null || true''];
          h = write_lines env ''/etc/ppp/ip-up'' (ip_up_script (bs_profiles c))
                [SYSTEM ''chmod +x /etc/ppp/ip-up 2>/dev/null || true''] h
      in write_lines env ''/etc/ppp/ip-down'' ip_down_script
           [SYSTEM ''chmod +x /etc/ppp/ip-down 2>/dev/null || true''] h)"

subsection \<open>Starting and stopping\<close>

definition write_server_files :: "bras_env \<Rightarrow> pppoe_server_config \<Rightarrow> history \<Rightarrow> history" where
  "write_server_files env c h =
     (let h = setup_radius_config env c h;
          h = snd (write_pppoe_server_options env c h);
          h = snd (write_pppoe_secrets env c h)
      in setup_pppoe_scripts env c h)"

definition server_command :: "pppoe_server_config \<Rightarrow> string" where
  \<open>server_command c = cstr_copy 1024
     (''/usr/sbin/pppoe-server -I '' @ or_default (bs_interface c) ''eth0'' @
      '' -L '' @ or_default (bs_local_ip c) ''10.100.0.1'' @
      '' -R '' @ or_default (bs_pool_start c) ''10.100.0.2'' @
      '' -N '' @ (if bs_pool_count c > 0 then fmt_u (bs_pool_count c) else ''250'') @
      '' -k -C "'' @ or_default (bs_ac_name c) ''FluxWAN-BRAS'' @
      ''" -S "'' @ or_default (bs_service_name c) ''FluxWAN-Broadband'' @
      ''" -O /etc/ppp/pppoe-server-options'')\<close>

definition pppoe_server_start :: "bras_env \<Rightarrow> pppoe_server_ctx \<Rightarrow> pppoe_server_ctx" where
  "pppoe_server_start env st =
     (let c = sv_config st
      in if \<not> bs_enabled c then st
         else st\<lparr>sv_hist :=
           write_server_files env c (sv_hist st @
             [SYSTEM ''modprobe pppoe 2>/dev/null || true'', SYSTEM ''modprobe pppox 2>/dev/null || true'',
              SYSTEM ''modprobe ppp_generic 2>/dev/null || true'']) @
           [SYSTEM ''iptables -A FORWARD -i ppp+ -j ACCEPT 2>/dev/null || true'',
            SYSTEM ''iptables -A FORWARD -o ppp+ -j ACCEPT 2>/dev/null || true'',
            SYSTEM ''iptables -t mangle -A FORWARD -p tcp --tcp-flags SYN,RST SYN -o ppp+ -j TCPMSS --set-mss 1452 2>/dev/null || true'',
            SYSTEM ''killall pppoe-server 2>/dev/null || true'',
            SYSTEM (server_command c)]\<rparr>)"

definition pppoe_server_stop :: "pppoe_server_ctx \<Rightarrow> pppoe_server_ctx" where
  \<open>pppoe_server_stop st = act
     [SYSTEM ''killall -TERM pppoe-server 2>/dev/null || true'',
      SYSTEM ''pkill -TERM -f "pppd.*pppoe-server-options" 2>/dev/null || true'',
      SYSTEM ''pkill -f 'fluxwan-radsec-bridge' 2>/dev/null || true'',
      SYSTEM ''pkill -f 'radsecproxy' 2>/dev/null || true'',
      SYSTEM ''rm -rf /run/fluxwan/pppoe/* 2>/dev/null || true''] st\<close>

definition pppoe_server_close :: "pppoe_server_ctx \<Rightarrow> history" where
  "pppoe_server_close st = sv_hist (pppoe_server_stop st)"

definition pppoe_server_is_running :: "bras_env \<Rightarrow> history \<Rightarrow> bool" where
  "pppoe_server_is_running env h =
     (case env_popen_line env h ''pgrep pppoe-server 2>/dev/null'' of
        None \<Rightarrow> False
      | Some out \<Rightarrow> let buf = cstr (fgets_line 31 out) in fgets_line 31 out \<noteq> [] \<and> sint (atoi buf) > 0)"

definition pppoe_server_reload :: "bras_env \<Rightarrow> pppoe_server_ctx \<Rightarrow> pppoe_server_ctx" where
  "pppoe_server_reload env st =
     (let c = sv_config st; st = st\<lparr>sv_hist := write_server_files env c (sv_hist st)\<rparr>
      in if bs_enabled c \<and> \<not> pppoe_server_is_running env (sv_hist st) then pppoe_server_start env st
         else if \<not> bs_enabled c \<and> pppoe_server_is_running env (sv_hist st) then pppoe_server_stop st
         else st)"

subsection \<open>Sessions\<close>

definition zero_session :: pppoe_active_session where
  "zero_session = \<lparr>as_ifname = [], as_username = [], as_ip = [], as_mac = [], as_connect_time = 0, as_uptime_sec = 0,
     as_rx_bytes = 0, as_tx_bytes = 0, as_rx_packets = 0, as_tx_packets = 0, as_rx_rate_kbps = 0, as_tx_rate_kbps = 0,
     as_profile = []\<rparr>"

definition session_line :: "pppoe_active_session \<Rightarrow> string \<Rightarrow> pppoe_active_session" where
  "session_line s line =
     (if CHR ''='' \<notin> set line then s
      else let key = takeWhile (\<lambda>c. c \<noteq> CHR ''='') line;
               val = rev (dropWhile (\<lambda>c. c = CR \<or> c = NL) (rev (drop (Suc (length key)) line)))
           in if key = ''IFNAME'' then s\<lparr>as_ifname := cstr_copy 32 val\<rparr>
              else if key = ''REMOTE_IP'' then s\<lparr>as_ip := cstr_copy 32 val\<rparr>
              else if key = ''USERNAME'' then s\<lparr>as_username := cstr_copy 64 val\<rparr>
              else if key = ''MAC'' then s\<lparr>as_mac := cstr_copy 32 val\<rparr>
              else if key = ''CONNECT_TIME'' then s\<lparr>as_connect_time := of_int (strtol val)\<rparr>
              else s)"

definition read_session :: "string \<Rightarrow> pppoe_active_session" where
  "read_session t = foldl session_line zero_session (map cstr (fgets_lines 255 t))"

definition read_sys_u64 :: "bras_env \<Rightarrow> history \<Rightarrow> string \<Rightarrow> u64" where
  "read_sys_u64 env h path =
     (case env_file env h path of None \<Rightarrow> 0 | Some t \<Rightarrow> (case scan_llu t of None \<Rightarrow> 0 | Some val \<Rightarrow> val))"

abbreviation stat_path :: "string \<Rightarrow> string \<Rightarrow> string" where
  "stat_path ifname counter \<equiv> cstr_copy 512 (''/sys/class/net/'' @ ifname @ ''/statistics/'' @ counter)"

definition session_stats ::
  "bras_env \<Rightarrow> history \<Rightarrow> pppoe_user list \<Rightarrow> u64 \<Rightarrow> pppoe_active_session \<Rightarrow> pppoe_active_session" where
  "session_stats env h us now_sec s =
     (let counter = (\<lambda>c. read_sys_u64 env h (stat_path (as_ifname s) c));
          profile = (case table_find u_username (as_username s) us of None \<Rightarrow> [] | Some u \<Rightarrow> cstr_copy 64 (u_profile u))
      in s\<lparr>as_rx_bytes := counter ''rx_bytes'', as_tx_bytes := counter ''tx_bytes'',
           as_rx_packets := counter ''rx_packets'', as_tx_packets := counter ''tx_packets'',
           as_uptime_sec := (if as_connect_time s > 0 \<and> now_sec \<ge> as_connect_time s then now_sec - as_connect_time s else 0),
           as_profile := or_default profile ''Standard_25M''\<rparr>)"

abbreviation rate_kbps :: "u64 \<Rightarrow> u64 \<Rightarrow> u64 \<Rightarrow> u32" where
  "rate_kbps bytes prev dt \<equiv> ucast (((if bytes \<ge> prev then bytes - prev else 0) * 8) div dt)"

fun session_rates ::
  "u64 \<Rightarrow> pppoe_active_session \<Rightarrow> session_history list \<Rightarrow> pppoe_active_session \<times> session_history list" where
  "session_rates now_ms s [] = (s, [])"
| "session_rates now_ms s (h # hs) =
     (if sh_ifname h = as_ifname s
      then let dt = now_ms - sh_last_time_ms h
           in (if dt > 200 \<and> dt < 10000
               then s\<lparr>as_rx_rate_kbps := rate_kbps (as_rx_bytes s) (sh_last_rx_bytes h) dt,
                      as_tx_rate_kbps := rate_kbps (as_tx_bytes s) (sh_last_tx_bytes h) dt\<rparr>
               else s,
               h\<lparr>sh_last_rx_bytes := as_rx_bytes s, sh_last_tx_bytes := as_tx_bytes s, sh_last_time_ms := now_ms\<rparr> # hs)
      else case session_rates now_ms s hs of (s', hs') \<Rightarrow> (s', h # hs'))"

definition session_path :: "string \<Rightarrow> string" where
  "session_path name = cstr_copy 512 (''/run/fluxwan/pppoe/'' @ name)"

fun scan_sessions ::
  "bras_env \<Rightarrow> history \<Rightarrow> pppoe_user list \<Rightarrow> nat \<Rightarrow> string list \<Rightarrow> session_history list \<Rightarrow>
     pppoe_active_session list \<times> session_history list" where
  "scan_sessions env h us room [] hs = ([], hs)"
| "scan_sessions env h us room (name # names) hs =
     (if room = 0 then ([], hs)
      else if strstr name ''.session'' = None then scan_sessions env h us room names hs
      else case env_file env h (session_path name) of
        None \<Rightarrow> scan_sessions env h us room names hs
      | Some t \<Rightarrow>
          if as_ifname (read_session t) = [] then scan_sessions env h us room names hs
          else case session_rates (env_now_ms env h) (session_stats env h us (env_time env h) (read_session t)) hs of (s, hs') \<Rightarrow>
            (case scan_sessions env h us (room - 1) names hs' of (ss, hs'') \<Rightarrow> (s # ss, hs'')))"

definition pppoe_server_get_sessions ::
  "bras_env \<Rightarrow> nat \<Rightarrow> pppoe_server_ctx \<Rightarrow> int \<times> pppoe_active_session list \<times> pppoe_server_ctx" where
  "pppoe_server_get_sessions env max_sessions st =
     (if max_sessions = 0 then (- 1, [], st)
      else case env_session_dir env (sv_hist st) of
        None \<Rightarrow> (0, [], st)
      | Some names \<Rightarrow>
          (case scan_sessions env (sv_hist st) (users st) max_sessions names (sv_history st) of
             (ss, hs) \<Rightarrow> (0, ss, st\<lparr>sv_history := hs\<rparr>)))"

definition disconnect_commands :: "string \<Rightarrow> history" where
  \<open>disconnect_commands ifname =
     [SYSTEM (cstr_copy 256 (''pkill -f "pppd.*'' @ ifname @ ''" 2>/dev/null || ip link set dev '' @ ifname @
        '' down 2>/dev/null || true'')),
      SYSTEM (cstr_copy 256 (''rm -f /run/fluxwan/pppoe/'' @ ifname @ ''.session 2>/dev/null || true''))]\<close>

definition pppoe_server_disconnect_session :: "string \<Rightarrow> pppoe_server_ctx \<Rightarrow> int \<times> pppoe_server_ctx" where
  "pppoe_server_disconnect_session ifname st =
     (if ifname = [] then (- 1, st) else (0, act (disconnect_commands ifname) st))"

definition disconnect_where ::
  "(pppoe_active_session \<Rightarrow> bool) \<Rightarrow> bras_env \<Rightarrow> pppoe_server_ctx \<Rightarrow> pppoe_server_ctx" where
  "disconnect_where pick env st =
     (case pppoe_server_get_sessions env MAX_PPPOE_SESSIONS st of (_, ss, st) \<Rightarrow>
        foldl (\<lambda>st s. if pick s then snd (pppoe_server_disconnect_session (as_ifname s) st) else st) st ss)"

subsection \<open>Subscribers\<close>

definition user_expiry :: "u64 \<Rightarrow> pppoe_profile list \<Rightarrow> pppoe_user \<Rightarrow> pppoe_user" where
  "user_expiry now ps u =
     (if u_expires_at u = 0 \<and> u_profile u \<noteq> []
      then case table_find pf_name (u_profile u) ps of
             None \<Rightarrow> u
           | Some p \<Rightarrow> if validity_days p > 0 then u\<lparr>u_expires_at := now + ucast (validity_days p) * 86400\<rparr> else u
      else u)"

definition pppoe_server_set_user :: "bras_env \<Rightarrow> pppoe_user \<Rightarrow> pppoe_server_ctx \<Rightarrow> int \<times> pppoe_server_ctx" where
  "pppoe_server_set_user env user st =
     (if u_username user = [] then (- 1, st)
      else let now = env_time env (sv_hist st);
               u = (if u_created_at user = 0 then user\<lparr>u_created_at := now\<rparr> else user);
               u = user_expiry now (profiles st) u;
               changed = (case table_find u_username (u_username user) (users st) of
                            None \<Rightarrow> False
                          | Some old \<Rightarrow> u_password old \<noteq> u_password u \<or> u_profile old \<noteq> u_profile u \<or>
                                        u_enabled old \<noteq> u_enabled u)
           in case table_put u_username MAX_PPPOE_USERS u (users st) of
                None \<Rightarrow> (- 1, st)
              | Some us \<Rightarrow>
                  let st = save_secrets env (upd_users (\<lambda>_. us) st)
                  in (0, if changed then disconnect_where (\<lambda>s. as_username s = u_username u) env st else st))"

definition pppoe_server_delete_user :: "bras_env \<Rightarrow> string \<Rightarrow> pppoe_server_ctx \<Rightarrow> int \<times> pppoe_server_ctx" where
  "pppoe_server_delete_user env username st =
     (if username = [] then (- 1, st)
      else (0, if find_idx u_username username (users st) = None then st
               else save_secrets env (upd_users (table_delete u_username username) st)))"

definition renewal_days :: "pppoe_profile list \<Rightarrow> string \<Rightarrow> u32 \<Rightarrow> u32" where
  "renewal_days ps profile days =
     (if days \<noteq> 0 then days
      else let d = (case table_find pf_name profile ps of None \<Rightarrow> 0 | Some p \<Rightarrow> validity_days p)
           in if d = 0 then 30 else d)"

definition renewed_user :: "u64 \<Rightarrow> pppoe_profile list \<Rightarrow> u32 \<Rightarrow> string \<Rightarrow> pppoe_user \<Rightarrow> pppoe_user" where
  "renewed_user now ps days new_profile u =
     (let u = (if new_profile \<noteq> [] \<and> u_profile u \<noteq> new_profile then u\<lparr>u_profile := cstr_copy 64 new_profile\<rparr> else u);
          add_sec = ucast (renewal_days ps (u_profile u) days) * 86400
      in u\<lparr>u_expires_at := (if u_expires_at u = 0 \<or> now \<ge> u_expires_at u then now + add_sec else u_expires_at u + add_sec),
           u_enabled := True\<rparr>)"

definition pppoe_server_renew_user ::
  "bras_env \<Rightarrow> string \<Rightarrow> u32 \<Rightarrow> string \<Rightarrow> pppoe_server_ctx \<Rightarrow> int \<times> pppoe_server_ctx" where
  "pppoe_server_renew_user env username additional_days new_profile st =
     (if username = [] then (- 1, st)
      else case table_find u_username username (users st) of
        None \<Rightarrow> (- 1, st)
      | Some old \<Rightarrow>
          let now = env_time env (sv_hist st);
              profile_changed = (new_profile \<noteq> [] \<and> u_profile old \<noteq> new_profile);
              st = save_secrets env (upd_users (table_upd u_username username
                     (renewed_user now (profiles st) additional_days new_profile)) st)
          in (0, if profile_changed then disconnect_where (\<lambda>s. as_username s = username) env st else st))"

definition pppoe_server_toggle_user :: "bras_env \<Rightarrow> string \<Rightarrow> bool \<Rightarrow> pppoe_server_ctx \<Rightarrow> int \<times> pppoe_server_ctx" where
  "pppoe_server_toggle_user env username enable st =
     (if username = [] then (- 1, st)
      else case find_idx u_username username (users st) of
        None \<Rightarrow> (- 1, st)
      | Some _ \<Rightarrow>
          let st = save_secrets env (upd_users (table_upd u_username username (\<lambda>u. u\<lparr>u_enabled := enable\<rparr>)) st)
          in (0, if \<not> enable then disconnect_where (\<lambda>s. as_username s = username) env st else st))"

subsection \<open>The tick\<close>

definition user_lapsed :: "u64 \<Rightarrow> pppoe_user \<Rightarrow> bool" where
  "user_lapsed now u \<longleftrightarrow> u_expires_at u > 0 \<and> now \<ge> u_expires_at u"

definition session_barred :: "u64 \<Rightarrow> pppoe_user list \<Rightarrow> pppoe_active_session \<Rightarrow> bool" where
  "session_barred now us s =
     (case table_find u_username (as_username s) us of
        None \<Rightarrow> False
      | Some u \<Rightarrow> \<not> u_enabled u \<or> user_lapsed now u)"

definition pppoe_server_periodic_tick :: "bras_env \<Rightarrow> u64 \<Rightarrow> pppoe_server_ctx \<Rightarrow> pppoe_server_ctx" where
  "pppoe_server_periodic_tick env now_ms st =
     (if \<not> bs_enabled (sv_config st) \<or> now_ms - sv_last_check_ms st < 5000 then st
      else let now_sec = env_time env (sv_hist st);
               st = st\<lparr>sv_last_check_ms := now_ms\<rparr>;
               st = (if \<exists>u \<in> set (users st). u_enabled u \<and> user_lapsed now_sec u then save_secrets env st else st)
           in disconnect_where (session_barred now_sec (users st)) env st)"

subsection \<open>Profiles\<close>

definition pppoe_server_set_profile :: "pppoe_profile \<Rightarrow> pppoe_server_ctx \<Rightarrow> int \<times> pppoe_server_ctx" where
  "pppoe_server_set_profile profile st =
     (if pf_name profile = [] then (- 1, st)
      else case table_put pf_name MAX_PPPOE_PROFILES profile (profiles st) of
        None \<Rightarrow> (- 1, st)
      | Some ps \<Rightarrow> (0, upd_profiles (\<lambda>_. ps) st))"

definition pppoe_server_delete_profile :: "string \<Rightarrow> pppoe_server_ctx \<Rightarrow> int \<times> pppoe_server_ctx" where
  "pppoe_server_delete_profile name st =
     (if name = [] then (- 1, st) else (0, upd_profiles (table_delete pf_name name) st))"

definition pppoe_server_rename_profile :: "string \<Rightarrow> string \<Rightarrow> pppoe_server_ctx \<Rightarrow> int \<times> pppoe_server_ctx" where
  "pppoe_server_rename_profile old_name new_name st =
     (if old_name = [] \<or> new_name = [] then (- 1, st)
      else (0, upd_users (map (\<lambda>u. if u_profile u = old_name then u\<lparr>u_profile := cstr_copy 64 new_name\<rparr> else u))
                 (upd_profiles (table_upd pf_name old_name (\<lambda>p. p\<lparr>pf_name := cstr_copy 64 new_name\<rparr>)) st)))"

subsection \<open>Import and export\<close>

definition put_or_keep :: "('a \<Rightarrow> string) \<Rightarrow> nat \<Rightarrow> 'a list \<Rightarrow> 'a \<Rightarrow> 'a list" where
  "put_or_keep key cap t x = (case table_put key cap x t of None \<Rightarrow> t | Some t' \<Rightarrow> t')"

definition import_profiles :: "pppoe_profile list \<Rightarrow> pppoe_profile list \<Rightarrow> pppoe_profile list" where
  "import_profiles new ps =
     foldl (\<lambda>ps p. if pf_name p = [] then ps else put_or_keep pf_name MAX_PPPOE_PROFILES ps p) ps new"

abbreviation auto_profile :: "string \<Rightarrow> pppoe_profile" where
  "auto_profile name \<equiv> \<lparr>pf_name = cstr_copy 64 name, rate_down_kbps = 10240, rate_up_kbps = 5120, validity_days = 30,
     pf_description = ''Auto-created on import''\<rparr>"

definition import_plan :: "u64 \<Rightarrow> pppoe_profile list \<Rightarrow> pppoe_user \<Rightarrow> pppoe_profile list \<times> pppoe_user" where
  "import_plan now ps nu =
     (let u = (if u_created_at nu = 0 then nu\<lparr>u_created_at := now\<rparr> else nu)
      in if u_profile u = [] then (ps, u)
         else if find_idx pf_name (u_profile u) ps \<noteq> None then (ps, user_expiry now ps u)
         else if length ps < MAX_PPPOE_PROFILES
         then (ps @ [auto_profile (u_profile u)],
               if u_expires_at u = 0 then u\<lparr>u_expires_at := now + 30 * 86400\<rparr> else u)
         else (ps, u))"

definition import_user ::
  "u64 \<Rightarrow> pppoe_profile list \<times> pppoe_user list \<Rightarrow> pppoe_user \<Rightarrow> pppoe_profile list \<times> pppoe_user list" where
  "import_user now = (\<lambda>(ps, us) nu.
     if u_username nu = [] \<or> u_password nu = [] then (ps, us)
     else case import_plan now ps nu of (ps, u) \<Rightarrow> (ps, put_or_keep u_username MAX_PPPOE_USERS us u))"

definition pppoe_server_bulk_import ::
  "bras_env \<Rightarrow> pppoe_user list \<Rightarrow> pppoe_profile list \<Rightarrow> bool \<Rightarrow> pppoe_server_ctx \<Rightarrow> pppoe_server_ctx" where
  "pppoe_server_bulk_import env new_users new_profs replace_mode st =
     (let us = (if replace_mode then [] else users st);
          ps = (if replace_mode \<and> new_profs \<noteq> [] then [] else profiles st);
          now_sec = env_time env (sv_hist st)
      in case foldl (import_user now_sec) (import_profiles new_profs ps, us) new_users of (ps, us) \<Rightarrow>
           let st = save_secrets env (upd_users (\<lambda>_. us) (upd_profiles (\<lambda>_. ps) st))
           in st\<lparr>sv_hist := setup_pppoe_scripts env (sv_config st) (sv_hist st)\<rparr>)"

text \<open>
  The table as CSV, with the local time of a stamp as \<open>ltime\<close> prints it. \<open>csv_append\<close> is
  \<open>snprintf\<close> at \<open>buf + offset\<close>: it writes what fits and counts what it would have written, and
  it is a fault beyond the buffer.
\<close>

definition csv_header :: string where
  "csv_header = ''id,username,firstname,lastname,city,phone,balance,expiration,email,static_ip,enabled,notes,profile_name,mac,parent_name,ct_password,address,contract_id,created_at'' @ [CR, NL]"

definition csv_row :: "(u64 \<Rightarrow> string) \<Rightarrow> nat \<Rightarrow> pppoe_user \<Rightarrow> string" where
  \<open>csv_row ltime i u =
     (let stamp = (\<lambda>t. if t > 0 then ltime t else [])
      in dec_string (i + 1) @ '',"'' @ u_username u @ ''","'' @ u_comment u @ ''","","","","0.00","'' @
         stamp (u_expires_at u) @ ''","","'' @ u_static_ip u @ ''",'' @ (if u_enabled u then ''1'' else ''0'') @
         '',"'' @ u_comment u @ ''","'' @ u_profile u @ ''","N/A","admin","'' @ u_password u @ ''","","","'' @
         stamp (u_created_at u) @ ''"'' @ [CR, NL])\<close>

definition csv_append :: "u64 \<Rightarrow> string \<Rightarrow> string \<times> u64 \<Rightarrow> (string \<times> u64) option" where
  "csv_append max_len row = (\<lambda>(t, offset).
     if offset > max_len then None
     else Some (t @ take (unat (max_len - offset) - 1) row, offset + of_nat (length row)))"

fun csv_rows :: "(u64 \<Rightarrow> string) \<Rightarrow> u64 \<Rightarrow> nat \<Rightarrow> pppoe_user list \<Rightarrow> string \<times> u64 \<Rightarrow> (string \<times> u64) option" where
  "csv_rows ltime max_len i [] b = Some b"
| "csv_rows ltime max_len i (u # us) b =
     (if snd b < max_len - 512
      then Option.bind (csv_append max_len (csv_row ltime i u) b) (csv_rows ltime max_len (Suc i) us)
      else Some b)"

definition pppoe_server_export_csv :: "(u64 \<Rightarrow> string) \<Rightarrow> pppoe_server_config \<Rightarrow> u64 \<Rightarrow> (string \<times> int) option" where
  "pppoe_server_export_csv ltime c max_len =
     (if max_len = 0 then Some ([], - 1)
      else map_option (\<lambda>(t, offset). (t, sint (ucast offset :: u32)))
        (Option.bind (csv_append max_len csv_header ([], 0)) (csv_rows ltime max_len 0 (bs_users c))))"

end
