(* ===== verification/Pppoe_Subscribers.thy ===== *)
theory Pppoe_Subscribers
  imports Pppoe_Server
begin

text \<open>
  What the access server of \<open>Pppoe_Server\<close> guarantees: its tables are maps with a bound
  (locale \<open>keyed_table\<close>), the secrets files follow the table of subscribers over all sequences of
  operations, the tick locks out exactly the subscribers whose time is over, and what the
  session hook and the export do.
\<close>

section \<open>Keyed tables\<close>

definition table_ok :: "('a \<Rightarrow> string) \<Rightarrow> nat \<Rightarrow> 'a list \<Rightarrow> bool" where
  "table_ok key cap t \<longleftrightarrow> distinct (map key t) \<and> length t \<le> cap"

text \<open>
  The contract of a table: it is a map with room for \<open>cap\<close> keys.
\<close>

locale keyed_table =
  fixes key :: "'a \<Rightarrow> string" and cap :: nat
    and put :: "'a \<Rightarrow> 'a list \<Rightarrow> 'a list option"
    and del :: "string \<Rightarrow> 'a list \<Rightarrow> 'a list"
    and find :: "string \<Rightarrow> 'a list \<Rightarrow> 'a option"
  assumes find_put: "put x t = Some t' \<Longrightarrow> find k t' = (if k = key x then Some x else find k t)"
    and put_None: "put x t = None \<longleftrightarrow> find (key x) t = None \<and> cap \<le> length t"
    and put_length: "put x t = Some t' \<Longrightarrow> length t' \<le> Suc (length t)"
    and ok_put: "table_ok key cap t \<Longrightarrow> put x t = Some t' \<Longrightarrow> table_ok key cap t'"
    and find_del: "table_ok key cap t \<Longrightarrow> find k' (del k t) = (if k' = k then None else find k' t)"
    and ok_del: "table_ok key cap t \<Longrightarrow> table_ok key cap (del k t)"
begin

definition keep :: "'a list \<Rightarrow> 'a \<Rightarrow> 'a list" where
  "keep t x = (case put x t of None \<Rightarrow> t | Some t' \<Rightarrow> t')"

lemma ok_keep: "table_ok key cap t \<Longrightarrow> table_ok key cap (keep t x)"
  by (auto simp: keep_def ok_put split: option.splits)

lemma ok_keep_all: "table_ok key cap t \<Longrightarrow> table_ok key cap (foldl keep t xs)"
  by (induction xs arbitrary: t) (auto simp: ok_keep)

lemma keep_full:
  assumes "length t < cap"
  shows "find k (keep t x) = (if k = key x then Some x else find k t)" "length (keep t x) \<le> Suc (length t)"
proof -
  obtain t' where "put x t = Some t'" using put_None [of x t] assms by (cases "put x t") auto
  then show "find k (keep t x) = (if k = key x then Some x else find k t)" "length (keep t x) \<le> Suc (length t)"
    using find_put [of x t t' k] put_length [of x t t'] by (auto simp: keep_def)
qed

text \<open>Adding a list of entries when there is room: the last entry of a name counts.\<close>

lemma find_keep_all:
  "length t + length xs \<le> cap \<Longrightarrow>
   find k (foldl keep t xs) = (case map_of (rev (map (\<lambda>x. (key x, x)) xs)) k of None \<Rightarrow> find k t | Some x \<Rightarrow> Some x)"
proof (induction xs arbitrary: t)
  case (Cons x xs)
  then have "length t < cap" by simp
  note f = keep_full [OF this, where x = x]
  have "length (keep t x) + length xs \<le> cap" using Cons.prems f(2) by simp
  from Cons.IH [OF this] show ?case by (auto simp: f(1) map_add_def split: option.splits)
qed simp

lemma find_del_put:
  "table_ok key cap t \<Longrightarrow> put x t = Some t' \<Longrightarrow> find k (del (key x) t') = (if k = key x then None else find k t)"
  using ok_put [of t x t'] find_del [of t' k "key x"] find_put [of x t t' k] by auto

end

lemma find_idx_None: "find_idx key k t = None \<longleftrightarrow> k \<notin> key ` set t"
  by (induction t) auto

lemma find_idx_Some: "find_idx key k t = Some i \<Longrightarrow> i < length t \<and> key (t ! i) = k"
  by (induction t arbitrary: i) (auto split: if_splits)

lemma find_idx_first: "find_idx key k t = Some i \<Longrightarrow> k \<notin> key ` set (take i t)"
  by (induction t arbitrary: i) (auto split: if_splits)

lemma find_idx_split:
  assumes "find_idx key k t = Some i"
  obtains a x b where "t = a @ x # b" "length a = i" "key x = k" "k \<notin> key ` set a"
  using that [of "take i t" "t ! i" "drop (Suc i) t"] find_idx_Some [OF assms] find_idx_first [OF assms]
    id_take_nth_drop [of i t] by auto

lemma table_find_map_of: "table_find key k t = map_of (map (\<lambda>x. (key x, x)) t) k"
  by (induction t) (auto simp: table_find_def option.map_comp comp_def split: if_splits)

lemma table_find_key: "table_find key k t = Some x \<Longrightarrow> key x = k \<and> x \<in> set t"
  using find_idx_Some by (fastforce simp: table_find_def)

lemma table_find_None: "table_find key k t = None \<longleftrightarrow> k \<notin> key ` set t"
  by (simp add: table_find_def find_idx_None)

lemma table_find_update:
  assumes "find_idx key k t = Some i" "key y = k"
  shows "table_find key k' (t[i := y]) = (if k' = k then Some y else table_find key k' t)"
proof -
  obtain a x b where t: "t = a @ x # b" "length a = i" "key x = k" "k \<notin> key ` set a"
    using assms(1) by (rule find_idx_split)
  have "map_of (map (\<lambda>x. (key x, x)) a) k = None" using t(4) by (auto simp: map_of_eq_None_iff)
  moreover have "t[i := y] = a @ y # b" using t(1,2) by auto
  ultimately show ?thesis using assms(2) t(1,3)
    by (auto simp: table_find_map_of map_add_def split: option.splits)
qed

lemma table_find_put:
  assumes "table_put key cap x t = Some t'"
  shows "table_find key k t' = (if k = key x then Some x else table_find key k t)"
proof (cases "find_idx key (key x) t")
  case None
  then have "key x \<notin> key ` set t" by (simp add: find_idx_None)
  then have "map_of (map (\<lambda>x. (key x, x)) t) (key x) = None" by (auto simp: map_of_eq_None_iff)
  then show ?thesis using assms None
    by (auto simp: table_put_def table_find_map_of map_add_def split: if_splits option.splits)
next
  case (Some i)
  then show ?thesis using assms table_find_update [OF Some] by (auto simp: table_put_def)
qed

lemma table_ok_put: "table_ok key cap t \<Longrightarrow> table_put key cap x t = Some t' \<Longrightarrow> table_ok key cap t'"
  using find_idx_Some [of key "key x" t] find_idx_None [of key "key x" t]
  by (auto simp: table_put_def table_ok_def map_update split: option.splits if_splits)
    (metis list_update_id nth_map)

lemma table_delete_split:
  assumes "table_ok key cap t" "find_idx key k t = Some i"
  obtains a x b where "t = a @ x # b" "key x = k" "k \<notin> key ` set a" "k \<notin> key ` set b" "table_delete key k t = a @ b"
proof -
  obtain a x b where t: "t = a @ x # b" "length a = i" "key x = k" "k \<notin> key ` set a"
    using assms(2) by (rule find_idx_split)
  have "table_delete key k t = a @ b" using t(1,2) assms(2) by (auto simp: table_delete_def)
  moreover have "k \<notin> key ` set b" using assms(1) t(1,3) by (auto simp: table_ok_def)
  ultimately show ?thesis using that t by blast
qed

lemma table_find_delete:
  assumes "table_ok key cap t"
  shows "table_find key k' (table_delete key k t) = (if k' = k then None else table_find key k' t)"
proof (cases "find_idx key k t")
  case None
  then show ?thesis by (auto simp: table_delete_def table_find_def)
next
  case (Some i)
  obtain a x b where t: "t = a @ x # b" "key x = k" "k \<notin> key ` set a" "k \<notin> key ` set b" "table_delete key k t = a @ b"
    using assms Some by (rule table_delete_split)
  then have "map_of (map (\<lambda>x. (key x, x)) a) k = None" "map_of (map (\<lambda>x. (key x, x)) b) k = None"
    by (auto simp: map_of_eq_None_iff)
  then show ?thesis using t(1,2,5) by (auto simp: table_find_map_of map_add_def split: option.splits)
qed

lemma table_ok_delete:
  assumes "table_ok key cap t"
  shows "table_ok key cap (table_delete key k t)"
proof (cases "find_idx key k t")
  case (Some i)
  obtain a x b where "t = a @ x # b" "table_delete key k t = a @ b"
    using assms Some by (rule table_delete_split)
  then show ?thesis using assms by (auto simp: table_ok_def)
qed (simp add: assms table_delete_def)

lemma table_find_upd:
  assumes "\<And>x. key (f x) = key x"
  shows "table_find key k' (table_upd key k f t) = (if k' = k then map_option f (table_find key k t) else table_find key k' t)"
proof (cases "find_idx key k t")
  case (Some i)
  then have "key (f (t ! i)) = k" using find_idx_Some [OF Some] assms by simp
  from table_find_update [OF Some this] show ?thesis using Some by (auto simp: table_upd_def table_find_def)
qed (auto simp: table_upd_def table_find_def)

lemma map_key_upd: "(\<And>x. key (f x) = key x) \<Longrightarrow> map key (table_upd key k f t) = map key t"
  by (auto simp: table_upd_def map_update split: option.splits)
    (metis find_idx_Some list_update_id nth_map)

lemma table_ok_upd: "(\<And>x. key (f x) = key x) \<Longrightarrow> table_ok key cap (table_upd key k f t) \<longleftrightarrow> table_ok key cap t"
  using map_key_upd [of key f k t] by (metis length_map table_ok_def)

lemma table_keyed: "keyed_table key cap (table_put key cap) (table_delete key) (table_find key)"
proof
  show "table_put key cap x t = None \<longleftrightarrow> table_find key (key x) t = None \<and> cap \<le> length t" for x t
    by (auto simp: table_put_def table_find_def split: option.splits)
  show "table_put key cap x t = Some t' \<Longrightarrow> length t' \<le> Suc (length t)" for x t t'
    by (auto simp: table_put_def split: option.splits if_splits)
qed (fact table_find_put table_ok_put table_find_delete table_ok_delete)+

interpretation accounts: keyed_table u_username MAX_PPPOE_USERS "table_put u_username MAX_PPPOE_USERS"
  "table_delete u_username" "table_find u_username"
  by (rule table_keyed)

interpretation plans: keyed_table pf_name MAX_PPPOE_PROFILES "table_put pf_name MAX_PPPOE_PROFILES"
  "table_delete pf_name" "table_find pf_name"
  by (rule table_keyed)

section \<open>Sessions\<close>

text \<open>
  The array of past counters is never filled, so that no session has a rate.
\<close>

lemma session_line_rates [simp]:
  "as_rx_rate_kbps (session_line s l) = as_rx_rate_kbps s" "as_tx_rate_kbps (session_line s l) = as_tx_rate_kbps s"
  by (simp_all add: session_line_def Let_def)

lemma read_session_rates [simp]: "as_rx_rate_kbps (read_session t) = 0" "as_tx_rate_kbps (read_session t) = 0"
proof -
  have "as_rx_rate_kbps (foldl session_line s ls) = as_rx_rate_kbps s \<and> as_tx_rate_kbps (foldl session_line s ls) = as_tx_rate_kbps s"
    for s ls by (induction ls arbitrary: s) simp_all
  from this [of zero_session] show "as_rx_rate_kbps (read_session t) = 0" "as_tx_rate_kbps (read_session t) = 0"
    by (simp_all add: read_session_def zero_session_def)
qed

lemma session_stats_fields [simp]:
  "as_ifname (session_stats env h us now s) = as_ifname s" "as_username (session_stats env h us now s) = as_username s"
  "as_connect_time (session_stats env h us now s) = as_connect_time s"
  "as_rx_rate_kbps (session_stats env h us now s) = as_rx_rate_kbps s"
  "as_tx_rate_kbps (session_stats env h us now s) = as_tx_rate_kbps s"
  by (simp_all add: session_stats_def Let_def)

lemma scan_sessions_fresh:
  "scan_sessions env h us room names [] = (ss, hs) \<Longrightarrow>
   hs = [] \<and> length ss \<le> room \<and> (\<forall>s \<in> set ss. as_ifname s \<noteq> [] \<and> as_rx_rate_kbps s = 0 \<and> as_tx_rate_kbps s = 0)"
proof (induction names arbitrary: room ss hs)
  case (Cons name names)
  show ?case
  proof (cases "\<exists>t. room \<noteq> 0 \<and> strstr name ''.session'' \<noteq> None \<and> env_file env h (session_path name) = Some t \<and>
      as_ifname (read_session t) \<noteq> []")
    case True
    then obtain t ss' hs' where t: "env_file env h (session_path name) = Some t" "as_ifname (read_session t) \<noteq> []" "room \<noteq> 0"
      and r: "scan_sessions env h us (room - 1) names [] = (ss', hs')"
      by (cases "scan_sessions env h us (room - 1) names []") auto
    then show ?thesis using Cons.prems True Cons.IH [OF r] by auto
  next
    case False
    then have "ss = [] \<and> hs = [] \<or> scan_sessions env h us room names [] = (ss, hs)"
      using Cons.prems by (auto split: if_splits option.splits)
    then show ?thesis using Cons.IH by auto
  qed
qed simp

abbreviation listed :: "bras_env \<Rightarrow> pppoe_server_ctx \<Rightarrow> pppoe_active_session list" where
  "listed env st \<equiv> fst (snd (pppoe_server_get_sessions env MAX_PPPOE_SESSIONS st))"

lemma get_sessions_fresh:
  assumes "sv_history st = []" "pppoe_server_get_sessions env n st = (rc, ss, st')"
  shows "st' = st" "length ss \<le> n" "\<forall>s \<in> set ss. as_ifname s \<noteq> [] \<and> as_rx_rate_kbps s = 0 \<and> as_tx_rate_kbps s = 0"
proof -
  have "st' = st \<and> length ss \<le> n \<and> (\<forall>s \<in> set ss. as_ifname s \<noteq> [] \<and> as_rx_rate_kbps s = 0 \<and> as_tx_rate_kbps s = 0)"
  proof (cases "n = 0 \<or> env_session_dir env (sv_hist st) = None")
    case True
    then show ?thesis using assms(2) by (auto simp: pppoe_server_get_sessions_def split: if_splits)
  next
    case False
    then obtain names where "env_session_dir env (sv_hist st) = Some names" "n \<noteq> 0" by auto
    moreover obtain ss' hs where r: "scan_sessions env (sv_hist st) (users st) n names [] = (ss', hs)" by fastforce
    ultimately have "ss = ss'" "st' = st\<lparr>sv_history := hs\<rparr>" using assms by (auto simp: pppoe_server_get_sessions_def)
    then show ?thesis using scan_sessions_fresh [OF r] assms(1) by auto
  qed
  then show "st' = st" "length ss \<le> n" "\<forall>s \<in> set ss. as_ifname s \<noteq> [] \<and> as_rx_rate_kbps s = 0 \<and> as_tx_rate_kbps s = 0"
    by auto
qed

definition kick :: "(pppoe_active_session \<Rightarrow> bool) \<Rightarrow> pppoe_active_session list \<Rightarrow> history" where
  "kick pick ss = concat (map (\<lambda>s. disconnect_commands (as_ifname s)) (filter pick ss))"

lemma disconnect_fold:
  "\<forall>s \<in> set ss. as_ifname s \<noteq> [] \<Longrightarrow>
   foldl (\<lambda>st s. if pick s then snd (pppoe_server_disconnect_session (as_ifname s) st) else st) st ss =
     act (kick pick ss) st"
  by (induction ss arbitrary: st) (simp_all add: kick_def pppoe_server_disconnect_session_def)

lemma disconnect_where_eq:
  assumes "sv_history st = []"
  shows "disconnect_where pick env st = act (kick pick (listed env st)) st"
proof -
  obtain rc ss st' where g: "pppoe_server_get_sessions env MAX_PPPOE_SESSIONS st = (rc, ss, st')"
    by (cases "pppoe_server_get_sessions env MAX_PPPOE_SESSIONS st") auto
  from get_sessions_fresh [OF assms g] show ?thesis by (simp add: disconnect_where_def g disconnect_fold)
qed

lemma leaves_file_kick [simp]: "leaves_file path (kick pick ss)"
  by (induction ss) (simp_all add: kick_def disconnect_commands_def)

section \<open>The secrets files\<close>

definition writable :: "bras_env \<Rightarrow> bool" where
  "writable env \<longleftrightarrow> (\<forall>h. env_can_write env h chap_secrets \<and> env_can_write env h pap_secrets)"

text \<open>All readings of the clock lie between \<open>t0\<close> and \<open>t1\<close>.\<close>

definition clock_between :: "u64 \<Rightarrow> u64 \<Rightarrow> bras_env \<Rightarrow> bool" where
  "clock_between t0 t1 env \<longleftrightarrow> (\<forall>h. t0 \<le> env_time env h \<and> env_time env h \<le> t1)"

definition files_hold :: "history \<Rightarrow> string \<Rightarrow> bool" where
  "files_hold h t \<longleftrightarrow> file_text h chap_secrets = Some t \<and> file_text h pap_secrets = Some t"

lemma files_hold_leaves:
  "leaves_file chap_secrets g \<Longrightarrow> leaves_file pap_secrets g \<Longrightarrow> files_hold (h @ g) t = files_hold h t"
  by (simp add: files_hold_def file_text_leaves)

lemma files_hold_secrets:
  assumes "writable env"
  shows "files_hold (snd (write_pppoe_secrets env c h)) (secrets_text (env_time env h) (bs_users c))"
proof -
  have "snd (write_pppoe_secrets env c h) =
      (h @ [WRITE_FILE chap_secrets (secrets_text (env_time env h) (bs_users c))]) @
        [WRITE_FILE pap_secrets (secrets_text (env_time env h) (bs_users c))]"
    using assms by (simp add: writable_def write_pppoe_secrets_def Let_def)
  then show ?thesis by (simp only: files_hold_def file_text_snoc) simp
qed

text \<open>The other files of the daemon leave the secrets as they are.\<close>

lemma holds_write_lines:
  assumes "p \<noteq> chap_secrets" "p \<noteq> pap_secrets" "leaves_file chap_secrets after" "leaves_file pap_secrets after"
  shows "files_hold (write_lines env p ls after h) = files_hold h"
  using assms files_hold_leaves [of "WRITE_FILE p (text_lines ls) # after" h]
  by (auto simp: write_lines_def fun_eq_iff)

lemma holds_setup:
  "files_hold (setup_radius_config env c h) = files_hold h"
  "files_hold (snd (write_pppoe_server_options env c h)) = files_hold h"
  "files_hold (setup_pppoe_scripts env c h) = files_hold h"
  by (simp_all add: setup_radius_config_def write_pppoe_server_options_def setup_pppoe_scripts_def Let_def
      holds_write_lines files_hold_leaves fun_eq_iff)

lemma write_server_files_hold:
  assumes "writable env" "clock_between t0 t1 env"
  shows "\<exists>t. t0 \<le> t \<and> t \<le> t1 \<and> files_hold (write_server_files env c h) (secrets_text t (bs_users c))"
  using files_hold_secrets [OF assms(1)] assms(2)
  by (auto simp: write_server_files_def Let_def holds_setup clock_between_def)

section \<open>Sequences of operations\<close>

datatype server_op =
    Set_User pppoe_user | Delete_User string | Renew_User string u32 string | Toggle_User string bool
  | Tick u64 | Set_Profile pppoe_profile | Delete_Profile string | Rename_Profile string string
  | Bulk_Import "pppoe_user list" "pppoe_profile list" bool | Get_Sessions nat | Disconnect string
  | Start | Stop | Reload

fun run_op :: "bras_env \<Rightarrow> server_op \<Rightarrow> pppoe_server_ctx \<Rightarrow> pppoe_server_ctx" where
  "run_op env (Set_User u) st = snd (pppoe_server_set_user env u st)"
| "run_op env (Delete_User k) st = snd (pppoe_server_delete_user env k st)"
| "run_op env (Renew_User k d p) st = snd (pppoe_server_renew_user env k d p st)"
| "run_op env (Toggle_User k e) st = snd (pppoe_server_toggle_user env k e st)"
| "run_op env (Tick now_ms) st = pppoe_server_periodic_tick env now_ms st"
| "run_op env (Set_Profile p) st = snd (pppoe_server_set_profile p st)"
| "run_op env (Delete_Profile k) st = snd (pppoe_server_delete_profile k st)"
| "run_op env (Rename_Profile a b) st = snd (pppoe_server_rename_profile a b st)"
| "run_op env (Bulk_Import us ps r) st = pppoe_server_bulk_import env us ps r st"
| "run_op env (Get_Sessions n) st = snd (snd (pppoe_server_get_sessions env n st))"
| "run_op env (Disconnect i) st = snd (pppoe_server_disconnect_session i st)"
| "run_op env Start st = pppoe_server_start env st"
| "run_op env Stop st = pppoe_server_stop st"
| "run_op env Reload st = pppoe_server_reload env st"

text \<open>
  A server in service at time \<open>t\<close>: it was started enabled, then any operations followed, each
  with its own environment in which the clock does not run backwards, and the settings other
  than the subscribers may have been changed.
\<close>

inductive served :: "u64 \<Rightarrow> pppoe_server_ctx \<Rightarrow> bool" where
  serve_start: "served t1 (pppoe_server_start env st)"
    if "pppoe_server_init True now lan_if c h = Some st" "bs_enabled c" "clock_between t0 t1 env" "writable env"
| serve_op: "served t1 (run_op env op st)"
    if "served t0 st" "clock_between t0 t1 env" "writable env"
| serve_settings: "served t (st\<lparr>sv_config := c\<rparr>)"
    if "served t st" "bs_users c = users st"

definition synced :: "u64 \<Rightarrow> pppoe_server_ctx \<Rightarrow> bool" where
  "synced t st \<longleftrightarrow> sv_history st = [] \<and> (\<exists>t' \<le> t. files_hold (sv_hist st) (secrets_text t' (users st)))"

lemma synced_mono: "synced t0 st \<Longrightarrow> t0 \<le> t1 \<Longrightarrow> synced t1 st"
  by (auto simp: synced_def intro: order_trans)

lemma synced_act:
  "synced t st \<Longrightarrow> leaves_file chap_secrets g \<Longrightarrow> leaves_file pap_secrets g \<Longrightarrow> synced t (act g st)"
  by (simp add: synced_def files_hold_leaves)

lemma synced_kick: "synced t st \<Longrightarrow> synced t (disconnect_where pick env st)"
  using synced_act [of t st "kick pick (listed env st)"] by (simp add: disconnect_where_eq synced_def)

lemma synced_save:
  "sv_history st = [] \<Longrightarrow> clock_between t0 t1 env \<Longrightarrow> writable env \<Longrightarrow> synced t1 (save_secrets env st)"
  using files_hold_secrets [of env "sv_config st" "sv_hist st"] by (auto simp: synced_def clock_between_def)

lemma synced_write_files:
  "sv_history st = [] \<Longrightarrow> clock_between t0 t1 env \<Longrightarrow> writable env \<Longrightarrow>
   synced t1 (st\<lparr>sv_hist := write_server_files env (sv_config st) h\<rparr>)"
  using write_server_files_hold [of env t0 t1 "sv_config st" h] by (auto simp: synced_def)

lemma synced_start:
  assumes "sv_history st = []" "bs_enabled (sv_config st) \<or> synced t1 st" "clock_between t0 t1 env" "writable env"
  shows "synced t1 (pppoe_server_start env st)"
proof (cases "bs_enabled (sv_config st)")
  case True
  have "synced t1 (act g (st\<lparr>sv_hist := write_server_files env (sv_config st) h\<rparr>))"
    if "leaves_file chap_secrets g" "leaves_file pap_secrets g" for g h
    using synced_act [OF synced_write_files [OF assms(1,3,4)] that] .
  from this [simplified] show ?thesis using True by (simp add: pppoe_server_start_def Let_def)
next
  case False
  then show ?thesis using assms(2) by (simp add: pppoe_server_start_def Let_def)
qed

lemma synced_stop: "synced t st \<Longrightarrow> synced t (pppoe_server_stop st)"
  unfolding pppoe_server_stop_def by (rule synced_act) simp_all

lemma synced_reload:
  assumes "sv_history st = []" "clock_between t0 t1 env" "writable env"
  shows "synced t1 (pppoe_server_reload env st)"
proof -
  let ?st = "st\<lparr>sv_hist := write_server_files env (sv_config st) (sv_hist st)\<rparr>"
  have s: "synced t1 ?st" using assms by (rule synced_write_files)
  moreover have "sv_history ?st = []" using assms(1) by simp
  ultimately have "synced t1 (pppoe_server_start env ?st)" "synced t1 (pppoe_server_stop ?st)"
    using synced_start [of ?st t1 t0 env] assms(2,3) synced_stop by blast+
  then show ?thesis using s by (simp add: pppoe_server_reload_def Let_def)
qed

lemma secrets_text_profiles:
  assumes "\<And>u. secret_line (f u) = secret_line u" "\<And>u. subscriber_active t (f u) = subscriber_active t u"
  shows "secrets_text t (map f us) = secrets_text t us"
  by (simp add: secrets_text_def filter_map comp_def assms)

lemma synced_rename: "synced t st \<Longrightarrow> synced t (snd (pppoe_server_rename_profile a b st))"
  unfolding synced_def
  by (auto simp: pppoe_server_rename_profile_def secrets_text_profiles secret_line_def subscriber_active_def)

lemma synced_profiles:
  assumes "synced t st"
  shows "synced t (snd (pppoe_server_set_profile p st))" "synced t (snd (pppoe_server_delete_profile k st))"
  using assms by (auto simp: synced_def pppoe_server_set_profile_def pppoe_server_delete_profile_def split: option.split)

lemma synced_import:
  assumes "sv_history st = []" "clock_between t0 t1 env" "writable env"
  shows "synced t1 (pppoe_server_bulk_import env us ps r st)"
proof -
  have "synced t1 (st'\<lparr>sv_hist := setup_pppoe_scripts env c (sv_hist st')\<rparr>)" if "synced t1 st'" for st' c
    using that by (simp add: synced_def holds_setup)
  moreover have "synced t1 (save_secrets env (upd_users (\<lambda>_. us') (upd_profiles (\<lambda>_. ps') st)))" for us' ps'
    using assms by (intro synced_save) simp_all
  ultimately show ?thesis
    by (simp only: pppoe_server_bulk_import_def Let_def split: prod.split) blast
qed

lemma synced_op:
  assumes "synced t0 st" "clock_between t0 t1 env" "writable env"
  shows "synced t1 (run_op env op st)"
proof -
  have t: "t0 \<le> t1" using assms(2) order_trans unfolding clock_between_def by blast
  have s: "synced t1 st" using assms(1) t by (rule synced_mono)
  have h: "sv_history st = []" using s by (simp add: synced_def)
  have saved: "synced t1 (save_secrets env st')" if "sv_history st' = []" for st'
    using that assms(2,3) by (rule synced_save)
  note saved' = saved [of "upd_users (\<lambda>_. us) st" for us, simplified, OF h]
  show ?thesis
  proof (cases op)
    case (Set_User u)
    then show ?thesis using s saved' synced_kick
      by (simp add: pppoe_server_set_user_def Let_def split: option.split)
  next
    case (Delete_User k)
    then show ?thesis using s saved' by (simp add: pppoe_server_delete_user_def)
  next
    case (Renew_User k d p)
    then show ?thesis using s saved' synced_kick
      by (simp add: pppoe_server_renew_user_def Let_def split: option.split)
  next
    case (Toggle_User k e)
    then show ?thesis using s saved' synced_kick
      by (simp add: pppoe_server_toggle_user_def Let_def split: option.split)
  next
    case (Tick now_ms)
    have "synced t1 (st\<lparr>sv_last_check_ms := now_ms\<rparr>)" using s by (simp add: synced_def)
    then show ?thesis using Tick s synced_kick saved [of "st\<lparr>sv_last_check_ms := now_ms\<rparr>"] h
      by (simp add: pppoe_server_periodic_tick_def Let_def)
  next
    case (Get_Sessions n)
    then show ?thesis using s get_sessions_fresh(1) [OF h, of env n]
      by (cases "pppoe_server_get_sessions env n st") auto
  next
    case (Disconnect i)
    then show ?thesis using s synced_act [OF s, of "disconnect_commands i"]
      by (simp add: pppoe_server_disconnect_session_def disconnect_commands_def)
  next
    case Start
    then show ?thesis using synced_start [OF h _ assms(2,3)] s by simp
  qed (simp_all add: s synced_rename synced_profiles synced_stop synced_import [OF h assms(2,3)]
      synced_reload [OF h assms(2,3)])
qed

lemma served_synced: "served t st \<Longrightarrow> synced t st"
proof (induction rule: served.induct)
  case (serve_start now lan_if c h st t0 t1 env)
  then have "sv_history st = []" "bs_enabled (sv_config st)" by (auto simp: pppoe_server_init_def)
  then show ?case using synced_start serve_start by blast
next
  case (serve_op t0 st t1 env op)
  then show ?case using synced_op by blast
qed (simp add: synced_def)

section \<open>Accounts as a map\<close>

definition import_account ::
  "u64 \<Rightarrow> pppoe_profile list \<times> (string \<rightharpoonup> pppoe_user) \<Rightarrow> pppoe_user \<Rightarrow> pppoe_profile list \<times> (string \<rightharpoonup> pppoe_user)" where
  "import_account now = (\<lambda>(ps, m) nu.
     if u_username nu = [] \<or> u_password nu = [] then (ps, m)
     else case import_plan now ps nu of (ps, u) \<Rightarrow> (ps, m(u_username u \<mapsto> u)))"

text \<open>What each operation means for the accounts as a map from names.\<close>

fun account_step :: "u64 \<Rightarrow> pppoe_profile list \<Rightarrow> server_op \<Rightarrow> (string \<rightharpoonup> pppoe_user) \<Rightarrow> (string \<rightharpoonup> pppoe_user)" where
  "account_step now ps (Set_User u) m =
     (if u_username u = [] then m
      else m(u_username u \<mapsto> user_expiry now ps (if u_created_at u = 0 then u\<lparr>u_created_at := now\<rparr> else u)))"
| "account_step now ps (Delete_User k) m = (if k = [] then m else m(k := None))"
| "account_step now ps (Renew_User k d p) m = (if k = [] then m else m(k := map_option (renewed_user now ps d p) (m k)))"
| "account_step now ps (Toggle_User k e) m = (if k = [] then m else m(k := map_option (\<lambda>u. u\<lparr>u_enabled := e\<rparr>) (m k)))"
| "account_step now ps (Rename_Profile a b) m =
     (if a = [] \<or> b = [] then m
      else (\<lambda>k. map_option (\<lambda>u. if u_profile u = a then u\<lparr>u_profile := cstr_copy 64 b\<rparr> else u) (m k)))"
| "account_step now ps (Bulk_Import us qs r) m =
     snd (foldl (import_account now) (import_profiles qs (if r \<and> qs \<noteq> [] then [] else ps), if r then Map.empty else m) us)"
| "account_step now ps _ m = m"

fun has_room :: "server_op \<Rightarrow> pppoe_server_ctx \<Rightarrow> bool" where
  "has_room (Set_User u) st \<longleftrightarrow> length (users st) < MAX_PPPOE_USERS \<or> table_find u_username (u_username u) (users st) \<noteq> None"
| "has_room (Bulk_Import us qs r) st \<longleftrightarrow> (if r then 0 else length (users st)) + length us \<le> MAX_PPPOE_USERS"
| "has_room _ st \<longleftrightarrow> True"

lemma user_expiry_name [simp]: "u_username (user_expiry now ps u) = u_username u"
  by (simp add: user_expiry_def split: option.split)

lemma renewed_user_name [simp]: "u_username (renewed_user now ps d p u) = u_username u"
  by (simp add: renewed_user_def Let_def)

lemma import_plan_name: "import_plan now ps nu = (ps', u) \<Longrightarrow> u_username u = u_username nu"
  by (auto simp: import_plan_def Let_def split: if_splits)

lemma put_or_keep_accounts: "put_or_keep u_username MAX_PPPOE_USERS = accounts.keep"
  by (simp add: fun_eq_iff put_or_keep_def accounts.keep_def)

lemma sv_config_disconnect_where [simp]: "sv_config (disconnect_where pick env st) = sv_config st"
proof -
  have "sv_config (foldl (\<lambda>st s. if pick s then snd (pppoe_server_disconnect_session (as_ifname s) st) else st) st' ss) = sv_config st'"
    for st' ss by (induction ss arbitrary: st') (simp_all add: pppoe_server_disconnect_session_def)
  moreover have "sv_config (snd (snd (pppoe_server_get_sessions env n st))) = sv_config st" for n
    by (simp add: pppoe_server_get_sessions_def split: option.split prod.split)
  ultimately show ?thesis
    by (cases "pppoe_server_get_sessions env MAX_PPPOE_SESSIONS st") (simp add: disconnect_where_def, metis snd_conv)
qed

lemma table_find_map:
  "(\<And>x. key (f x) = key x) \<Longrightarrow> table_find key k (map f t) = map_option f (table_find key k t)"
  by (induction t) (auto simp: table_find_map_of)

abbreviation account_map :: "pppoe_user list \<Rightarrow> string \<rightharpoonup> pppoe_user" where
  "account_map us \<equiv> (\<lambda>k. table_find u_username k us)"

lemma import_refines:
  "length us + length new \<le> MAX_PPPOE_USERS \<Longrightarrow> foldl (import_user now) (ps, us) new = (ps', us') \<Longrightarrow>
   foldl (import_account now) (ps, account_map us) new = (ps', account_map us')"
proof (induction new arbitrary: ps us)
  case (Cons nu new)
  show ?case
  proof (cases "u_username nu = [] \<or> u_password nu = []")
    case True
    then show ?thesis using Cons by (simp add: import_user_def import_account_def)
  next
    case False
    obtain ps1 u where p: "import_plan now ps nu = (ps1, u)" by fastforce
    have room: "length us < MAX_PPPOE_USERS" using Cons.prems(1) by simp
    have m: "account_map (accounts.keep us u) = (account_map us)(u_username u \<mapsto> u)"
      using accounts.keep_full(1) [OF room] by (auto simp: fun_eq_iff)
    have "length (accounts.keep us u) + length new \<le> MAX_PPPOE_USERS"
      using accounts.keep_full(2) [OF room, of u] Cons.prems(1) by simp
    moreover have "foldl (import_user now) (ps1, accounts.keep us u) new = (ps', us')"
      using Cons.prems(2) False p by (simp add: import_user_def put_or_keep_accounts)
    ultimately have "foldl (import_account now) (ps1, account_map (accounts.keep us u)) new = (ps', account_map us')"
      by (rule Cons.IH)
    then show ?thesis using False p unfolding m by (simp add: import_account_def)
  qed
qed simp

lemma import_ok:
  "table_ok u_username MAX_PPPOE_USERS us \<Longrightarrow> foldl (import_user now) (ps, us) new = (ps', us') \<Longrightarrow>
   table_ok u_username MAX_PPPOE_USERS us'"
proof (induction new arbitrary: ps us)
  case (Cons nu new)
  obtain ps1 us1 where i: "import_user now (ps, us) nu = (ps1, us1)" by fastforce
  then have "table_ok u_username MAX_PPPOE_USERS us1"
    using Cons.prems(1) accounts.ok_keep [of us]
    by (auto simp: import_user_def put_or_keep_accounts split: if_splits prod.splits)
  then show ?case using Cons.IH [of us1 ps1] Cons.prems(2) i by simp
qed simp

text \<open>The table of subscribers after an operation.\<close>

lemma users_set_user:
  assumes "u_username u \<noteq> []"
  shows "users (snd (pppoe_server_set_user env u st)) =
    accounts.keep (users st) (user_expiry (env_time env (sv_hist st)) (profiles st)
      (if u_created_at u = 0 then u\<lparr>u_created_at := env_time env (sv_hist st)\<rparr> else u))"
  using assms by (simp add: pppoe_server_set_user_def accounts.keep_def Let_def split: option.split)

lemma users_delete_user: "k \<noteq> [] \<Longrightarrow> users (snd (pppoe_server_delete_user env k st)) = table_delete u_username k (users st)"
  by (auto simp: pppoe_server_delete_user_def table_delete_def)

lemma users_renew_user:
  "k \<noteq> [] \<Longrightarrow> users (snd (pppoe_server_renew_user env k d p st)) =
     table_upd u_username k (renewed_user (env_time env (sv_hist st)) (profiles st) d p) (users st)"
  by (auto simp: pppoe_server_renew_user_def table_upd_def table_find_def Let_def split: option.split)

lemma users_toggle_user:
  "k \<noteq> [] \<Longrightarrow> users (snd (pppoe_server_toggle_user env k e st)) = table_upd u_username k (\<lambda>u. u\<lparr>u_enabled := e\<rparr>) (users st)"
  by (auto simp: pppoe_server_toggle_user_def table_upd_def Let_def split: option.split)

lemma users_import:
  "users (pppoe_server_bulk_import env new qs r st) =
     snd (foldl (import_user (env_time env (sv_hist st)))
       (import_profiles qs (if r \<and> qs \<noteq> [] then [] else profiles st), if r then [] else users st) new)"
  by (simp add: pppoe_server_bulk_import_def Let_def split: prod.split)

lemma users_tick: "sv_config (pppoe_server_periodic_tick env now_ms st) = sv_config st"
  by (simp add: pppoe_server_periodic_tick_def Let_def)

lemma users_others:
  "users (snd (pppoe_server_set_profile q st)) = users st" "users (snd (pppoe_server_delete_profile k st)) = users st"
  "users (snd (snd (pppoe_server_get_sessions env n st))) = users st"
  "users (snd (pppoe_server_disconnect_session i st)) = users st"
  "users (pppoe_server_start env st) = users st" "users (pppoe_server_stop st) = users st"
  "users (pppoe_server_reload env st) = users st"
  by (simp_all add: pppoe_server_set_profile_def pppoe_server_delete_profile_def pppoe_server_get_sessions_def
      pppoe_server_disconnect_session_def pppoe_server_start_def pppoe_server_stop_def pppoe_server_reload_def Let_def
      split: option.split prod.split)

lemmas users_ops = users_set_user users_delete_user users_renew_user users_toggle_user users_import users_tick users_others

lemma accounts_run_op:
  assumes "table_ok u_username MAX_PPPOE_USERS (users st)" "has_room op st"
  shows "account_map (users (run_op env op st)) =
    account_step (env_time env (sv_hist st)) (profiles st) op (account_map (users st))"
proof (cases op)
  case (Set_User u)
  show ?thesis
  proof (cases "u_username u = []")
    case True
    then show ?thesis using Set_User by (simp add: pppoe_server_set_user_def)
  next
    case False
    let ?u = "user_expiry (env_time env (sv_hist st)) (profiles st)
      (if u_created_at u = 0 then u\<lparr>u_created_at := env_time env (sv_hist st)\<rparr> else u)"
    obtain t' where t: "table_put u_username MAX_PPPOE_USERS ?u (users st) = Some t'"
      using assms(2) accounts.put_None [of ?u "users st"] Set_User
      by (cases "table_put u_username MAX_PPPOE_USERS ?u (users st)") (auto split: if_splits)
    then have "account_map (accounts.keep (users st) ?u) = (account_map (users st))(u_username ?u \<mapsto> ?u)"
      using accounts.find_put [OF t] by (auto simp: accounts.keep_def)
    then show ?thesis using False Set_User by (simp add: users_set_user)
  qed
next
  case (Delete_User k)
  then show ?thesis using accounts.find_del [OF assms(1)]
    by (cases "k = []") (simp add: pppoe_server_delete_user_def, auto simp: users_delete_user)
next
  case (Renew_User k d p)
  then show ?thesis by (cases "k = []") (simp add: pppoe_server_renew_user_def, auto simp: users_renew_user table_find_upd)
next
  case (Toggle_User k e)
  then show ?thesis by (cases "k = []") (simp add: pppoe_server_toggle_user_def, auto simp: users_toggle_user table_find_upd)
next
  case (Rename_Profile a b)
  then show ?thesis by (auto simp: pppoe_server_rename_profile_def table_find_map)
next
  case (Bulk_Import new qs r)
  let ?us = "if r then [] else users st" and ?ps = "import_profiles qs (if r \<and> qs \<noteq> [] then [] else profiles st)"
  obtain ps' us' where i: "foldl (import_user (env_time env (sv_hist st))) (?ps, ?us) new = (ps', us')" by fastforce
  have "account_map ?us = (if r then Map.empty else account_map (users st))" by (auto simp: table_find_def)
  moreover have "length ?us + length new \<le> MAX_PPPOE_USERS" using assms(2) Bulk_Import by auto
  ultimately show ?thesis using Bulk_Import import_refines [OF _ i] i by (simp add: users_import)
qed (simp_all add: users_ops)

lemma table_ok_run_op:
  assumes "table_ok u_username MAX_PPPOE_USERS (users st)"
  shows "table_ok u_username MAX_PPPOE_USERS (users (run_op env op st))"
proof (cases op)
  case (Set_User u)
  then show ?thesis using assms
    by (cases "u_username u = []") (simp add: pppoe_server_set_user_def, auto simp: users_set_user intro: accounts.ok_keep)
next
  case (Delete_User k)
  then show ?thesis using assms
    by (cases "k = []") (simp add: pppoe_server_delete_user_def, auto simp: users_delete_user intro: accounts.ok_del)
next
  case (Renew_User k d p)
  then show ?thesis using assms by (cases "k = []") (simp add: pppoe_server_renew_user_def, simp add: users_renew_user table_ok_upd)
next
  case (Toggle_User k e)
  then show ?thesis using assms by (cases "k = []") (simp add: pppoe_server_toggle_user_def, simp add: users_toggle_user table_ok_upd)
next
  case (Rename_Profile a b)
  then show ?thesis using assms by (simp add: pppoe_server_rename_profile_def table_ok_def comp_def if_distrib cong: if_cong)
next
  case (Bulk_Import new qs r)
  let ?i = "foldl (import_user (env_time env (sv_hist st)))
    (import_profiles qs (if r \<and> qs \<noteq> [] then [] else profiles st), if r then [] else users st) new"
  have "table_ok u_username MAX_PPPOE_USERS (if r then [] else users st)" using assms by (simp add: table_ok_def)
  then have "table_ok u_username MAX_PPPOE_USERS (snd ?i)" using prod.collapse [of ?i] by (rule import_ok [OF _ sym])
  then show ?thesis using Bulk_Import by (simp only: run_op.simps users_import)
qed (use assms in \<open>simp_all add: users_ops\<close>)

section \<open>The tick\<close>

lemma secrets_text_later:
  assumes "t \<le> now" "\<forall>u \<in> set us. \<not> (u_enabled u \<and> user_lapsed now u)"
  shows "secrets_text t us = secrets_text now us"
proof -
  have "subscriber_active t u = subscriber_active now u" if "u \<in> set us" for u
    using assms that by (auto simp: subscriber_active_def user_lapsed_def)
  then show ?thesis by (simp add: secrets_text_def cong: filter_cong)
qed

lemma listed_cong [simp]: "listed env (st\<lparr>sv_last_check_ms := n\<rparr>) = listed env st"
  by (simp add: pppoe_server_get_sessions_def split: option.split prod.split)

lemma tick_history:
  assumes "sv_history st = []" "bs_enabled (sv_config st)" "5000 \<le> now_ms - sv_last_check_ms st"
  shows "sv_hist (pppoe_server_periodic_tick env now_ms st) =
    (let now_sec = env_time env (sv_hist st);
         h1 = (if \<exists>u \<in> set (users st). u_enabled u \<and> user_lapsed now_sec u
               then snd (write_pppoe_secrets env (sv_config st) (sv_hist st)) else sv_hist st)
     in h1 @ kick (session_barred now_sec (users st)) (listed env (st\<lparr>sv_hist := h1\<rparr>)))"
proof -
  have "listed env (st\<lparr>sv_last_check_ms := now_ms, sv_hist := h\<rparr>) = listed env (st\<lparr>sv_hist := h\<rparr>)" for h
    by (simp add: pppoe_server_get_sessions_def split: option.split prod.split)
  moreover have "\<not> now_ms - sv_last_check_ms st < 5000" using assms(3) by (simp add: not_less)
  ultimately show ?thesis using assms(1,2)
    by (cases "\<exists>u \<in> set (users st). u_enabled u \<and> user_lapsed (env_time env (sv_hist st)) u")
      (auto simp: pppoe_server_periodic_tick_def disconnect_where_eq Let_def)
qed

lemma tick_files:
  assumes "synced t0 st" "clock_between t0 t1 env" "writable env"
    and "bs_enabled (sv_config st)" "5000 \<le> now_ms - sv_last_check_ms st"
  shows "\<exists>t. t0 \<le> t \<and> t \<le> t1 \<and> files_hold (sv_hist (pppoe_server_periodic_tick env now_ms st)) (secrets_text t (users st))"
proof -
  obtain t' where h: "sv_history st = []" and t': "t' \<le> t0" "files_hold (sv_hist st) (secrets_text t' (users st))"
    using assms(1) by (auto simp: synced_def)
  let ?now = "env_time env (sv_hist st)"
  have now: "t0 \<le> ?now" "?now \<le> t1" using assms(2) by (auto simp: clock_between_def)
  show ?thesis
  proof (cases "\<exists>u \<in> set (users st). u_enabled u \<and> user_lapsed ?now u")
    case True
    then show ?thesis using tick_history [OF h assms(4,5), of env] now files_hold_secrets [OF assms(3), of "sv_config st" "sv_hist st"]
      by (auto simp: Let_def files_hold_leaves)
  next
    case False
    then have "files_hold (sv_hist st) (secrets_text ?now (users st))"
      using t' now secrets_text_later [of t' ?now "users st"] by auto
    then show ?thesis using False tick_history [OF h assms(4,5), of env] now by (auto simp: Let_def files_hold_leaves)
  qed
qed

section \<open>The session hook\<close>

text \<open>
  The text that a shell writes for a here-document whose delimiter is quoted: the lines up to
  the delimiter as they are, without expansion.
\<close>

definition quoted_heredoc :: "string list \<Rightarrow> string list" where
  \<open>quoted_heredoc script = takeWhile (\<lambda>l. l \<noteq> ''EOF'') (tl (dropWhile (\<lambda>l. strstr l ''<< 'EOF' >'' = None) script))\<close>

definition hook_session :: pppoe_active_session where
  "hook_session = zero_session\<lparr>as_ifname := ''$1'', as_username := ''${PEERNAME:-$USER}'', as_ip := ''$5'',
     as_mac := ''${MACREMOTE:-unknown}''\<rparr>"

lemma hook_lines:
  "quoted_heredoc (ip_up_script ps) =
     [''IFNAME=$1'', ''TTY=$2'', ''SPEED=$3'', ''LOCAL_IP=$4'', ''REMOTE_IP=$5'', ''IPPARAM=$6'',
      ''USERNAME=${PEERNAME:-$USER}'', ''CONNECT_TIME=$(date +%s)'', ''MAC=${MACREMOTE:-unknown}'']"
  by (simp add: quoted_heredoc_def ip_up_script_def)

lemma NL_char: "NL = CHR 0x0A" and CR_char: "CR = CHR 0x0D"
  unfolding NL_def CR_def by code_simp+

lemma read_hook_session: "read_session (text_lines (quoted_heredoc (ip_up_script ps))) = hook_session"
proof -
  have "fgets_lines 255 (text_lines (quoted_heredoc (ip_up_script ps))) = map (\<lambda>l. l @ [NL]) (quoted_heredoc (ip_up_script ps))"
    by (rule fgets_lines_text_lines) (simp add: hook_lines NL_char)
  then show ?thesis
    by (simp add: read_session_def hook_lines cstr_def session_line_def hook_session_def zero_session_def cstr_copy_def
        NL_char CR_char strtol_def digit_val_def is_space_def)
qed

lemma scan_sessions_from:
  assumes "\<forall>name t. env_file env h (session_path name) = Some t \<longrightarrow> read_session t = s0"
  shows "scan_sessions env h us room names [] = (ss, hs) \<Longrightarrow> s \<in> set ss \<Longrightarrow>
    s = session_stats env h us (env_time env h) s0"
proof (induction names arbitrary: room ss hs)
  case (Cons name names)
  show ?case
  proof (cases "\<exists>t. room \<noteq> 0 \<and> strstr name ''.session'' \<noteq> None \<and> env_file env h (session_path name) = Some t \<and>
      as_ifname (read_session t) \<noteq> []")
    case True
    then obtain t ss' hs' where t: "env_file env h (session_path name) = Some t" "as_ifname (read_session t) \<noteq> []" "room \<noteq> 0"
      and r: "scan_sessions env h us (room - 1) names [] = (ss', hs')"
      by (cases "scan_sessions env h us (room - 1) names []") auto
    then show ?thesis using Cons.prems True Cons.IH [OF r] assms by auto
  next
    case False
    then have "ss = [] \<or> scan_sessions env h us room names [] = (ss, hs)"
      using Cons.prems by (auto split: if_splits option.splits)
    then show ?thesis using Cons by auto
  qed
qed simp

lemma listed_from:
  assumes "sv_history st = []"
    "\<forall>name t. env_file env (sv_hist st) (session_path name) = Some t \<longrightarrow> read_session t = s0" "s \<in> set (listed env st)"
  shows "s = session_stats env (sv_hist st) (users st) (env_time env (sv_hist st)) s0"
proof -
  obtain names where n: "env_session_dir env (sv_hist st) = Some names"
    using assms(3) by (cases "env_session_dir env (sv_hist st)") (auto simp: pppoe_server_get_sessions_def)
  obtain ss hs where r: "scan_sessions env (sv_hist st) (users st) MAX_PPPOE_SESSIONS names [] = (ss, hs)" by fastforce
  then have "s \<in> set ss" using assms(1,3) n by (simp add: pppoe_server_get_sessions_def)
  then show ?thesis by (rule scan_sessions_from [OF assms(2) r])
qed

section \<open>The export\<close>

lemma length_dec_string: "n < 10 ^ Suc k \<Longrightarrow> length (dec_string n) \<le> Suc k"
proof (induction k arbitrary: n)
  case 0
  then show ?case by (simp add: dec_string.simps [of n])
next
  case (Suc k)
  then have "n div 10 < 10 ^ Suc k" by auto
  then show ?case using Suc.IH by (simp add: dec_string.simps [of n])
qed

text \<open>The sizes of the character arrays of an account.\<close>

definition user_fits :: "pppoe_user \<Rightarrow> bool" where
  "user_fits u \<longleftrightarrow> length (u_username u) < 64 \<and> length (u_password u) < 64 \<and> length (u_profile u) < 64 \<and>
     length (u_static_ip u) < 32 \<and> length (u_comment u) < 128"

lemma csv_row_length:
  assumes "user_fits u" "\<forall>t. length (ltime t) < 64" "i < 4096"
  shows "length (csv_row ltime i u) \<le> 671"
proof -
  have "length (dec_string (i + 1)) \<le> Suc 3" by (rule length_dec_string) (use assms(3) in simp)
  then show ?thesis
    using assms(1) assms(2) [rule_format, of "u_expires_at u"] assms(2) [rule_format, of "u_created_at u"]
    unfolding user_fits_def csv_row_def Let_def by simp
qed

text \<open>
  The state of the export: what was counted is what was written, or the buffer is full and the
  count is beyond it.
\<close>

definition export_inv :: "nat \<Rightarrow> string \<times> u64 \<Rightarrow> bool" where
  "export_inv M = (\<lambda>(t, offset). (unat offset < M \<and> length t = unat offset) \<or>
     (M \<le> unat offset \<and> unat offset \<le> M + 158 \<and> length t = M - 1))"

lemma csv_append_small:
  assumes "unat offset + 512 < unat max_len" "length t = unat offset" "length row \<le> 671" "unat max_len < 2 ^ 32"
  shows "\<exists>b. csv_append max_len row (t, offset) = Some b \<and> export_inv (unat max_len) b \<and>
    (\<exists>r. t @ row = fst b @ r \<and> (unat (snd b) < unat max_len \<longrightarrow> r = []))"
proof -
  have lt: "offset < max_len" "\<not> max_len < offset" using assms(1) by (auto simp: word_less_nat_alt)
  then have rem: "unat (max_len - offset) = unat max_len - unat offset" by (intro unat_sub) simp
  have "unat (of_nat (length row) :: u64) = length row" using assms(3) by (simp add: unat_of_nat)
  then have o': "unat (offset + of_nat (length row)) = unat offset + length row"
    using assms(1,3,4) by (subst unat_add_lem [THEN iffD1]) simp_all
  let ?b = "(t @ take (unat max_len - unat offset - 1) row, offset + of_nat (length row))"
  have "csv_append max_len row (t, offset) = Some ?b" using lt by (simp add: csv_append_def rem)
  moreover have "export_inv (unat max_len) ?b" using assms(1,2,3) o' by (auto simp: export_inv_def)
  moreover have "t @ row = fst ?b @ drop (unat max_len - unat offset - 1) row" by simp
  moreover have "unat (snd ?b) < unat max_len \<longrightarrow> drop (unat max_len - unat offset - 1) row = []" using o' by auto
  ultimately show ?thesis by blast
qed

definition csv_all :: "(u64 \<Rightarrow> string) \<Rightarrow> nat \<Rightarrow> pppoe_user list \<Rightarrow> string" where
  "csv_all ltime i us = concat (map (\<lambda>(i, u). csv_row ltime i u) (enumerate i us))"

lemma csv_rows_run:
  assumes "512 \<le> unat max_len" "unat max_len < 2 ^ 32" "\<forall>t. length (ltime t) < 64"
  shows "export_inv (unat max_len) (t, offset) \<Longrightarrow> \<forall>u \<in> set us. user_fits u \<Longrightarrow> i + length us \<le> 4096 \<Longrightarrow>
    \<exists>b r. csv_rows ltime max_len i us (t, offset) = Some b \<and> export_inv (unat max_len) b \<and>
      (length t = unat offset \<longrightarrow> t @ csv_all ltime i us = fst b @ r \<and> (unat (snd b) + 512 < unat max_len \<longrightarrow> r = []))"
proof (induction us arbitrary: i t offset)
  case Nil
  then show ?case by (simp add: csv_all_def)
next
  case (Cons u us)
  have m: "unat (max_len - 512) = unat max_len - 512" using assms(1) unat_sub [of 512 max_len] by (simp add: word_le_nat_alt)
  show ?case
  proof (cases "unat offset + 512 < unat max_len")
    case False
    then have "\<not> offset < max_len - 512" using m assms(1) by (simp add: word_less_nat_alt)
    then show ?thesis using Cons.prems(1) False by auto
  next
    case True
    then have o: "offset < max_len - 512" and len: "length t = unat offset"
      using m Cons.prems(1) by (auto simp: word_less_nat_alt export_inv_def)
    have "length (csv_row ltime i u) \<le> 671" using Cons.prems assms(3) by (intro csv_row_length) auto
    then obtain b r where b: "csv_append max_len (csv_row ltime i u) (t, offset) = Some b" "export_inv (unat max_len) b"
      "t @ csv_row ltime i u = fst b @ r" "unat (snd b) < unat max_len \<Longrightarrow> r = []"
      using csv_append_small [OF True len _ assms(2)] by blast
    have "export_inv (unat max_len) (fst b, snd b)" "\<forall>u \<in> set us. user_fits u" "Suc i + length us \<le> 4096"
      using b(2) Cons.prems by simp_all
    note ih = Cons.IH [OF this, unfolded prod.collapse]
    obtain b' r' where b': "csv_rows ltime max_len (Suc i) us b = Some b'" "export_inv (unat max_len) b'"
      "length (fst b) = unat (snd b) \<Longrightarrow> fst b @ csv_all ltime (Suc i) us = fst b' @ r' \<and> (unat (snd b') + 512 < unat max_len \<longrightarrow> r' = [])"
      using ih by blast
    have step: "csv_rows ltime max_len i (u # us) (t, offset) = Some b'" using o b(1) b'(1) by simp
    show ?thesis
    proof (cases "unat (snd b) < unat max_len")
      case True
      then have "length (fst b) = unat (snd b)" using b(2) by (cases b) (auto simp: export_inv_def)
      then show ?thesis using step b' b(3) b(4) [OF True] by (auto simp: csv_all_def simp flip: append_assoc)
    next
      case False
      then have "csv_rows ltime max_len (Suc i) us b = Some b"
        using m assms(1) by (cases us) (auto simp: word_less_nat_alt)
      then have "b' = b" using b'(1) by simp
      moreover have "t @ csv_all ltime i (u # us) = fst b @ (r @ csv_all ltime (Suc i) us)"
        using b(3) by (simp add: csv_all_def flip: append_assoc)
      ultimately show ?thesis using step b'(2) False
        by (intro exI [of _ b] exI [of _ "r @ csv_all ltime (Suc i) us"]) auto
    qed
  qed
qed

lemma sint_ucast_small:
  assumes "unat (w :: u64) < 2147483648"
  shows "sint (ucast w :: u32) = int (unat w)"
proof -
  have "unat (ucast w :: u32) = unat w" using assms by (simp add: unsigned_ucast_eq take_bit_nat_eq_self)
  then have u: "uint (ucast w :: u32) = int (unat w)" by (metis uint_nat)
  have "sint (ucast w :: u32) = signed_take_bit 31 (uint (ucast w :: u32))" by (simp add: sint_uint)
  also have "\<dots> = int (unat w)"
  proof -
    obtain n where n: "unat w = n" by blast
    have "- (2 ^ 31) \<le> int n" "int n < 2 ^ 31" using assms unfolding n by simp_all
    then show ?thesis unfolding u n by (rule signed_take_bit_int_eq_self)
  qed
  finally show ?thesis .
qed

section \<open>Properties\<close>

text \<open>A sample server and system for the examples: the clock stands at \<open>t\<close>, one session file is there.\<close>

definition sample_bras_config :: pppoe_server_config where
  "sample_bras_config = \<lparr>bs_enabled = True, bs_lan_mode = [], bs_interface = [], bs_service_name = [], bs_ac_name = [],
     bs_local_ip = [], bs_pool_start = [], bs_pool_end = [], bs_pool_count = 0, bs_dns1 = [], bs_dns2 = [], bs_mru = 0, bs_mss = 0,
     bs_radius = \<lparr>rad_enabled = False, rad_proto = RADIUS_PROTO_UDP, rad_server = [], rad_secret = [], rad_auth_port = 0,
       rad_acct_port = 0, rad_coa_port = 0, rad_interim_interval = 0, rad_nas_identifier = [], rad_tls_verify_cert = False,
       rad_ca_cert_path = [], rad_client_cert_path = [], rad_client_key_path = [], rad_sni_hostname = []\<rparr>,
     bs_profiles = [], bs_users = []\<rparr>"

definition sample_bras :: "u64 \<Rightarrow> bras_env" where
  "sample_bras t = \<lparr>env_time = (\<lambda>_. t), env_localtime = (\<lambda>_. None), env_now_ms = (\<lambda>_. 0), env_authorized = (\<lambda>_. True),
     env_ifindex = (\<lambda>_ _. 0), env_junk = (\<lambda>_. undefined), env_wifi_link = (\<lambda>_ _. None),
     env_file = (\<lambda>_ p. if p = session_path ''ppp0.session'' then Some (text_lines (quoted_heredoc (ip_up_script []))) else None),
     env_can_write = (\<lambda>_ _. True), env_executable = (\<lambda>_ _. False), env_alive = (\<lambda>_ _. False), env_exited = (\<lambda>_ _. False),
     env_fork = (\<lambda>_. 0), env_popen_line = (\<lambda>_ _. None), env_ifaddr = (\<lambda>_ _. None),
     env_session_dir = (\<lambda>_. Some [''ppp0.session''])\<rparr>"

definition sample_bras_init :: pppoe_server_ctx where
  "sample_bras_init = the (pppoe_server_init True 0 [] sample_bras_config [])"

lemma sample_bras_init: "pppoe_server_init True 0 [] sample_bras_config [] = Some sample_bras_init"
  by (simp add: sample_bras_init_def pppoe_server_init_def)

lemma sample_bras_clock: "clock_between t t (sample_bras t)" "writable (sample_bras t)"
  by (simp_all add: clock_between_def writable_def sample_bras_def)

lemma sample_bras_users: "users sample_bras_init = [default_user 0]" "bs_enabled (sv_config sample_bras_init)"
  "sv_last_check_ms sample_bras_init = 0"
  by (simp_all add: sample_bras_init_def pppoe_server_init_def sample_bras_config_def)

lemma sample_bras_served: "served t (pppoe_server_start (sample_bras t) sample_bras_init)"
  using serve_start [OF sample_bras_init _ sample_bras_clock] by (simp add: sample_bras_config_def)





text \<open>
  C38. The tick locks out subscribers. When five seconds have passed, the files hold the lines of
  the subscribers who are enabled and not expired at a time within the tick, and the sessions that
  are disconnected are exactly the listed ones of a subscriber who is disabled or expired. A
  session of a name that is not in the table, as after a deletion, is not among them.
\<close>

theorem tick_locks_out_subscribers:
  assumes "served t0 st" "clock_between t0 t1 env" "writable env"
    and "bs_enabled (sv_config st)" "5000 \<le> now_ms - sv_last_check_ms st"
  shows "(\<exists>t. t0 \<le> t \<and> t \<le> t1 \<and> files_hold (sv_hist (pppoe_server_periodic_tick env now_ms st)) (secrets_text t (users st))) \<and>
    (\<exists>h1 ss. h1 \<in> {sv_hist st, snd (write_pppoe_secrets env (sv_config st) (sv_hist st))} \<and>
      ss = listed env (st\<lparr>sv_hist := h1\<rparr>) \<and>
      sv_hist (pppoe_server_periodic_tick env now_ms st) =
        h1 @ concat (map (\<lambda>s. disconnect_commands (as_ifname s)) (filter (\<lambda>s. \<exists>u \<in> set (users st).
          table_find u_username (as_username s) (users st) = Some u \<and>
          (\<not> u_enabled u \<or> u_expires_at u > 0 \<and> u_expires_at u \<le> env_time env (sv_hist st))) ss)))"
proof -
  have s: "synced t0 st" using assms(1) by (rule served_synced)
  then have fresh: "sv_history st = []" by (simp add: synced_def)
  have barred: "session_barred now (users st) = (\<lambda>s. \<exists>u \<in> set (users st). table_find u_username (as_username s) (users st) = Some u \<and>
      (\<not> u_enabled u \<or> u_expires_at u > 0 \<and> u_expires_at u \<le> now))" for now
    by (rule ext) (auto simp: session_barred_def user_lapsed_def dest: table_find_key split: option.split)
  have "\<exists>h1. h1 \<in> {sv_hist st, snd (write_pppoe_secrets env (sv_config st) (sv_hist st))} \<and>
      sv_hist (pppoe_server_periodic_tick env now_ms st) =
        h1 @ kick (session_barred (env_time env (sv_hist st)) (users st)) (listed env (st\<lparr>sv_hist := h1\<rparr>))"
    unfolding tick_history [OF fresh assms(4,5)] Let_def by (rule exI, rule conjI [OF _ refl]) simp
  then show ?thesis using tick_files [OF s assms(2-5)] unfolding kick_def barred by simp
qed

theorem tick_locks_out_subscribers_witness:
  "\<exists>t. 7 \<le> t \<and> t \<le> 7 \<and> files_hold (sv_hist (pppoe_server_periodic_tick (sample_bras 7) 6000
     (pppoe_server_start (sample_bras 7) sample_bras_init))) (secrets_text t [default_user 0])"
proof -
  let ?st = "pppoe_server_start (sample_bras 7) sample_bras_init"
  have "bs_enabled (sv_config ?st)" "5000 \<le> 6000 - sv_last_check_ms ?st" "users ?st = [default_user 0]"
    by (simp_all add: pppoe_server_start_def sample_bras_users Let_def)
  then show ?thesis using tick_locks_out_subscribers [OF sample_bras_served sample_bras_clock, of 7 6000] by auto
qed

text \<open>
  C39. The sessions that the installed hook records are anonymous. The hook writes its session file
  from a here-document with a quoted delimiter, which the shell does not expand. Whatever
  sessions there are, each is listed with the interface \<open>$1\<close>, the user \<open>${PEERNAME:-$USER}\<close> and
  no uptime, and unless an account has that name a tick runs no command at all: it disconnects
  nobody, also when all subscribers are expired or disabled.
\<close>

theorem hook_sessions_never_disconnected:
  assumes "served t st" "''${PEERNAME:-$USER}'' \<notin> u_username ` set (users st)"
    and hook: "\<forall>h name text. env_file env h (session_path name) = Some text \<longrightarrow>
      (\<exists>ps. text = text_lines (quoted_heredoc (ip_up_script ps)))"
  shows "(\<forall>s \<in> set (listed env st). as_ifname s = ''$1'' \<and> as_username s = ''${PEERNAME:-$USER}'' \<and> as_uptime_sec s = 0) \<and>
    (\<forall>cmd. SYSTEM cmd \<in> set (sv_hist (pppoe_server_periodic_tick env now_ms st)) \<longrightarrow> SYSTEM cmd \<in> set (sv_hist st))"
proof -
  have fresh: "sv_history st = []" using served_synced [OF assms(1)] by (simp add: synced_def)
  have r: "\<forall>name t. env_file env h (session_path name) = Some t \<longrightarrow> read_session t = hook_session" for h
    using hook read_hook_session by blast
  have l: "as_ifname s = ''$1'' \<and> as_username s = ''${PEERNAME:-$USER}'' \<and> as_uptime_sec s = 0"
    if "s \<in> set (listed env (st\<lparr>sv_hist := h\<rparr>))" for s h
    using listed_from [OF _ r that] fresh by (simp add: session_stats_def hook_session_def zero_session_def Let_def)
  have "kick (session_barred now (users st)) (listed env (st\<lparr>sv_hist := h\<rparr>)) = []" for now h
    using l assms(2) table_find_None [of u_username "''${PEERNAME:-$USER}''" "users st"]
    by (auto simp: kick_def session_barred_def)
  moreover have "SYSTEM cmd \<in> set (snd (write_pppoe_secrets env c h)) \<longleftrightarrow> SYSTEM cmd \<in> set h" for cmd c h
    by (simp add: write_pppoe_secrets_def Let_def)
  moreover have "pppoe_server_periodic_tick env now_ms st = st"
    if "\<not> (bs_enabled (sv_config st) \<and> 5000 \<le> now_ms - sv_last_check_ms st)"
    using that by (simp add: pppoe_server_periodic_tick_def not_le)
  ultimately have "SYSTEM cmd \<in> set (sv_hist (pppoe_server_periodic_tick env now_ms st)) \<longrightarrow> SYSTEM cmd \<in> set (sv_hist st)" for cmd
    using tick_history [OF fresh, of now_ms env]
    by (cases "bs_enabled (sv_config st) \<and> 5000 \<le> now_ms - sv_last_check_ms st") (auto simp: Let_def split: if_splits)
  then show ?thesis using l [of _ "sv_hist st"] by simp
qed

theorem hook_sessions_never_disconnected_witness:
  "listed (sample_bras 7) (pppoe_server_start (sample_bras 7) sample_bras_init) \<noteq> [] \<and>
   as_username (hd (listed (sample_bras 7) (pppoe_server_start (sample_bras 7) sample_bras_init))) = ''${PEERNAME:-$USER}''"
proof
  let ?st = "pppoe_server_start (sample_bras 7) sample_bras_init"
  show some: "listed (sample_bras 7) ?st \<noteq> []"
    using read_hook_session [of "[]"]
    by (simp add: pppoe_server_get_sessions_def sample_bras_def hook_session_def split: prod.split)
  have "\<forall>h name text. env_file (sample_bras 7) h (session_path name) = Some text \<longrightarrow>
      (\<exists>ps. text = text_lines (quoted_heredoc (ip_up_script ps)))" by (auto simp: sample_bras_def)
  moreover have "''${PEERNAME:-$USER}'' \<notin> u_username ` set (users ?st)"
    by (simp add: users_others sample_bras_users default_user_def)
  ultimately show "as_username (hd (listed (sample_bras 7) ?st)) = ''${PEERNAME:-$USER}''"
    using hook_sessions_never_disconnected [OF sample_bras_served] hd_in_set [OF some] by blast
qed

text \<open>
  C40. The export as CSV stays in its buffer but may count beyond it. For a buffer of 512 bytes or
  more and names of the sizes of their fields, nothing is written outside the buffer; what is
  written is a prefix of the header and the rows, and all of it when more than 512 bytes are
  left. The returned count is the number of bytes written as long as it is below the size of the
  buffer. Otherwise the last row was cut off, and the count is up to 158 beyond the buffer, which
  the caller sends.
\<close>

theorem export_csv_bounds:
  assumes "512 \<le> unat max_len" "unat max_len < 2000000000" "\<forall>t. length (ltime t) < 64"
    and "\<forall>u \<in> set (bs_users c). user_fits u" "length (bs_users c) \<le> MAX_PPPOE_USERS"
  shows "\<exists>t n rest. pppoe_server_export_csv ltime c max_len = Some (t, int n) \<and>
    csv_header @ csv_all ltime 0 (bs_users c) = t @ rest \<and> (n + 512 < unat max_len \<longrightarrow> rest = []) \<and>
    (if n < unat max_len then length t = n else length t = unat max_len - 1 \<and> n \<le> unat max_len + 158)"
proof -
  have len: "length csv_header = 164" by (simp add: csv_header_def)
  have "unat (max_len - 0) = unat max_len" by simp
  then have hd: "csv_append max_len csv_header ([], 0) = Some (csv_header, 164)"
    using assms(1) by (simp add: csv_append_def len)
  have "export_inv (unat max_len) (csv_header, 164)" using assms(1) by (simp add: export_inv_def len)
  moreover have "unat max_len < 2 ^ 32" using assms(2) by simp
  ultimately obtain b r where b: "csv_rows ltime max_len 0 (bs_users c) (csv_header, 164) = Some b" "export_inv (unat max_len) b"
      "csv_header @ csv_all ltime 0 (bs_users c) = fst b @ r" "unat (snd b) + 512 < unat max_len \<longrightarrow> r = []"
    using csv_rows_run [OF assms(1) _ assms(3), of csv_header 164 "bs_users c" 0] assms(4,5) by (auto simp: len)
  have "unat (snd b) < 2147483648" using b(2) assms(2) by (cases b) (auto simp: export_inv_def)
  then have "sint (ucast (snd b) :: u32) = int (unat (snd b))" by (rule sint_ucast_small)
  moreover have "max_len \<noteq> 0" using assms(1) by auto
  ultimately have "pppoe_server_export_csv ltime c max_len = Some (fst b, int (unat (snd b)))"
    by (simp only: pppoe_server_export_csv_def hd b(1) case_prod_beta if_False Option.bind.bind_lunit option.map)
  moreover have "if unat (snd b) < unat max_len then length (fst b) = unat (snd b)
      else length (fst b) = unat max_len - 1 \<and> unat (snd b) \<le> unat max_len + 158"
    using b(2) by (cases b) (auto simp: export_inv_def)
  ultimately show ?thesis using b(3,4) by blast
qed

definition sample_long_user :: pppoe_user where
  "sample_long_user = \<lparr>u_username = replicate 63 (CHR ''a''), u_password = replicate 63 (CHR ''b''),
     u_profile = replicate 63 (CHR ''c''), u_static_ip = replicate 15 (CHR ''1''), u_comment = replicate 127 (CHR ''d''), u_created_at = 0,
     u_expires_at = 0, u_enabled = True\<rparr>"

theorem export_csv_bounds_witness:
  "\<exists>t. pppoe_server_export_csv (\<lambda>_. []) (sample_bras_config\<lparr>bs_users := [sample_long_user]\<rparr>) 677 = Some (t, 690) \<and>
     length t = 676"
proof -
  let ?c = "sample_bras_config\<lparr>bs_users := [sample_long_user]\<rparr>"
  have row: "length (csv_row (\<lambda>_. []) 0 sample_long_user) = 526"
    by (simp add: csv_row_def sample_long_user_def dec_string.simps [of "Suc 0"])
  have "length csv_header = 164" by (simp add: csv_header_def)
  then have "\<exists>t. pppoe_server_export_csv (\<lambda>_. []) ?c 677 = Some (t, 690)"
    by (simp add: pppoe_server_export_csv_def csv_append_def row)
  moreover have "user_fits sample_long_user" by (simp add: user_fits_def sample_long_user_def)
  ultimately show ?thesis using export_csv_bounds [of 677 "\<lambda>_. []" ?c] by auto
qed

end
