(* ===== verification/Pppoe_Manager.thy ===== *)
theory Pppoe_Manager
  imports Wan_State
begin

text \<open>
  The PPPoE client sessions of \<open>src/pppoe_manager.c\<close>: dialling, supervision of the
  \<open>pppd\<close> processes and reconnection with exponential backoff. The tick is
  parametrised by its two callbacks, as in the code; the interface it needs of
  them is the locale \<open>pppoe_callbacks\<close>, which the WAN manager's callbacks satisfy.
\<close>

section \<open>Definitions\<close>

definition PPPOE_INITIAL_BACKOFF_S :: u32 where "PPPOE_INITIAL_BACKOFF_S = 15"
definition PPPOE_MAX_BACKOFF_S :: u32 where "PPPOE_MAX_BACKOFF_S = 120"

definition init_session :: "nat \<Rightarrow> pppoe_session" where
  "init_session i = \<lparr>wan_index = i, ps_state = PPPOE_STATE_IDLE, pppd_pid = -1,
     opts_path = cstr_copy 64 (''/tmp/fluxwan_ppp'' @ dec_string i @ ''.opts''),
     pid_file = cstr_copy 64 (''/tmp/fluxwan_ppp'' @ dec_string i @ ''.pid''),
     ppp_ifname = [], macvlan_ifname = [], virtual_mac = [], assigned_ip = 0, remote_ip = 0,
     assigned_ip_str = [], remote_ip_str = [], dial_start_ms = 0, connected_since_ms = 0,
     next_retry_ms = 0, last_check_ms = 0, backoff_s = PPPOE_INITIAL_BACKOFF_S,
     reconnect_attempts = 0, last_username = [], last_password = []\<rparr>"

definition pppoe_manager_init :: pppoe_manager where
  "pppoe_manager_init = \<lparr>sessions = map init_session [0..<MAX_WANS], active_count = 0\<rparr>"

definition sess_at :: "wan_manager \<Rightarrow> nat \<Rightarrow> pppoe_session" where
  "sess_at wm i = sessions (the (wm_pppoe wm)) ! i"

definition upd_sess :: "nat \<Rightarrow> (pppoe_session \<Rightarrow> pppoe_session) \<Rightarrow> wan_manager \<Rightarrow> wan_manager" where
  "upd_sess i f wm = wm\<lparr>wm_pppoe :=
     map_option (\<lambda>p. p\<lparr>sessions := (sessions p)[i := f (sessions p ! i)]\<rparr>) (wm_pppoe wm)\<rparr>"

definition pppoe_get_session :: "nat \<Rightarrow> pppoe_manager \<Rightarrow> pppoe_session option" where
  "pppoe_get_session i p = (if i < MAX_WANS then Some (sessions p ! i) else None)"

text \<open>The address of a PPP interface and of its peer, from the output of \<open>ip addr\<close>.\<close>

definition first_line :: "string option \<Rightarrow> string" where
  "first_line out = (case out of None \<Rightarrow> [] | Some s \<Rightarrow> takeWhile (\<lambda>c. c \<noteq> NL) (fgets_line 63 s))"

abbreviation ppp_addr_cmd :: "string \<Rightarrow> string \<Rightarrow> string" where
  "ppp_addr_cmd ifname field \<equiv> cstr_copy 256 (''ip -4 -o addr show '' @ ifname @
     '' 2>/dev/null | awk '' @ [char_of (39::nat)] @ ''{print $'' @ field @ ''}'' @ [char_of (39::nat)] @
     '' | cut -d/ -f1'')"

definition peer_fallback :: "string \<Rightarrow> string" where
  "peer_fallback s =
     (if CHR ''.'' \<in> set s then rev (dropWhile (\<lambda>c. c \<noteq> CHR ''.'') (rev s)) @ ''1'' else s)"

definition get_ppp_interface_ip ::
  "wan_env \<Rightarrow> history \<Rightarrow> string \<Rightarrow> (u32 \<times> u32 \<times> string \<times> string) option" where
  "get_ppp_interface_ip env h ifname =
     (let ip_buf = first_line (env_popen_line env h (ppp_addr_cmd ifname ''4''))
      in if ip_buf = [] then None
         else let gw_buf = first_line (env_popen_line env h (ppp_addr_cmd ifname ''6''));
                  gw_buf = (if gw_buf = [] then peer_fallback ip_buf else gw_buf)
              in case inet_pton ip_buf of
                   None \<Rightarrow> None
                 | Some ip \<Rightarrow>
                     (case inet_pton gw_buf of
                        Some gw \<Rightarrow> Some (ntohl ip, ntohl gw, cstr_copy 20 ip_buf, cstr_copy 20 gw_buf)
                      | None \<Rightarrow> Some (ntohl ip, ntohl ip, cstr_copy 20 ip_buf, cstr_copy 20 ip_buf)))"

definition CONSUMER_ROUTER_OUIS :: "(u8 \<times> u8 \<times> u8) list" where
  "CONSUMER_ROUTER_OUIS =
     [(0xD8, 0x07, 0xB6), (0x50, 0xC7, 0xBF), (0xE8, 0x48, 0xB8), (0xB0, 0x4E, 0x26),
      (0x30, 0xDE, 0x4B), (0xEC, 0x08, 0x6B), (0x14, 0xEB, 0xB6), (0x60, 0x32, 0xB1),
      (0xCC, 0x2D, 0x21), (0x50, 0x2B, 0x73), (0x04, 0x95, 0xE6), (0xC8, 0x3A, 0x35),
      (0xD8, 0x32, 0x14), (0x14, 0xD6, 0x4D), (0x28, 0x10, 0x7B), (0x00, 0x18, 0xE7),
      (0xC4, 0xA8, 0x1D), (0x20, 0xCF, 0x30), (0xB0, 0xC5, 0x54)]"

definition hash_chars :: "u32 \<Rightarrow> u32 \<Rightarrow> string \<Rightarrow> u32" where
  "hash_chars h prime s = foldl (\<lambda>h c. (h XOR of_char c) * prime) h s"

definition hex_digit :: "nat \<Rightarrow> char" where
  "hex_digit d = (if d < 10 then digit_char d else char_of (87 + d))"

abbreviation fmt_02x :: "u8 \<Rightarrow> string" where
  "fmt_02x b \<equiv> [hex_digit (unat b div 16), hex_digit (unat b mod 16)]"

definition virtual_mac_bytes :: "nat \<Rightarrow> string \<Rightarrow> string \<Rightarrow> u8 list" where
  "virtual_mac_bytes i parent username =
     (let h1 = hash_chars 0x811c9dc5 0x01000193 parent;
          h2 = hash_chars 0x9e3779b9 0x85ebca6b username;
          w = of_nat (i + 1) :: u32;
          mixed = h1 XOR (h2 * 31) XOR (w * 0x45d9f3b);
          mixed = mixed XOR drop_bit 16 mixed;
          mixed = mixed * 0x45d9f3b;
          mixed = mixed XOR drop_bit 16 mixed;
          n = length CONSUMER_ROUTER_OUIS;
          (b1, b2, b3) = CONSUMER_ROUTER_OUIS ! ((unat (w - 1) + unat mixed mod n) mod n);
          low_mix = mixed XOR (w * 0x27d4eb2d);
          low_mix = (low_mix XOR drop_bit 15 low_mix) * 0x85ebca6b;
          low_mix = (low_mix XOR drop_bit 13 low_mix) * 0xc2b2ae35;
          low_mix = low_mix XOR drop_bit 16 low_mix;
          b4 = ucast (drop_bit 16 low_mix);
          b5 = ucast (drop_bit 8 low_mix);
          b6 = ucast low_mix;
          b6 = (if b6 = 0x00 then 0x12 else b6);
          b6 = (if b6 = 0xFF then 0xFE else b6)
      in [b1, b2, b3, b4, b5, b6])"

definition generate_unique_virtual_mac :: "nat \<Rightarrow> string \<Rightarrow> string \<Rightarrow> string" where
  "generate_unique_virtual_mac i parent username =
     (case map fmt_02x (virtual_mac_bytes i parent username) of
        [] \<Rightarrow> [] | b # bs \<Rightarrow> cstr_copy 18 (b @ concat (map (\<lambda>x. '':'' @ x) bs)))"

definition kill_pppd :: "nat \<Rightarrow> wan_manager \<Rightarrow> wan_manager" where
  "kill_pppd i wm =
     (let pid = pppd_pid (sess_at wm i)
      in if pid > 0
         then upd_sess i (\<lambda>s. s\<lparr>pppd_pid := -1\<rparr>)
                (os (WAITPID pid) (os (KILL pid ''SIGKILL'') (os (KILL pid ''SIGTERM'') wm)))
         else wm)"

definition delete_macvlan :: "string \<Rightarrow> wan_manager \<Rightarrow> wan_manager" where
  "delete_macvlan mv wm =
     (if mv \<noteq> [] then os (SYSTEM (cstr_copy 256 (''ip link delete '' @ mv @ '' 2>/dev/null || true''))) wm
      else wm)"

definition idle_session :: "pppoe_session \<Rightarrow> pppoe_session" where
  "idle_session s = s\<lparr>ps_state := PPPOE_STATE_IDLE, assigned_ip := 0, remote_ip := 0,
     assigned_ip_str := [], remote_ip_str := []\<rparr>"

definition pppoe_session_stop :: "nat \<Rightarrow> wan_manager \<Rightarrow> wan_manager" where
  "pppoe_session_stop i wm =
     (if i \<ge> MAX_WANS then wm
      else
        let wm = kill_pppd i wm;
            wm = delete_macvlan (macvlan_ifname (sess_at wm i)) wm;
            wm = os (UNLINK (opts_path (sess_at wm i))) wm;
            wm = os (UNLINK (pid_file (sess_at wm i))) wm
        in upd_sess i idle_session wm)"

text \<open>Appending to a file that cannot be opened does nothing.\<close>

definition append_file :: "wan_env \<Rightarrow> string \<Rightarrow> string \<Rightarrow> wan_manager \<Rightarrow> wan_manager" where
  "append_file env path txt wm =
     (if env_can_write env (wm_history wm) path then os (APPEND_FILE path txt) wm else wm)"

definition append_secret :: "wan_env \<Rightarrow> string \<Rightarrow> wan_config \<Rightarrow> wan_manager \<Rightarrow> wan_manager" where
  "append_secret env path wan wm =
     (if env_can_write env (wm_history wm) path
      then os (CHMOD path) (os (APPEND_FILE path
             ([CHR 0x22] @ ppp_username wan @ [CHR 0x22] @ '' * '' @ [CHR 0x22] @ ppp_password wan @
              [CHR 0x22] @ '' *'' @ [NL])) wm)
      else wm)"

definition pppd_options :: "nat \<Rightarrow> string \<Rightarrow> wan_config \<Rightarrow> string" where
  "pppd_options i mv wan = concat (map (\<lambda>l. l @ [NL])
     [''plugin /usr/lib/pppd/2.5.0/pppoe.so'', ''nic-'' @ mv,
      ''user '' @ [CHR 0x22] @ ppp_username wan @ [CHR 0x22],
      ''password '' @ [CHR 0x22] @ ppp_password wan @ [CHR 0x22],
      ''unit '' @ dec_string i, ''noauth'', ''nodefaultroute'', ''usepeerdns'', ''persist'',
      ''maxfail 0'', ''holdoff 5'', ''mtu 1492'', ''mru 1492'', ''lcp-echo-interval 10'',
      ''lcp-echo-failure 3'', ''linkname ppp'' @ dec_string i, ''hide-password'', ''noaccomp'',
      ''nopcomp'', ''novj'', ''nobsdcomp'', ''nodeflate'', ''noipx'', ''nodetach''])"

definition session_mac :: "nat \<Rightarrow> wan_config \<Rightarrow> string" where
  "session_mac i wan =
     (if length (custom_mac wan) \<ge> 17 then cstr_copy 18 (custom_mac wan)
      else generate_unique_virtual_mac i (w_name wan) (ppp_username wan))"

abbreviation session_macvlan :: "nat \<Rightarrow> string" where
  "session_macvlan i \<equiv> cstr_copy 16 (''mv_wan'' @ dec_string i)"

definition dial_session :: "nat \<Rightarrow> wan_config \<Rightarrow> pppoe_session \<Rightarrow> pppoe_session" where
  "dial_session i wan s = s\<lparr>last_username := cstr_copy 64 (ppp_username wan),
     last_password := cstr_copy 64 (ppp_password wan),
     ppp_ifname := cstr_copy 16 (''ppp'' @ dec_string i),
     macvlan_ifname := session_macvlan i, virtual_mac := session_mac i wan\<rparr>"

definition dial_prepare :: "wan_env \<Rightarrow> nat \<Rightarrow> wan_config \<Rightarrow> wan_manager \<Rightarrow> wan_manager" where
  "dial_prepare env i wan wm =
     (let mac = session_mac i wan; mv = session_macvlan i;
          wm = upd_sess i (dial_session i wan) wm;
          wm = os (SYSTEM (cstr_copy 256 (''ip link delete '' @ mv @ '' 2>/dev/null || true''))) wm;
          wm = os (SYSTEM (cstr_copy 256 (''ip link add link '' @ w_name wan @ '' name '' @ mv @
                 '' address '' @ mac @ '' type macvlan mode private 2>/dev/null''))) wm;
          wm = os (SYSTEM (cstr_copy 256 (''ip link set '' @ mv @ '' up 2>/dev/null''))) wm;
          wm = os (MKDIR ''/etc/ppp'') wm;
          wm = append_file env ''/etc/ppp/options'' (''plugin /usr/lib/pppd/2.5.0/pppoe.so'' @ [NL]) wm;
          wm = append_secret env ''/etc/ppp/pap-secrets'' wan wm
      in append_secret env ''/etc/ppp/chap-secrets'' wan wm)"

definition dialing_session :: "int \<Rightarrow> u64 \<Rightarrow> pppoe_session \<Rightarrow> pppoe_session" where
  "dialing_session pid now s = s\<lparr>pppd_pid := pid, ps_state := PPPOE_STATE_DIALING,
     dial_start_ms := now, next_retry_ms := 0\<rparr>"

text \<open>The launch of \<open>pppd\<close>, after the options file is written.\<close>

definition launch_pppd :: "wan_env \<Rightarrow> nat \<Rightarrow> wan_manager \<Rightarrow> int \<times> wan_manager" where
  "launch_pppd env i wm =
     (let s = sess_at wm i; pid = env_fork env (wm_history wm)
      in if pid < 0 then (-1, wm)
         else
           let wm = os (EXEC [''pppd'', ''file'', opts_path s]) wm;
               wm = upd_sess i (dialing_session pid (env_now_ms env (wm_history wm))) wm;
               wm = (if env_can_write env (wm_history wm) (pid_file s)
                     then os (WRITE_FILE (pid_file s) (fmt_d pid @ [NL])) wm else wm)
           in (0, wm))"

definition pppoe_session_start ::
  "wan_env \<Rightarrow> nat \<Rightarrow> wan_config \<Rightarrow> wan_manager \<Rightarrow> int \<times> wan_manager" where
  "pppoe_session_start env i wan wm =
     (if i \<ge> MAX_WANS then (-1, wm)
      else if ps_state (sess_at wm i) = PPPOE_STATE_CONNECTED \<or> ps_state (sess_at wm i) = PPPOE_STATE_DIALING
      then (0, wm)
      else
        let wm = dial_prepare env i wan (pppoe_session_stop i wm);
            s = sess_at wm i
        in if \<not> env_can_write env (wm_history wm) (opts_path s) then (-1, wm)
           else launch_pppd env i
                  (os (WRITE_FILE (opts_path s) (pppd_options i (macvlan_ifname s) wan)) wm))"

definition pppoe_manager_start_all :: "wan_env \<Rightarrow> wan_manager \<Rightarrow> wan_manager" where
  "pppoe_manager_start_all env wm =
     foldl (\<lambda>wm i. if w_type (wan_at wm i) = WAN_TYPE_PPPOE \<and> w_enabled (wan_at wm i)
                   then snd (pppoe_session_start env i (wan_at wm i) wm) else wm)
       wm [0..<wan_count (wm_config wm)]"

type_synonym on_connected_fn = "nat \<Rightarrow> string \<Rightarrow> u32 \<Rightarrow> u32 \<Rightarrow> wan_manager \<Rightarrow> wan_manager"
type_synonym on_disconnected_fn = "nat \<Rightarrow> string \<Rightarrow> int \<Rightarrow> wan_manager \<Rightarrow> wan_manager"

text \<open>Credentials changed while a session is up: the session is stopped.\<close>

definition tick_credentials :: "wan_env \<Rightarrow> nat \<Rightarrow> wan_manager \<Rightarrow> wan_manager" where
  "tick_credentials env i wm =
     (let s = sess_at wm i; w = wan_at wm i
      in if ps_state s \<in> {PPPOE_STATE_CONNECTED, PPPOE_STATE_DIALING, PPPOE_STATE_AUTH} \<and>
            (last_username s \<noteq> ppp_username w \<or> last_password s \<noteq> ppp_password w)
         then upd_sess i (\<lambda>s. s\<lparr>ps_state := PPPOE_STATE_IDLE\<rparr>) (pppoe_session_stop i
                (wan_manager_add_log env ''INFO'' (''PPPoE WAN'' @ dec_string (i + 1) @
                   '' credentials updated ('' @ ppp_username w @ ''). Re-authenticating session...'') wm))
         else wm)"

definition next_backoff :: "u32 \<Rightarrow> u32" where
  "next_backoff b = (if b * 2 > PPPOE_MAX_BACKOFF_S then PPPOE_MAX_BACKOFF_S else b * 2)"

definition exited_session :: "u64 \<Rightarrow> pppoe_session \<Rightarrow> pppoe_session" where
  "exited_session now s = s\<lparr>pppd_pid := -1, ps_state := PPPOE_STATE_DISCONNECTED,
     reconnect_attempts := reconnect_attempts s + 1, backoff_s := next_backoff (backoff_s s),
     next_retry_ms := now + ucast (backoff_s s) * 1000\<rparr>"

definition tick_process ::
  "wan_env \<Rightarrow> on_disconnected_fn \<Rightarrow> u64 \<Rightarrow> nat \<Rightarrow> wan_manager \<Rightarrow> wan_manager" where
  "tick_process env on_disconnected now i wm =
     (let pid = pppd_pid (sess_at wm i)
      in if pid > 0
         then let exited = env_exited env (wm_history wm) pid; wm = os (WAITPID pid) wm
              in if exited
                 then let wm = upd_sess i (exited_session now) wm; s = sess_at wm i
                      in on_disconnected i (ppp_ifname s) (reconnect_attempts s) wm
                 else wm
         else wm)"

definition connected_session :: "u64 \<Rightarrow> u32 \<times> u32 \<times> string \<times> string \<Rightarrow> pppoe_session \<Rightarrow> pppoe_session" where
  "connected_session now addr s =
     (case addr of (ip, gw, ip_str, gw_str) \<Rightarrow>
        s\<lparr>assigned_ip := ip, remote_ip := gw, assigned_ip_str := cstr_copy 20 ip_str,
          remote_ip_str := cstr_copy 20 gw_str, ps_state := PPPOE_STATE_CONNECTED,
          connected_since_ms := now, backoff_s := PPPOE_INITIAL_BACKOFF_S, reconnect_attempts := 0\<rparr>)"

definition connected_wan :: "u32 \<times> u32 \<times> string \<times> string \<Rightarrow> wan_config \<Rightarrow> wan_config" where
  "connected_wan addr w =
     (case addr of (ip, gw, ip_str, gw_str) \<Rightarrow>
        let w = w\<lparr>w_ip_addr := htonl ip, w_gateway := htonl gw, w_netmask := htonl 0xFFFFFFFF\<rparr>
        in if probe_target w = [] \<or> probe_target_ip w = 0
           then w\<lparr>probe_target := cstr_copy 64 gw_str, probe_target_ip := htonl gw\<rparr> else w)"

definition tick_dialing :: "wan_env \<Rightarrow> on_connected_fn \<Rightarrow> u64 \<Rightarrow> nat \<Rightarrow> wan_manager \<Rightarrow> wan_manager" where
  "tick_dialing env on_connected now i wm =
     (let ifname = ppp_ifname (sess_at wm i)
      in case get_ppp_interface_ip env (wm_history wm) ifname of
           Some (ip, gw, ip_str, gw_str) \<Rightarrow>
             on_connected i ifname ip gw
               (upd_cfg_wan i (connected_wan (ip, gw, ip_str, gw_str))
                 (upd_sess i (connected_session now (ip, gw, ip_str, gw_str)) wm))
         | None \<Rightarrow>
             if now - dial_start_ms (sess_at wm i) > 45000
             then upd_sess i (\<lambda>s. s\<lparr>ps_state := PPPOE_STATE_RECONNECTING, next_retry_ms := now + 5000\<rparr>)
                    (pppoe_session_stop i wm)
             else wm)"

definition tick_connected ::
  "wan_env \<Rightarrow> on_disconnected_fn \<Rightarrow> u64 \<Rightarrow> nat \<Rightarrow> wan_manager \<Rightarrow> wan_manager" where
  "tick_connected env on_disconnected now i wm =
     (if now - last_check_ms (sess_at wm i) \<ge> 5000
      then let wm = upd_sess i (\<lambda>s. s\<lparr>last_check_ms := now\<rparr>) wm; s = sess_at wm i
           in if get_ppp_interface_ip env (wm_history wm) (ppp_ifname s) = None
              then on_disconnected i (ppp_ifname s) (reconnect_attempts s)
                     (upd_sess i (\<lambda>s. s\<lparr>ps_state := PPPOE_STATE_DISCONNECTED, next_retry_ms := now + 5000\<rparr>) wm)
              else wm
      else wm)"

definition tick_state :: "wan_env \<Rightarrow> on_connected_fn \<Rightarrow> on_disconnected_fn \<Rightarrow> u64 \<Rightarrow> nat \<Rightarrow>
    wan_manager \<Rightarrow> wan_manager" where
  "tick_state env on_connected on_disconnected now i wm =
     (case ps_state (sess_at wm i) of
        PPPOE_STATE_IDLE \<Rightarrow> snd (pppoe_session_start env i (wan_at wm i) wm)
      | PPPOE_STATE_DIALING \<Rightarrow> tick_dialing env on_connected now i wm
      | PPPOE_STATE_AUTH \<Rightarrow> tick_dialing env on_connected now i wm
      | PPPOE_STATE_CONNECTED \<Rightarrow> tick_connected env on_disconnected now i wm
      | PPPOE_STATE_DISCONNECTED \<Rightarrow>
          if now \<ge> next_retry_ms (sess_at wm i) \<and> w_enabled (wan_at wm i)
          then snd (pppoe_session_start env i (wan_at wm i) wm) else wm
      | PPPOE_STATE_RECONNECTING \<Rightarrow>
          if now \<ge> next_retry_ms (sess_at wm i) \<and> w_enabled (wan_at wm i)
          then snd (pppoe_session_start env i (wan_at wm i) wm) else wm
      | PPPOE_STATE_STOPPING \<Rightarrow> pppoe_session_stop i wm)"

definition tick_wan :: "wan_env \<Rightarrow> on_connected_fn \<Rightarrow> on_disconnected_fn \<Rightarrow> u64 \<Rightarrow>
    wan_manager \<Rightarrow> nat \<Rightarrow> wan_manager" where
  "tick_wan env on_connected on_disconnected now wm i =
     (if w_type (wan_at wm i) \<noteq> WAN_TYPE_PPPOE then wm
      else if \<not> w_enabled (wan_at wm i)
      then if ps_state (sess_at wm i) \<noteq> PPPOE_STATE_IDLE \<and> ps_state (sess_at wm i) \<noteq> PPPOE_STATE_STOPPING
           then pppoe_session_stop i wm else wm
      else tick_state env on_connected on_disconnected now i
             (tick_process env on_disconnected now i (tick_credentials env i wm)))"

definition pppoe_manager_tick ::
  "wan_env \<Rightarrow> on_connected_fn \<Rightarrow> on_disconnected_fn \<Rightarrow> wan_manager \<Rightarrow> wan_manager" where
  "pppoe_manager_tick env on_connected on_disconnected wm =
     foldl (tick_wan env on_connected on_disconnected (env_now_ms env (wm_history wm)))
       wm [0..<wan_count (wm_config wm)]"

definition pppoe_manager_destroy :: "wan_manager \<Rightarrow> wan_manager" where
  "pppoe_manager_destroy wm =
     (foldl (\<lambda>wm i. pppoe_session_stop i wm) wm [0..<MAX_WANS])\<lparr>wm_pppoe := None\<rparr>"

section \<open>The session invariant\<close>

text \<open>
  A dialling or connected session owns a process, an idle one owns neither a process
  nor an address, and the backoff is one of the four documented delays.
\<close>

definition session_wf :: "pppoe_session \<Rightarrow> bool" where
  "session_wf s \<longleftrightarrow> backoff_s s \<in> {15, 30, 60, 120} \<and> (pppd_pid s = -1 \<or> pppd_pid s > 0) \<and>
     (case ps_state s of
        PPPOE_STATE_IDLE \<Rightarrow> pppd_pid s = -1 \<and> assigned_ip s = 0
      | PPPOE_STATE_DIALING \<Rightarrow> pppd_pid s > 0
      | PPPOE_STATE_CONNECTED \<Rightarrow> pppd_pid s > 0
      | PPPOE_STATE_DISCONNECTED \<Rightarrow> True
      | PPPOE_STATE_RECONNECTING \<Rightarrow> pppd_pid s = -1
      | PPPOE_STATE_AUTH \<Rightarrow> False
      | PPPOE_STATE_STOPPING \<Rightarrow> False)"

text \<open>The session table has one entry per WAN slot.\<close>

definition pppoe_table :: "wan_manager \<Rightarrow> bool" where
  "pppoe_table wm \<longleftrightarrow> (case wm_pppoe wm of None \<Rightarrow> False | Some p \<Rightarrow> length (sessions p) = MAX_WANS)"

definition pppoe_inv :: "wan_manager \<Rightarrow> bool" where
  "pppoe_inv wm \<longleftrightarrow> pppoe_table wm \<and> (\<forall>i < MAX_WANS. session_wf (sess_at wm i))"

text \<open>What the administrator decides about a link: its type and whether it is enabled.\<close>

definition admin :: "wan_manager \<Rightarrow> (wan_type \<times> bool) list" where
  "admin wm = map (\<lambda>w. (w_type w, w_enabled w)) (wans (wm_config wm))"

text \<open>In the parent process \<open>fork\<close> never returns 0.\<close>

definition fork_ok :: "wan_env \<Rightarrow> bool" where
  "fork_ok env \<longleftrightarrow> (\<forall>h. env_fork env h \<noteq> 0)"

lemma wm_pppoe_updates [simp]:
  "wm_pppoe (os a wm) = wm_pppoe wm"
  "wm_pppoe (wan_manager_add_log env l m wm) = wm_pppoe wm"
  "wm_pppoe (upd_cfg_wan i g wm) = wm_pppoe wm"
  "wm_pppoe (append_file env path txt wm) = wm_pppoe wm"
  "wm_pppoe (append_secret env path wan wm) = wm_pppoe wm"
  "wm_pppoe (delete_macvlan mv wm) = wm_pppoe wm"
proof -
  show os: "wm_pppoe (os a wm) = wm_pppoe wm" for a wm by (simp add: os_def)
  show "wm_pppoe (wan_manager_add_log env l m wm) = wm_pppoe wm"
    "wm_pppoe (upd_cfg_wan i g wm) = wm_pppoe wm"
    by (simp_all add: wan_manager_add_log_def upd_cfg_wan_def Let_def)
  show "wm_pppoe (append_file env path txt wm) = wm_pppoe wm"
    "wm_pppoe (append_secret env path wan wm) = wm_pppoe wm"
    "wm_pppoe (delete_macvlan mv wm) = wm_pppoe wm"
    by (simp_all only: append_file_def append_secret_def delete_macvlan_def os simp_thms split: if_split)
qed

lemma wm_config_updates [simp]:
  "wm_config (os a wm) = wm_config wm"
  "wm_config (wan_manager_add_log env l m wm) = wm_config wm"
  "wm_config (upd_sess i f wm) = wm_config wm"
  "wm_config (append_file env path txt wm) = wm_config wm"
  "wm_config (append_secret env path wan wm) = wm_config wm"
  "wm_config (delete_macvlan mv wm) = wm_config wm"
  "wm_config (kill_pppd i wm) = wm_config wm"
proof -
  show os: "wm_config (os a wm) = wm_config wm" for a wm by (simp add: os_def)
  show "wm_config (wan_manager_add_log env l m wm) = wm_config wm"
    by (simp add: wan_manager_add_log_def Let_def)
  show sess: "wm_config (upd_sess i f wm) = wm_config wm" for i f wm
    by (simp add: upd_sess_def)
  show "wm_config (append_file env path txt wm) = wm_config wm"
    "wm_config (append_secret env path wan wm) = wm_config wm"
    "wm_config (delete_macvlan mv wm) = wm_config wm"
    "wm_config (kill_pppd i wm) = wm_config wm"
    by (simp_all only: append_file_def append_secret_def delete_macvlan_def kill_pppd_def Let_def os sess simp_thms
        split: if_split)
qed

lemma wm_pppoe_upd_sess:
  "wm_pppoe (upd_sess i f wm) =
     map_option (\<lambda>p. p\<lparr>sessions := (sessions p)[i := f (sessions p ! i)]\<rparr>) (wm_pppoe wm)"
  by (simp add: upd_sess_def)

lemma pppoe_state_cong:
  "wm_pppoe wm' = wm_pppoe wm \<Longrightarrow> sess_at wm' = sess_at wm"
  "wm_pppoe wm' = wm_pppoe wm \<Longrightarrow> pppoe_table wm' = pppoe_table wm"
  "wm_pppoe wm' = wm_pppoe wm \<Longrightarrow> pppoe_inv wm' = pppoe_inv wm"
  by (simp_all add: sess_at_def pppoe_table_def pppoe_inv_def fun_eq_iff)

lemma sess_at_updates [simp]:
  "sess_at (os a wm) = sess_at wm"
  "sess_at (wan_manager_add_log env l m wm) = sess_at wm"
  "sess_at (upd_cfg_wan k g wm) = sess_at wm"
  "sess_at (append_file env path txt wm) = sess_at wm"
  "sess_at (append_secret env path wan wm) = sess_at wm"
  "sess_at (delete_macvlan mv wm) = sess_at wm"
  by (rule pppoe_state_cong, simp)+

lemma pppoe_table_updates [simp]:
  "pppoe_table (os a wm) = pppoe_table wm"
  "pppoe_table (wan_manager_add_log env l m wm) = pppoe_table wm"
  "pppoe_table (upd_cfg_wan k g wm) = pppoe_table wm"
  "pppoe_table (append_file env path txt wm) = pppoe_table wm"
  "pppoe_table (append_secret env path wan wm) = pppoe_table wm"
  "pppoe_table (delete_macvlan mv wm) = pppoe_table wm"
  by (rule pppoe_state_cong, simp)+

lemma pppoe_table_upd_sess [simp]: "pppoe_table (upd_sess i f wm) = pppoe_table wm"
  by (simp add: pppoe_table_def upd_sess_def split: option.splits)

lemma pppoe_table_kill [simp]: "pppoe_table (kill_pppd i wm) = pppoe_table wm"
  by (simp add: kill_pppd_def Let_def)

lemma sess_at_upd_sess:
  "pppoe_table wm \<Longrightarrow> i < MAX_WANS \<Longrightarrow>
   sess_at (upd_sess i f wm) j = (if j = i then f (sess_at wm i) else sess_at wm j)"
  by (auto simp: pppoe_table_def sess_at_def upd_sess_def split: option.splits)

lemma sess_at_kill:
  "pppoe_table wm \<Longrightarrow> i < MAX_WANS \<Longrightarrow> sess_at (kill_pppd i wm) j =
     (if j = i \<and> pppd_pid (sess_at wm i) > 0 then (sess_at wm i)\<lparr>pppd_pid := -1\<rparr> else sess_at wm j)"
  by (simp add: kill_pppd_def Let_def sess_at_upd_sess)

lemma pppoe_inv_init: "wm_pppoe wm = Some pppoe_manager_init \<Longrightarrow> pppoe_inv wm"
  by (auto simp: pppoe_inv_def pppoe_table_def sess_at_def pppoe_manager_init_def session_wf_def
      init_session_def PPPOE_INITIAL_BACKOFF_S_def)

lemma next_backoff_wf: "b \<in> {15, 30, 60, 120} \<Longrightarrow> next_backoff b \<in> {15, 30, 60, 120}"
  by (auto simp: next_backoff_def PPPOE_MAX_BACKOFF_S_def)

section \<open>Stopping and starting\<close>

definition stopped_session :: "pppoe_session \<Rightarrow> pppoe_session" where
  "stopped_session s = idle_session (if pppd_pid s > 0 then s\<lparr>pppd_pid := -1\<rparr> else s)"

lemma pppoe_session_stop_effect:
  assumes "pppoe_table wm" "i < MAX_WANS"
  shows "pppoe_table (pppoe_session_stop i wm)" "wm_config (pppoe_session_stop i wm) = wm_config wm"
    and "sess_at (pppoe_session_stop i wm) j = (if j = i then stopped_session (sess_at wm i) else sess_at wm j)"
  using assms by (simp_all add: pppoe_session_stop_def Let_def sess_at_upd_sess sess_at_kill stopped_session_def)

lemma stopped_session_wf:
  "session_wf s \<Longrightarrow> session_wf (stopped_session s) \<and> ps_state (stopped_session s) = PPPOE_STATE_IDLE \<and>
     pppd_pid (stopped_session s) = -1"
  by (auto simp: session_wf_def stopped_session_def idle_session_def)

lemma pppoe_inv_D:
  "pppoe_inv wm \<Longrightarrow> pppoe_table wm" "pppoe_inv wm \<Longrightarrow> i < MAX_WANS \<Longrightarrow> session_wf (sess_at wm i)"
  by (simp_all add: pppoe_inv_def)

text \<open>
  A change of session \<open>i\<close> alone, from one well-formed session to another, keeps the
  invariant.
\<close>

lemma pppoe_inv_change:
  assumes "pppoe_inv wm" "pppoe_table wm'" "\<And>j. sess_at wm' j = (if j = i then s else sess_at wm j)"
    and "session_wf s"
  shows "pppoe_inv wm'"
  using assms by (simp add: pppoe_inv_def)

lemma dial_prepare_pppoe:
  "wm_pppoe (dial_prepare env i wan wm) = wm_pppoe (upd_sess i (dial_session i wan) wm)"
  by (simp only: dial_prepare_def Let_def wm_pppoe_updates)

lemma dial_prepare_config [simp]: "wm_config (dial_prepare env i wan wm) = wm_config wm"
  by (simp only: dial_prepare_def Let_def wm_config_updates)

lemma dial_session_wf:
  "session_wf s \<Longrightarrow> session_wf (dial_session i wan s)"
  "backoff_s (dial_session i wan s) = backoff_s s" "ps_state (dial_session i wan s) = ps_state s"
  by (simp_all add: session_wf_def dial_session_def split: pppoe_state.splits)

lemma launch_pppd_effect:
  assumes inv: "pppoe_inv wm" "i < MAX_WANS" and fork: "fork_ok env"
  shows "pppoe_inv (snd (launch_pppd env i wm)) \<and> wm_config (snd (launch_pppd env i wm)) = wm_config wm \<and>
    (\<forall>j. j \<noteq> i \<longrightarrow> sess_at (snd (launch_pppd env i wm)) j = sess_at wm j)"
proof (cases "env_fork env (wm_history wm) < 0")
  case True
  then show ?thesis using inv by (simp add: launch_pppd_def Let_def)
next
  case False
  let ?pid = "env_fork env (wm_history wm)"
  have "?pid > 0" using False fork by (metis fork_ok_def linorder_cases)
  define t where "t = env_now_ms env (wm_history (os (EXEC [''pppd'', ''file'', opts_path (sess_at wm i)]) wm))"
  have eq: "wm_pppoe (snd (launch_pppd env i wm)) = wm_pppoe (upd_sess i (dialing_session ?pid t) wm)"
    "wm_config (snd (launch_pppd env i wm)) = wm_config wm"
    using False by (simp_all add: launch_pppd_def Let_def t_def [symmetric] wm_pppoe_upd_sess)
  have wf: "session_wf (dialing_session ?pid t (sess_at wm i))"
    using pppoe_inv_D(2) [OF inv] \<open>?pid > 0\<close> by (simp add: session_wf_def dialing_session_def)
  have sess: "sess_at (snd (launch_pppd env i wm)) j =
      (if j = i then dialing_session ?pid t (sess_at wm i) else sess_at wm j)" for j
    using pppoe_inv_D(1) [OF inv(1)] inv(2) by (simp add: pppoe_state_cong(1) [OF eq(1)] sess_at_upd_sess)
  have "pppoe_table (snd (launch_pppd env i wm))"
    using pppoe_inv_D(1) [OF inv(1)] by (simp add: pppoe_state_cong(2) [OF eq(1)])
  then have "pppoe_inv (snd (launch_pppd env i wm))"
    by (rule pppoe_inv_change [OF inv(1) _ sess wf])
  then show ?thesis using eq sess by simp
qed

lemma pppoe_session_start_effect:
  assumes inv: "pppoe_inv wm" "i < MAX_WANS" and fork: "fork_ok env"
  shows "pppoe_inv (snd (pppoe_session_start env i wan wm)) \<and>
    wm_config (snd (pppoe_session_start env i wan wm)) = wm_config wm \<and>
    (\<forall>j. j \<noteq> i \<longrightarrow> sess_at (snd (pppoe_session_start env i wan wm)) j = sess_at wm j)"
proof (cases "ps_state (sess_at wm i) = PPPOE_STATE_CONNECTED \<or> ps_state (sess_at wm i) = PPPOE_STATE_DIALING")
  case True
  then show ?thesis using inv by (auto simp: pppoe_session_start_def)
next
  case False
  define wm1 where "wm1 = dial_prepare env i wan (pppoe_session_stop i wm)"
  note tab = pppoe_inv_D(1) [OF inv(1)]
  note stop = pppoe_session_stop_effect [OF tab inv(2)]
  note eq = dial_prepare_pppoe [of env i wan "pppoe_session_stop i wm", folded wm1_def]
  have sess: "sess_at wm1 j = (if j = i then dial_session i wan (stopped_session (sess_at wm i)) else sess_at wm j)" for j
    using stop inv(2) by (simp add: pppoe_state_cong(1) [OF eq] sess_at_upd_sess)
  have "pppoe_table wm1" using stop(1) by (simp add: pppoe_state_cong(2) [OF eq])
  moreover have "session_wf (dial_session i wan (stopped_session (sess_at wm i)))"
    using stopped_session_wf [OF pppoe_inv_D(2) [OF inv]] by (simp add: dial_session_wf)
  ultimately have inv1: "pppoe_inv wm1" using pppoe_inv_change [OF inv(1) _ sess] by blast
  have cfg: "wm_config wm1 = wm_config wm" using stop(2) by (simp add: wm1_def)
  let ?wm2 = "os (WRITE_FILE (opts_path (sess_at wm1 i))
    (pppd_options i (macvlan_ifname (sess_at wm1 i)) wan)) wm1"
  have inv2: "pppoe_inv ?wm2" using inv1 by (simp only: pppoe_state_cong(3) [OF wm_pppoe_updates(1)])
  have "snd (pppoe_session_start env i wan wm) =
      (if env_can_write env (wm_history wm1) (opts_path (sess_at wm1 i))
       then snd (launch_pppd env i ?wm2) else wm1)"
    using False inv(2) by (simp add: pppoe_session_start_def wm1_def [symmetric] Let_def)
  then show ?thesis
    using launch_pppd_effect [OF inv2 inv(2) fork] inv1 cfg sess by simp
qed

section \<open>The tick\<close>

text \<open>A change that concerns session \<open>i\<close> only, and no administrative setting.\<close>

definition keeps :: "nat \<Rightarrow> wan_manager \<Rightarrow> wan_manager \<Rightarrow> bool" where
  "keeps i wm wm' \<longleftrightarrow> pppoe_inv wm' \<and> admin wm' = admin wm \<and> (\<forall>j. j \<noteq> i \<longrightarrow> sess_at wm' j = sess_at wm j)"

lemma keeps_refl: "pppoe_inv wm \<Longrightarrow> keeps i wm wm"
  by (simp add: keeps_def)

lemma keeps_trans: "keeps i wm wm' \<Longrightarrow> keeps i wm' wm'' \<Longrightarrow> keeps i wm wm''"
  by (simp add: keeps_def)

lemma keeps_cong:
  "wm_pppoe wm'' = wm_pppoe wm' \<Longrightarrow> admin wm'' = admin wm' \<Longrightarrow> keeps i wm wm'' = keeps i wm wm'"
  by (simp add: keeps_def pppoe_inv_def pppoe_table_def sess_at_def)

lemma keeps_upd_sess:
  assumes "pppoe_inv wm" "i < MAX_WANS" "session_wf (f (sess_at wm i))"
  shows "keeps i wm (upd_sess i f wm)"
proof -
  have "pppoe_table wm" using assms(1) by (rule pppoe_inv_D)
  then have sess: "sess_at (upd_sess i f wm) j = (if j = i then f (sess_at wm i) else sess_at wm j)" for j
    using assms(2) by (rule sess_at_upd_sess)
  then have "pppoe_inv (upd_sess i f wm)"
    using pppoe_inv_change [OF assms(1) _ sess assms(3)] \<open>pppoe_table wm\<close> by simp
  then show ?thesis using sess by (simp add: keeps_def admin_def)
qed

lemma keeps_then_upd:
  assumes "keeps i wm wm1" "i < MAX_WANS" "session_wf (f (sess_at wm1 i))"
  shows "keeps i wm (upd_sess i f wm1)"
proof -
  have "pppoe_inv wm1" using assms(1) by (simp add: keeps_def)
  then show ?thesis using keeps_trans [OF assms(1)] keeps_upd_sess assms(2,3) by blast
qed

lemma keeps_stop:
  assumes "pppoe_inv wm" "i < MAX_WANS"
  shows "keeps i wm (pppoe_session_stop i wm)"
proof -
  note stop = pppoe_session_stop_effect [OF pppoe_inv_D(1) [OF assms(1)] assms(2)]
  have "pppoe_inv (pppoe_session_stop i wm)"
    using pppoe_inv_change [OF assms(1) stop(1,3)] stopped_session_wf [OF pppoe_inv_D(2) [OF assms]] by blast
  then show ?thesis using stop by (simp add: keeps_def admin_def)
qed

lemma keeps_start:
  "pppoe_inv wm \<Longrightarrow> i < MAX_WANS \<Longrightarrow> fork_ok env \<Longrightarrow> keeps i wm (snd (pppoe_session_start env i wan wm))"
  using pppoe_session_start_effect [of wm i env wan] by (simp add: keeps_def admin_def)

lemma keeps_credentials:
  assumes "pppoe_inv wm" "i < MAX_WANS"
  shows "keeps i wm (tick_credentials env i wm)"
proof -
  let ?msg = "''PPPoE WAN'' @ dec_string (i + 1) @
    '' credentials updated ('' @ ppp_username (wan_at wm i) @ ''). Re-authenticating session...''"
  define wm1 where "wm1 = wan_manager_add_log env ''INFO'' ?msg wm"
  have inv1: "pppoe_inv wm1" and keeps1: "keeps i wm wm1"
    using assms(1) by (simp_all only: wm1_def pppoe_state_cong(3) [OF wm_pppoe_updates(2)] keeps_def
        sess_at_updates admin_def wm_config_updates simp_thms)
  have stop: "keeps i wm1 (pppoe_session_stop i wm1)" by (rule keeps_stop [OF inv1 assms(2)])
  have "session_wf ((sess_at (pppoe_session_stop i wm1) i)\<lparr>ps_state := PPPOE_STATE_IDLE\<rparr>)"
    using pppoe_session_stop_effect(3) [OF pppoe_inv_D(1) [OF inv1] assms(2), of i]
      stopped_session_wf [OF pppoe_inv_D(2) [OF inv1 assms(2)]]
    by (auto simp: session_wf_def)
  then have "keeps i wm (upd_sess i (\<lambda>s. s\<lparr>ps_state := PPPOE_STATE_IDLE\<rparr>) (pppoe_session_stop i wm1))"
    by (rule keeps_then_upd [OF keeps_trans [OF keeps1 stop] assms(2)])
  then show ?thesis
    using keeps_refl [OF assms(1)] by (simp only: tick_credentials_def Let_def wm1_def [symmetric] simp_thms split: if_split)
qed

lemma exited_session_wf: "session_wf s \<Longrightarrow> session_wf (exited_session now s)"
  using next_backoff_wf by (simp add: session_wf_def exited_session_def)

text \<open>
  What the tick relies on: a callback leaves the session table alone and changes
  neither the type nor the administrative state of any link.
\<close>

locale pppoe_callbacks =
  fixes on_connected :: on_connected_fn and on_disconnected :: on_disconnected_fn
  assumes connected_pppoe: "wm_pppoe (on_connected i ifname ip gw wm) = wm_pppoe wm"
    and connected_admin: "admin (on_connected i ifname ip gw wm) = admin wm"
    and disconnected_pppoe: "wm_pppoe (on_disconnected i ifname n wm) = wm_pppoe wm"
    and disconnected_admin: "admin (on_disconnected i ifname n wm) = admin wm"
begin

lemma keeps_process:
  assumes "pppoe_inv wm" "i < MAX_WANS"
  shows "keeps i wm (tick_process env on_disconnected now i wm)"
proof -
  define wm1 where "wm1 = os (WAITPID (pppd_pid (sess_at wm i))) wm"
  have k1: "keeps i wm wm1" using keeps_refl [OF assms(1)] keeps_cong [of wm1 wm i wm]
    by (simp add: wm1_def admin_def)
  have inv1: "pppoe_inv wm1" and sess1: "sess_at wm1 = sess_at wm" using k1
    by (simp_all add: keeps_def wm1_def)
  have "keeps i wm (upd_sess i (exited_session now) wm1)"
    by (rule keeps_then_upd [OF k1 assms(2)]) (rule exited_session_wf [OF pppoe_inv_D(2) [OF inv1 assms(2)]])
  then have "keeps i wm (on_disconnected i a b (upd_sess i (exited_session now) wm1))" for a b
    by (simp add: keeps_cong [OF disconnected_pppoe disconnected_admin])
  then show ?thesis using k1 keeps_refl [OF assms(1)]
    by (simp add: tick_process_def wm1_def Let_def)
qed

lemma keeps_dialing:
  assumes "pppoe_inv wm" "i < MAX_WANS" "ps_state (sess_at wm i) = PPPOE_STATE_DIALING"
  shows "keeps i wm (tick_dialing env on_connected now i wm)"
proof (cases "get_ppp_interface_ip env (wm_history wm) (ppp_ifname (sess_at wm i))")
  case None
  have stop: "keeps i wm (pppoe_session_stop i wm)" by (rule keeps_stop [OF assms(1,2)])
  have "session_wf ((sess_at (pppoe_session_stop i wm) i)\<lparr>ps_state := PPPOE_STATE_RECONNECTING,
      next_retry_ms := now + 5000\<rparr>)"
    using pppoe_session_stop_effect(3) [OF pppoe_inv_D(1) [OF assms(1)] assms(2), of i]
      stopped_session_wf [OF pppoe_inv_D(2) [OF assms(1,2)]] by (auto simp: session_wf_def)
  then have "keeps i wm (upd_sess i (\<lambda>s. s\<lparr>ps_state := PPPOE_STATE_RECONNECTING,
      next_retry_ms := now + 5000\<rparr>) (pppoe_session_stop i wm))"
    by (rule keeps_then_upd [OF stop assms(2)])
  then show ?thesis using None keeps_refl [OF assms(1)] by (simp add: tick_dialing_def Let_def)
next
  case (Some addr)
  obtain ip gw ips gws where addr: "addr = (ip, gw, ips, gws)" by (cases addr) auto
  have "session_wf (connected_session now addr (sess_at wm i))"
    using pppoe_inv_D(2) [OF assms(1,2)] assms(3)
    by (simp add: session_wf_def connected_session_def addr PPPOE_INITIAL_BACKOFF_S_def)
  then have "keeps i wm (upd_sess i (connected_session now addr) wm)"
    by (rule keeps_upd_sess [OF assms(1,2)])
  moreover have "admin (upd_cfg_wan i (connected_wan addr) wm') = admin wm'" for wm'
    by (cases "i < wan_count (wm_config wm')")
      (auto intro!: nth_equalityI simp: admin_def upd_cfg_wan_def upd_wan_def nth_list_update
        connected_wan_def Let_def split: prod.splits)
  ultimately have "keeps i wm (upd_cfg_wan i (connected_wan addr) (upd_sess i (connected_session now addr) wm))"
    by (subst keeps_cong [OF wm_pppoe_updates(3)])
  then show ?thesis using Some
    by (simp add: tick_dialing_def Let_def addr keeps_cong [OF connected_pppoe connected_admin])
qed

lemma keeps_connected:
  assumes "pppoe_inv wm" "i < MAX_WANS" "ps_state (sess_at wm i) = PPPOE_STATE_CONNECTED"
  shows "keeps i wm (tick_connected env on_disconnected now i wm)"
proof -
  define wm1 where "wm1 = upd_sess i (\<lambda>s. s\<lparr>last_check_ms := now\<rparr>) wm"
  have wf: "session_wf (sess_at wm i)" by (rule pppoe_inv_D(2) [OF assms(1,2)])
  have k1: "keeps i wm wm1" unfolding wm1_def
    by (rule keeps_upd_sess [OF assms(1,2)]) (use wf assms(3) in \<open>simp add: session_wf_def\<close>)
  have s1: "sess_at wm1 i = (sess_at wm i)\<lparr>last_check_ms := now\<rparr>"
    using sess_at_upd_sess [OF pppoe_inv_D(1) [OF assms(1)] assms(2)] by (simp add: wm1_def)
  have "keeps i wm (upd_sess i (\<lambda>s. s\<lparr>ps_state := PPPOE_STATE_DISCONNECTED, next_retry_ms := now + 5000\<rparr>) wm1)"
    by (rule keeps_then_upd [OF k1 assms(2)]) (use wf in \<open>simp add: s1 session_wf_def\<close>)
  then have "keeps i wm (on_disconnected i a b
      (upd_sess i (\<lambda>s. s\<lparr>ps_state := PPPOE_STATE_DISCONNECTED, next_retry_ms := now + 5000\<rparr>) wm1))" for a b
    by (simp add: keeps_cong [OF disconnected_pppoe disconnected_admin])
  then show ?thesis using k1 keeps_refl [OF assms(1)]
    by (simp add: tick_connected_def wm1_def [symmetric] Let_def)
qed

lemma keeps_state:
  assumes "pppoe_inv wm" "i < MAX_WANS" "fork_ok env"
  shows "keeps i wm (tick_state env on_connected on_disconnected now i wm)"
  using pppoe_inv_D(2) [OF assms(1,2)] assms keeps_start keeps_dialing keeps_connected keeps_refl
  by (auto simp: tick_state_def session_wf_def split: pppoe_state.splits)

lemma keeps_tick_wan:
  assumes "pppoe_inv wm" "i < MAX_WANS" "fork_ok env"
  shows "keeps i wm (tick_wan env on_connected on_disconnected now wm i)"
proof -
  let ?wm1 = "tick_credentials env i wm"
  let ?wm2 = "tick_process env on_disconnected now i ?wm1"
  have k1: "keeps i wm ?wm1" by (rule keeps_credentials [OF assms(1,2)])
  then have k2: "keeps i ?wm1 ?wm2" using keeps_process assms(2) by (simp add: keeps_def)
  then have "keeps i ?wm2 (tick_state env on_connected on_disconnected now i ?wm2)"
    using keeps_state assms(2,3) by (simp add: keeps_def)
  then have "keeps i wm (tick_state env on_connected on_disconnected now i ?wm2)"
    using keeps_trans k1 k2 by blast
  then show ?thesis
    using keeps_refl keeps_stop assms by (simp add: tick_wan_def)
qed

text \<open>A link that is administratively down has no session after its turn.\<close>

lemma tick_wan_disabled:
  assumes "pppoe_inv wm" "i < MAX_WANS" "w_type (wan_at wm i) = WAN_TYPE_PPPOE" "\<not> w_enabled (wan_at wm i)"
  shows "ps_state (sess_at (tick_wan env on_connected on_disconnected now wm i) i) = PPPOE_STATE_IDLE \<and>
    pppd_pid (sess_at (tick_wan env on_connected on_disconnected now wm i) i) = -1"
proof -
  note wf = pppoe_inv_D(2) [OF assms(1,2)]
  show ?thesis
    using assms(3,4) wf stopped_session_wf [OF wf]
      pppoe_session_stop_effect(3) [OF pppoe_inv_D(1) [OF assms(1)] assms(2), of i]
    by (auto simp: tick_wan_def session_wf_def)
qed

lemma tick_fold:
  assumes "fork_ok env" "n \<le> length (admin wm)" "length (admin wm) \<le> MAX_WANS" "pppoe_inv wm"
  shows "pppoe_inv (foldl (tick_wan env on_connected on_disconnected now) wm [0..<n]) \<and>
    admin (foldl (tick_wan env on_connected on_disconnected now) wm [0..<n]) = admin wm \<and>
    (\<forall>i < n. admin wm ! i = (WAN_TYPE_PPPOE, False) \<longrightarrow>
       ps_state (sess_at (foldl (tick_wan env on_connected on_disconnected now) wm [0..<n]) i) = PPPOE_STATE_IDLE \<and>
       pppd_pid (sess_at (foldl (tick_wan env on_connected on_disconnected now) wm [0..<n]) i) = -1)"
  using assms(2)
proof (induction n)
  case 0
  then show ?case using assms(4) by simp
next
  case (Suc n)
  define wm' where "wm' = foldl (tick_wan env on_connected on_disconnected now) wm [0..<n]"
  define wm'' where "wm'' = tick_wan env on_connected on_disconnected now wm' n"
  have IH: "pppoe_inv wm'" "admin wm' = admin wm"
    "\<forall>i < n. admin wm ! i = (WAN_TYPE_PPPOE, False) \<longrightarrow>
      ps_state (sess_at wm' i) = PPPOE_STATE_IDLE \<and> pppd_pid (sess_at wm' i) = -1"
    using Suc by (simp_all add: wm'_def)
  have n: "n < MAX_WANS" "n < length (wans (wm_config wm'))"
    using Suc.prems assms(3) IH(2) by (simp_all add: admin_def) (metis Suc_le_lessD length_map)
  have k: "keeps n wm' wm''" unfolding wm''_def by (rule keeps_tick_wan [OF IH(1) n(1) assms(1)])
  have dis: "admin wm' ! n = (WAN_TYPE_PPPOE, False) \<Longrightarrow>
      ps_state (sess_at wm'' n) = PPPOE_STATE_IDLE \<and> pppd_pid (sess_at wm'' n) = -1"
    unfolding wm''_def using tick_wan_disabled [OF IH(1) n(1)] n(2) by (simp add: admin_def)
  have "foldl (tick_wan env on_connected on_disconnected now) wm [0..<Suc n] = wm''"
    by (simp add: wm'_def wm''_def)
  moreover have "ps_state (sess_at wm'' i) = PPPOE_STATE_IDLE \<and> pppd_pid (sess_at wm'' i) = -1"
    if "i < Suc n" "admin wm ! i = (WAN_TYPE_PPPOE, False)" for i
    using that dis IH k by (cases "i = n") (auto simp: keeps_def)
  ultimately show ?case using k IH(2) by (simp add: keeps_def)
qed

lemma tick_spec:
  assumes "fork_ok env" "wan_count (wm_config wm) \<le> MAX_WANS" "pppoe_inv wm"
  shows "pppoe_inv (pppoe_manager_tick env on_connected on_disconnected wm) \<and>
    admin (pppoe_manager_tick env on_connected on_disconnected wm) = admin wm \<and>
    (\<forall>i < wan_count (wm_config wm). w_type (wan_at wm i) = WAN_TYPE_PPPOE \<and> \<not> w_enabled (wan_at wm i) \<longrightarrow>
       pppd_pid (sess_at (pppoe_manager_tick env on_connected on_disconnected wm) i) = -1)"
  using tick_fold [OF assms(1), of "wan_count (wm_config wm)" wm] assms(2,3)
  by (simp add: pppoe_manager_tick_def admin_def)

end

end
