(* ===== verification/Wan_Manager.thy ===== *)
theory Wan_Manager
  imports Pppoe_Manager
begin

text \<open>
  The WAN manager of \<open>src/wan_manager.c\<close>: health transitions, weights, the Maglev
  rings and their upload, the DHCP watchdog and the callbacks of the PPPoE
  sessions. The licence verdict, the clocks and the system's answers come from
  \<open>env\<close>; requests to the system go into the history.
\<close>

section \<open>Rings and weights\<close>

definition build_group_ring :: "wan_env \<Rightarrow> wan_manager \<Rightarrow> nat \<Rightarrow> wan_manager" where
  "build_group_ring env wm g =
     (let grp = groups (wm_config wm) ! g
      in if wan_member_indices grp = [] then wm
         else
           let ring = build_single_maglev_ring (wm_config wm) (env_junk env) (wan_member_indices grp);
               wm = wm\<lparr>wm_config := (wm_config wm)\<lparr>groups :=
                      (groups (wm_config wm))[g := grp\<lparr>maglev_ring := ring\<rparr>]\<rparr>\<rparr>
           in with_bpf (unless_error (bpf_loader_update_group_maglev_lut (g_id grp) ring MAGLEV_RING_SIZE)) wm)"

definition wan_manager_generate_maglev_lut :: "wan_env \<Rightarrow> wan_manager \<Rightarrow> wan_manager" where
  "wan_manager_generate_maglev_lut env wm =
     (let count = wan_count (wm_config wm)
      in if count = 0 then wm
         else
           let ring = build_single_maglev_ring (wm_config wm) (env_junk env) (map of_nat [0..<count]);
               wm = wm\<lparr>maglev_lut := ring\<rparr>;
               wm = with_bpf (unless_error (bpf_loader_update_maglev_lut ring MAGLEV_RING_SIZE)) wm;
               wm = foldl (build_group_ring env) wm [0..<length (groups (wm_config wm))]
           in with_bpf (bpf_loader_update_policy_routes (policy_routes (lan (wm_config wm)))) wm)"

text \<open>The loop bodies of \<open>wan_manager_rebalance\<close>.\<close>

definition push_wan :: "wan_env \<Rightarrow> wan_manager \<Rightarrow> nat \<Rightarrow> wan_manager" where
  "push_wan env wm i =
     with_bpf (unless_error (bpf_loader_update_wan_map (env_ifindex env (wm_history wm)) i (wan_at wm i))) wm"

definition revoke_wan :: "wan_env \<Rightarrow> wan_manager \<Rightarrow> nat \<Rightarrow> wan_manager" where
  "revoke_wan env wm i = push_wan env (upd_cfg_wan i (\<lambda>w. w\<lparr>dynamic_weight := 0\<rparr>) wm) i"

definition min_healthy_rtt :: "wan_config list \<Rightarrow> u32" where
  "min_healthy_rtt ws = foldl (\<lambda>m w.
     if w_enabled w \<and> w_state w = WAN_STATE_HEALTHY \<and> rtt_ms (w_metrics w) > 0
     then if rtt_ms (w_metrics w) < m then rtt_ms (w_metrics w) else m else m) 999999 ws"

definition base_weight :: "wan_config \<Rightarrow> u32" where
  "base_weight w =
     (let b = (if bandwidth_down_mbps w > 0 then bandwidth_down_mbps w else config_weight w)
      in if b = 0 then 1 else b)"

definition state_weight :: "wan_config \<Rightarrow> u32" where
  "state_weight w =
     (if w_state w = WAN_STATE_DEGRADED
      then let d = base_weight w div 4 in if d = 0 then 1 else d
      else base_weight w)"

definition steered_weight :: "bool \<Rightarrow> u32 \<Rightarrow> wan_config \<Rightarrow> u32" where
  "steered_weight steering min_rtt w =
     (let d = state_weight w; rtt = rtt_ms (w_metrics w)
      in if steering \<and> min_rtt < 999999 \<and> rtt > min_rtt + 60
         then let scaled = (d * min_rtt) div rtt in if scaled > 0 then scaled else 1
         else d)"

definition rebalanced_wan :: "bool \<Rightarrow> u32 \<Rightarrow> wan_config \<Rightarrow> wan_config" where
  "rebalanced_wan steering min_rtt w =
     (if \<not> w_enabled w \<or> w_state w = WAN_STATE_DOWN
      then w\<lparr>dynamic_weight := 0, w_state := (if \<not> w_enabled w then WAN_STATE_DOWN else w_state w)\<rparr>
      else if w_state w = WAN_STATE_DRAINING then w\<lparr>dynamic_weight := 0\<rparr>
      else w\<lparr>dynamic_weight := steered_weight steering min_rtt w\<rparr>)"

definition rebalance_wan :: "wan_env \<Rightarrow> u32 \<Rightarrow> wan_manager \<Rightarrow> nat \<Rightarrow> wan_manager" where
  "rebalance_wan env min_rtt wm i =
     push_wan env (upd_cfg_wan i
       (rebalanced_wan (dynamic_latency_steering (prober (wm_config wm))) min_rtt) wm) i"

definition active_wan_total :: "wan_config list \<Rightarrow> u32" where
  "active_wan_total ws = of_nat (length (filter (\<lambda>w. w_enabled w \<and> w_state w \<noteq> WAN_STATE_DOWN) ws))"

definition wan_manager_rebalance :: "wan_env \<Rightarrow> wan_manager \<Rightarrow> int \<times> wan_manager" where
  "wan_manager_rebalance env wm =
     (let count = wan_count (wm_config wm)
      in if \<not> env_authorized env (wm_history wm)
         then (-2, foldl (revoke_wan env) wm [0..<count])
         else
           let min_rtt = min_healthy_rtt (wans (wm_config wm));
               wm = foldl (rebalance_wan env min_rtt) wm [0..<count];
               wm = wan_manager_generate_maglev_lut env wm;
               wm = with_bpf (bpf_loader_update_ctrl_map (lan_ip_addr (lan (wm_config wm)))
                      (active_wan_total (wans (wm_config wm))) 1 0) wm
           in (0, os (NET_APPLY_CONFIGURATION (wm_config wm) (wm_nl wm)) wm))"

section \<open>Health transitions\<close>

definition state_str :: "wan_state \<Rightarrow> string" where
  "state_str st = (case st of WAN_STATE_DEGRADED \<Rightarrow> ''DEGRADED'' | WAN_STATE_DOWN \<Rightarrow> ''DOWN''
     | WAN_STATE_DRAINING \<Rightarrow> ''DRAINING'' | WAN_STATE_HEALTHY \<Rightarrow> ''HEALTHY'')"

abbreviation health_suffix :: "wan_config \<Rightarrow> string" where
  "health_suffix w \<equiv> '' (RTT: '' @ fmt_u (rtt_ms (w_metrics w)) @ ''ms, Loss: '' @
     fmt_1f (packet_loss_pct (w_metrics w)) @ ''%)''"

definition send_telegram_alert :: "telegram_config \<Rightarrow> string \<Rightarrow> wan_manager \<Rightarrow> wan_manager" where
  "send_telegram_alert tg msg wm =
     (if \<not> tg_enabled tg \<or> tg_bot_token tg = [] \<or> tg_chat_id tg = [] then wm
      else os (EXEC [''curl'', ''-s'', ''-X'', ''POST'',
             cstr_copy 512 (''https://api.telegram.org/bot'' @ tg_bot_token tg @ ''/sendMessage''), ''-d'',
             cstr_copy 1024 (''chat_id='' @ tg_chat_id tg @ ''&text='' @ msg), ''-o'', ''/dev/null'']) wm)"

text \<open>
  The alert texts start with a symbol in UTF-8: the warning sign with its variation
  selector (six bytes) or the check mark (three bytes).
\<close>

abbreviation failover_text :: "wan_config \<Rightarrow> string \<Rightarrow> string" where
  "failover_text w st \<equiv> cstr_copy 512 (map char_of [0xE2, 0x9A, 0xA0, 0xEF, 0xB8, 0x8F :: nat] @
     '' FluxWAN Alert: WAN '' @ fmt_u (w_id w) @ '' ('' @ w_label w @ '') is '' @ st @ health_suffix w)"

abbreviation recovery_text :: "wan_config \<Rightarrow> string" where
  "recovery_text w \<equiv> cstr_copy 512 (map char_of [0xE2, 0x9C, 0x85 :: nat] @
     '' FluxWAN Recovery: WAN '' @ fmt_u (w_id w) @ '' ('' @ w_label w @ '') is now HEALTHY'' @ health_suffix w)"

definition health_alert :: "wan_config \<Rightarrow> wan_state \<Rightarrow> wan_manager \<Rightarrow> wan_manager" where
  "health_alert w st wm =
     (let tg = telegram (wm_config wm)
      in if \<not> tg_enabled tg then wm
         else if (st = WAN_STATE_DOWN \<or> st = WAN_STATE_DEGRADED) \<and> notify_on_failover tg
         then send_telegram_alert tg (failover_text w (state_str st)) wm
         else if st = WAN_STATE_HEALTHY \<and> notify_on_recovery tg
         then send_telegram_alert tg (recovery_text w) wm
         else wm)"

definition wan_manager_on_health_update ::
  "wan_env \<Rightarrow> nat \<Rightarrow> wan_state \<Rightarrow> wan_metrics option \<Rightarrow> wan_manager \<Rightarrow> wan_manager" where
  "wan_manager_on_health_update env i st metrics wm =
     (if i \<ge> wan_count (wm_config wm) then wm
      else
        let wm = (case metrics of Some m \<Rightarrow> upd_cfg_wan i (\<lambda>w. w\<lparr>w_metrics := m\<rparr>) wm | None \<Rightarrow> wm);
            old_state = w_state (wan_at wm i)
        in if old_state = WAN_STATE_DRAINING then wm
           else
             let wm = upd_cfg_wan i (\<lambda>w. w\<lparr>w_state := st\<rparr>) wm; w = wan_at wm i
             in if old_state = st then wm
                else
                  let wm = wan_manager_add_log env (if st = WAN_STATE_HEALTHY then ''INFO'' else ''WARN'')
                             (''WAN '' @ fmt_u (w_id w) @ '' ('' @ w_label w @ '') health transitioned to '' @
                              state_str st @ health_suffix w) wm
                  in snd (wan_manager_rebalance env (health_alert w st wm)))"

section \<open>PPPoE callbacks\<close>

definition probe_default :: "wan_config \<Rightarrow> wan_config" where
  "probe_default w =
     (if probe_target_ip w = 0
      then if probe_target w \<noteq> [] then w\<lparr>probe_target_ip := str_to_ip (probe_target w)\<rparr>
           else w\<lparr>probe_target_ip := str_to_ip ''8.8.8.8'', probe_target := cstr_copy 64 ''8.8.8.8''\<rparr>
      else w)"

definition connected_link :: "u32 \<Rightarrow> u32 \<Rightarrow> wan_config \<Rightarrow> wan_config" where
  "connected_link ip gw w = probe_default (w\<lparr>w_state := WAN_STATE_HEALTHY, w_ip_addr := htonl ip,
     w_gateway := htonl gw, w_netmask := 0xFFFFFFFF\<rparr>)"

definition ppp_default_route :: "wan_env \<Rightarrow> u32 \<Rightarrow> string \<Rightarrow> u32 \<Rightarrow> wan_manager \<Rightarrow> wan_manager" where
  "ppp_default_route env table ppp_if gw wm =
     (let wm = os (SYSTEM (cstr_copy 256 (''ip route replace default dev '' @ ppp_if @ '' table '' @
                 fmt_u table @ '' 2>/dev/null || true''))) wm
      in if wm_nl wm
         then os (ADD_DEFAULT_ROUTE table (htonl gw) (max 0 (sint (env_ifindex env (wm_history wm) ppp_if)))) wm
         else wm)"

definition ppp_shield :: "string \<Rightarrow> wan_manager \<Rightarrow> wan_manager" where
  "ppp_shield ppp_if wm =
     (let ttl = (if stealth_ttl_value (wm_config wm) > 0 then unat (stealth_ttl_value (wm_config wm)) else 65)
      in os (SYSTEM (cstr_copy 512 (''iptables -t mangle -C FLUXWAN_STEALTH_TTL -o '' @ ppp_if @
               '' -j TTL --ttl-set '' @ dec_string ttl @
               '' 2>/dev/null || iptables -t mangle -A FLUXWAN_STEALTH_TTL -o '' @ ppp_if @
               '' -j TTL --ttl-set '' @ dec_string ttl @ '' 2>/dev/null || true'')))
           (os (SYSTEM (cstr_copy 512 (''iptables -C FLUXWAN_WAN_SHIELD -i '' @ ppp_if @
               '' -j DROP 2>/dev/null || iptables -A FLUXWAN_WAN_SHIELD -i '' @ ppp_if @
               '' -j DROP 2>/dev/null || true''))) wm))"

definition on_pppoe_connected_cb :: "wan_env \<Rightarrow> on_connected_fn" where
  "on_pppoe_connected_cb env i ppp_if ip gw wm =
     (if i \<ge> wan_count (wm_config wm) then wm
      else
        let wm = upd_cfg_wan i (connected_link ip gw) wm;
            w = wan_at wm i;
            wm = wan_manager_add_log env ''INFO'' (''PPPoE WAN '' @ fmt_u (w_id w) @ '' ('' @ w_label w @
                   '') established session on '' @ ppp_if @ '' (IP: '' @ ip_to_str (htonl ip) @ '')'') wm;
            wm = ppp_default_route env (w_table_id w) ppp_if gw wm;
            wm = os (NET_APPLY_WAN_NAT ppp_if True) wm
        in snd (wan_manager_rebalance env (ppp_shield ppp_if wm)))"

definition on_pppoe_disconnected_cb :: "wan_env \<Rightarrow> on_disconnected_fn" where
  "on_pppoe_disconnected_cb env i ppp_if attempt wm =
     (if i \<ge> wan_count (wm_config wm) then wm
      else
        let wm = upd_cfg_wan i (\<lambda>w. w\<lparr>w_state := WAN_STATE_DOWN\<rparr>) wm;
            w = wan_at wm i;
            wm = wan_manager_add_log env ''WARN'' (''PPPoE WAN '' @ fmt_u (w_id w) @ '' ('' @ w_label w @
                   '') session dropped on '' @ ppp_if @ '' (Auto-reconnect #'' @ fmt_d attempt @ '')'') wm
        in snd (wan_manager_rebalance env wm))"

section \<open>Start and stop\<close>

definition init_wan :: "wan_env \<Rightarrow> wan_manager \<Rightarrow> nat \<Rightarrow> wan_manager" where
  "init_wan env wm i =
     (let w = wan_at wm i;
          wm = (if wm_nl wm then
                  let wm = os (ADD_IP_RULE (of_nat (0x100 + i + 1)) (w_table_id w) (of_nat (1000 + i))) wm
                  in if w_gateway w \<noteq> 0 \<and> \<not> proxy_enabled (w_proxy w)
                     then os (ADD_DEFAULT_ROUTE (w_table_id w) (w_gateway w) (w_ifindex w)) wm else wm
                else wm);
          wm = push_wan env wm i
      in wan_manager_add_log env ''INFO'' (''WAN '' @ fmt_u (w_id w) @ '' ('' @ w_name w @ '' - '' @ w_label w @
           '') policy routing initialized on Table '' @ fmt_u (w_table_id w)) wm)"

text \<open>
  \<open>logs\<close> and \<open>hook\<close> are the static variables of the module, \<open>h\<close> is what the system
  has seen so far; the context itself is zeroed by \<open>calloc\<close>.
\<close>

definition wan_manager_init :: "wan_env \<Rightarrow> fluxwan_config \<Rightarrow> bool \<Rightarrow> bpf_loader option \<Rightarrow>
    system_log_entry list \<Rightarrow> bool \<Rightarrow> history \<Rightarrow> wan_manager" where
  "wan_manager_init env cfg nl bpf logs hook h =
     (let wm = \<lparr>wm_config = cfg, wm_nl = nl, wm_bpf = bpf, wm_pppoe = None,
                maglev_lut = replicate MAGLEV_RING_SIZE 0, last_dhcp_renew_ms = replicate MAX_WANS 0,
                dhcp_dead_cycles = replicate MAX_WANS 0, last_dhcp_rebind_ms = replicate MAX_WANS 0,
                g_logs = logs, s_hook_installed = hook, wm_history = h\<rparr>;
          wm = wan_manager_add_log env ''INFO'' ''FluxWAN Core Multi-WAN Router Engine started'' wm;
          wm = wm\<lparr>wm_pppoe := Some pppoe_manager_init\<rparr>;
          wm = foldl (init_wan env) wm [0..<wan_count cfg];
          wm = pppoe_manager_start_all env wm;
          wm = with_bpf (bpf_loader_update_ctrl_map (lan_ip_addr (lan cfg)) (of_nat (wan_count cfg)) 1 0) wm
      in wan_manager_generate_maglev_lut env wm)"

definition wan_manager_close :: "wan_env \<Rightarrow> wan_manager \<Rightarrow> wan_manager" where
  "wan_manager_close env wm =
     (let wm = wan_manager_add_log env ''INFO'' ''FluxWAN Core Multi-WAN Router Engine stopped'' wm
      in if wm_pppoe wm = None then wm else pppoe_manager_destroy wm)"

section \<open>DHCP\<close>

definition ensure_dhcp_hook_script :: "wan_env \<Rightarrow> wan_manager \<Rightarrow> wan_manager" where
  "ensure_dhcp_hook_script env wm =
     (if s_hook_installed wm \<or> \<not> env_can_write env (wm_history wm) ''/run/fluxwan_wan_dhcp.sh'' then wm
      else (os INSTALL_DHCP_HOOK wm)\<lparr>s_hook_installed := True\<rparr>)"

abbreviation udhcpc_pid_path :: "wan_config \<Rightarrow> string" where
  "udhcpc_pid_path w \<equiv> cstr_copy 64 (''/run/udhcpc_'' @ w_name w @ ''.pid'')"

definition lease_path :: "wan_config \<Rightarrow> string" where
  "lease_path w = cstr_copy 64 (''/run/fluxwan_wan_'' @ w_name w @ ''.lease'')"

definition dhcp_client :: "wan_config \<Rightarrow> bool" where
  "dhcp_client w \<longleftrightarrow> (w_type w = WAN_TYPE_DHCP \<or> w_type w = WAN_TYPE_WIFI) \<and> w_enabled w"

text \<open>The process number in a pid file, when it names a process other than init.\<close>

definition read_pid :: "wan_env \<Rightarrow> history \<Rightarrow> string \<Rightarrow> int option" where
  "read_pid env h path =
     (case env_file env h path of None \<Rightarrow> None
      | Some txt \<Rightarrow> (case scan_int txt of None \<Rightarrow> None | Some pid \<Rightarrow> if pid > 1 then Some pid else None))"

definition kill_udhcpc :: "wan_env \<Rightarrow> string \<Rightarrow> wan_manager \<Rightarrow> wan_manager" where
  "kill_udhcpc env path wm =
     (if env_file env (wm_history wm) path = None then wm
      else os (UNLINK path)
             (case read_pid env (wm_history wm) path of
                Some pid \<Rightarrow> os (KILL pid ''SIGKILL'') wm | None \<Rightarrow> wm))"

definition dhcp_renew_wan :: "wan_env \<Rightarrow> nat \<Rightarrow> wan_manager \<Rightarrow> wan_manager" where
  "dhcp_renew_wan env i wm =
     (let w = wan_at wm i
      in if \<not> dhcp_client w then wm
         else
           let wm = wan_manager_add_log env ''INFO''
                      (''[DHCP Client] Force-renewing IP lease on '' @ w_name w @ ''...'') wm;
               wm = os (SYSTEM (cstr_copy 128 (''ip addr flush dev '' @ w_name w @ '' 2>/dev/null || true''))) wm;
               wm = os (UNLINK (lease_path w)) (kill_udhcpc env (udhcpc_pid_path w) wm)
           in wm\<lparr>last_dhcp_renew_ms := (last_dhcp_renew_ms wm)[i := 0],
                 dhcp_dead_cycles := (dhcp_dead_cycles wm)[i := 0]\<rparr>)"

definition wan_manager_dhcp_renew :: "wan_env \<Rightarrow> int \<Rightarrow> wan_manager \<Rightarrow> wan_manager" where
  "wan_manager_dhcp_renew env idx wm =
     foldl (\<lambda>wm i. if idx \<ge> 0 \<and> int i \<noteq> idx then wm else dhcp_renew_wan env i wm)
       wm [0..<wan_count (wm_config wm)]"

definition wifi_poll :: "wan_env \<Rightarrow> nat \<Rightarrow> wan_manager \<Rightarrow> wan_manager" where
  "wifi_poll env i wm =
     (let w = wan_at wm i
      in if w_type w = WAN_TYPE_WIFI \<and> w_enabled w
         then case env_wifi_link env (wm_history wm) (w_name w) of
                None \<Rightarrow> wm
              | Some l \<Rightarrow>
                  if link_connected l
                  then upd_cfg_wan i (\<lambda>w. w\<lparr>wifi_signal_dbm := link_signal_dbm l,
                         wifi_signal_pct := link_signal_pct l,
                         wifi_channel := (if link_channel l > 0
                            then cstr_copy 16 (''Ch '' @ fmt_u (link_channel l)) else wifi_channel w)\<rparr>) wm
                  else wm
         else wm)"

definition gateway_dead :: "wan_config \<Rightarrow> bool" where
  "gateway_dead w \<longleftrightarrow> \<not> proxy_enabled (w_proxy w) \<and>
     (w_state w = WAN_STATE_DOWN \<or> packet_loss_pct (w_metrics w) \<ge> 99)"

definition dhcp_watchdog :: "wan_env \<Rightarrow> u64 \<Rightarrow> nat \<Rightarrow> wan_manager \<Rightarrow> wan_manager" where
  "dhcp_watchdog env now i wm =
     (let w = wan_at wm i
      in if gateway_dead w
         then
           let cycles = dhcp_dead_cycles wm ! i + 1;
               wm = wm\<lparr>dhcp_dead_cycles := (dhcp_dead_cycles wm)[i := cycles]\<rparr>
           in if cycles \<ge> 15 \<and> now - last_dhcp_rebind_ms wm ! i \<ge> 60000
              then
                let wm = wm\<lparr>last_dhcp_rebind_ms := (last_dhcp_rebind_ms wm)[i := now],
                            dhcp_dead_cycles := (dhcp_dead_cycles wm)[i := 0]\<rparr>;
                    wm = wan_manager_add_log env ''WARN'' (''[DHCP Watchdog] Gateway unreachable on '' @ w_name w @
                           ''. Re-discovering network...'') wm
                in wan_manager_dhcp_renew env (int i) wm
              else wm
         else wm\<lparr>dhcp_dead_cycles := (dhcp_dead_cycles wm)[i := 0]\<rparr>)"

definition dhcp_spawn :: "wan_env \<Rightarrow> nat \<Rightarrow> wan_manager \<Rightarrow> wan_manager" where
  "dhcp_spawn env i wm =
     (let w = wan_at wm i; path = udhcpc_pid_path w;
          running = (case read_pid env (wm_history wm) path of
                       Some pid \<Rightarrow> env_alive env (wm_history wm) pid | None \<Rightarrow> False)
      in if running then wm
         else
           let script = (if env_executable env (wm_history wm) ''/usr/local/bin/fluxwan_wan_dhcp.sh''
                         then ''/usr/local/bin/fluxwan_wan_dhcp.sh'' else ''/run/fluxwan_wan_dhcp.sh'');
               wm = wan_manager_add_log env ''INFO'' (''[DHCP Client] Starting DHCP client on '' @ w_name w @
                      '' (Table '' @ fmt_u (w_table_id w) @ '')'') wm
           in os (SYSTEM (cstr_copy 512 (''udhcpc -i '' @ w_name w @ '' -p '' @ path @ '' -s '' @ script @
                '' -b -R -O 33 -V '' @ [CHR 0x22] @ ''TP-Link'' @ [CHR 0x22] @
                '' -x hostname:Archer_C6 >/dev/null 2>&1 &''))) wm)"

text \<open>The three fields of a lease file; the last line of a kind wins.\<close>

abbreviation starts_with :: "string \<Rightarrow> string \<Rightarrow> bool" where
  "starts_with p s \<equiv> take (length p) s = p"

abbreviation scan_after :: "nat \<Rightarrow> string \<Rightarrow> string \<Rightarrow> string" where
  "scan_after n line old \<equiv> (case scan_word 31 (drop n line) of Some w \<Rightarrow> w | None \<Rightarrow> old)"

definition lease_line :: "string \<times> string \<times> string \<Rightarrow> string \<Rightarrow> string \<times> string \<times> string" where
  "lease_line acc line =
     (case acc of (ip, gw, nm) \<Rightarrow>
        if starts_with ''IP='' line then (scan_after 3 line ip, gw, nm)
        else if starts_with ''GATEWAY='' line then (ip, scan_after 8 line gw, nm)
        else if starts_with ''NETMASK='' line then (ip, gw, scan_after 8 line nm)
        else acc)"

definition parse_lease :: "string \<Rightarrow> string \<times> string \<times> string" where
  "parse_lease txt = foldl lease_line ([], [], []) (fgets_lines 255 txt)"

definition route_cmd :: "wan_config \<Rightarrow> string \<Rightarrow> string \<Rightarrow> string" where
  "route_cmd w ip_str gw_str =
     (let table = (if proxy_enabled (w_proxy w) then fmt_u (1000 + w_table_id w) else fmt_u (w_table_id w));
          rules = ''ip route replace default via '' @ gw_str @ '' dev '' @ w_name w @ '' table '' @ table @
            '' proto static 2>/dev/null || true; ip rule del oif '' @ w_name w @ '' table '' @ table @
            '' 2>/dev/null || true; ip rule add oif '' @ w_name w @ '' table '' @ table @
            '' pref 100 2>/dev/null || true; ip rule del from '' @ ip_str @ '' table '' @ table @
            '' 2>/dev/null || true; ip rule add from '' @ ip_str @ '' table '' @ table @
            '' pref 100 2>/dev/null || true''
      in cstr_copy 512 (if proxy_enabled (w_proxy w)
           then ''ip route del default dev '' @ w_name w @ '' 2>/dev/null || true; '' @ rules
           else rules @ ''; ip route replace default via '' @ gw_str @ '' dev '' @ w_name w @ '' metric '' @
                fmt_u (w_table_id w) @ '' 2>/dev/null || true''))"

definition dhcp_bind :: "wan_env \<Rightarrow> nat \<Rightarrow> string \<Rightarrow> wan_manager \<Rightarrow> wan_manager" where
  "dhcp_bind env i txt wm =
     (case parse_lease txt of (ip_str, gw_str, mask_str) \<Rightarrow>
        let new_ip = str_to_ip ip_str; new_gw = str_to_ip gw_str;
            new_mask = (if str_to_ip mask_str = 0 then str_to_ip ''255.255.255.0'' else str_to_ip mask_str);
            w = wan_at wm i
        in if new_ip \<noteq> 0 \<and> (new_ip \<noteq> w_ip_addr w \<or> new_gw \<noteq> w_gateway w)
           then
             let wm = wan_manager_add_log env ''INFO'' (''[DHCP WAN'' @ fmt_u (w_id w) @ ''] Bound IP '' @ ip_str @
                        '', Gateway '' @ gw_str @ '' on '' @ w_name w) wm;
                 wm = upd_cfg_wan i (\<lambda>w. probe_default (w\<lparr>w_ip_addr := new_ip, w_gateway := new_gw,
                        w_netmask := new_mask, w_state := WAN_STATE_HEALTHY\<rparr>)) wm;
                 wm = (if new_gw \<noteq> 0 then os (SYSTEM (route_cmd w ip_str gw_str)) wm else wm);
                 wm = os (NET_APPLY_WAN_NAT (w_name w) True) wm
             in snd (wan_manager_rebalance env wm)
           else wm)"

definition dhcp_detect :: "wan_env \<Rightarrow> nat \<Rightarrow> wan_manager \<Rightarrow> wan_manager" where
  "dhcp_detect env i wm =
     (if w_ip_addr (wan_at wm i) \<noteq> 0 then wm
      else case env_ifaddr env (wm_history wm) (w_name (wan_at wm i)) of
             None \<Rightarrow> wm
           | Some addr \<Rightarrow>
               if addr \<noteq> 0 \<and> addr \<noteq> str_to_ip ''127.0.0.1''
               then snd (wan_manager_rebalance env
                      (upd_cfg_wan i (\<lambda>w. w\<lparr>w_ip_addr := addr, w_state := WAN_STATE_HEALTHY\<rparr>) wm))
               else wm)"

text \<open>Every two seconds: the table file, the link, the client process, then the lease.\<close>

definition write_table_file :: "wan_env \<Rightarrow> wan_config \<Rightarrow> wan_manager \<Rightarrow> wan_manager" where
  "write_table_file env w wm =
     (let path = cstr_copy 64 (''/run/fluxwan_table_'' @ w_name w)
      in if env_can_write env (wm_history wm) path
         then os (WRITE_FILE path (fmt_u (w_table_id w) @ [NL])) wm else wm)"

definition link_up_cmd :: "wan_config \<Rightarrow> string" where
  "link_up_cmd w = cstr_copy 256 (''ip link set '' @ w_name w @ '' up 2>/dev/null || true; '' @
     ''modprobe af_packet 2>/dev/null || modprobe packet 2>/dev/null || '' @
     ''insmod $(find /lib/modules -name '' @ [CHR 0x27] @ ''af_packet.ko*'' @ [CHR 0x27] @
     '' 2>/dev/null | head -n 1) 2>/dev/null || true'')"

definition read_lease :: "wan_env \<Rightarrow> nat \<Rightarrow> wan_manager \<Rightarrow> wan_manager" where
  "read_lease env i wm =
     (case env_file env (wm_history wm) (lease_path (wan_at wm i)) of
        Some txt \<Rightarrow> dhcp_bind env i txt wm
      | None \<Rightarrow> dhcp_detect env i wm)"

definition dhcp_check :: "wan_env \<Rightarrow> u64 \<Rightarrow> nat \<Rightarrow> wan_manager \<Rightarrow> wan_manager" where
  "dhcp_check env now i wm =
     (if now - last_dhcp_renew_ms wm ! i \<ge> 2000
      then read_lease env i (dhcp_spawn env i
             (os (SYSTEM (link_up_cmd (wan_at wm i))) (write_table_file env (wan_at wm i)
               (ensure_dhcp_hook_script env
                 (wm\<lparr>last_dhcp_renew_ms := (last_dhcp_renew_ms wm)[i := now]\<rparr>)))))
      else wm)"

definition tick_dhcp :: "wan_env \<Rightarrow> u64 \<Rightarrow> wan_manager \<Rightarrow> nat \<Rightarrow> wan_manager" where
  "tick_dhcp env now wm i =
     (let wm = wifi_poll env i wm
      in if dhcp_client (wan_at wm i) then dhcp_check env now i (dhcp_watchdog env now i wm) else wm)"

definition wan_manager_periodic_tick :: "wan_env \<Rightarrow> u64 \<Rightarrow> wan_manager \<Rightarrow> wan_manager" where
  "wan_manager_periodic_tick env now wm =
     (let wm = (if wm_pppoe wm = None then wm
                else pppoe_manager_tick env (on_pppoe_connected_cb env) (on_pppoe_disconnected_cb env) wm)
      in foldl (tick_dhcp env now) wm [0..<wan_count (wm_config wm)])"

end
