(* ===== verification/Wan_Rebalance.thy ===== *)
theory Wan_Rebalance
  imports Wan_Manager
begin

text \<open>
  What a rebalance does: the weights it computes, what it uploads to the data plane,
  and what it leaves alone. The callbacks of the PPPoE sessions end in a rebalance;
  the last section interprets the callback interface of the session manager on them.
\<close>

section \<open>Frames\<close>

lemma with_bpf_frame [simp]:
  "wm_config (with_bpf f wm) = wm_config wm" "wm_pppoe (with_bpf f wm) = wm_pppoe wm"
  "wm_history (with_bpf f wm) = wm_history wm" "g_logs (with_bpf f wm) = g_logs wm"
  "wm_nl (with_bpf f wm) = wm_nl wm" "wm_bpf (with_bpf f wm) = map_option f (wm_bpf wm)"
  by (simp_all add: with_bpf_def)

lemma push_wan_frame [simp]:
  "wm_config (push_wan env wm i) = wm_config wm" "wm_pppoe (push_wan env wm i) = wm_pppoe wm"
  "wm_history (push_wan env wm i) = wm_history wm" "g_logs (push_wan env wm i) = g_logs wm"
  "wm_nl (push_wan env wm i) = wm_nl wm"
  by (simp_all add: push_wan_def)

lemma upd_cfg_wan_frame [simp]:
  "wm_history (upd_cfg_wan i f wm) = wm_history wm" "g_logs (upd_cfg_wan i f wm) = g_logs wm"
  "wm_bpf (upd_cfg_wan i f wm) = wm_bpf wm" "wm_nl (upd_cfg_wan i f wm) = wm_nl wm"
  "wm_config (upd_cfg_wan i f wm) = upd_wan i f (wm_config wm)"
  by (simp_all add: upd_cfg_wan_def)

text \<open>One pass over the links: each is changed by \<open>f\<close> and written to the WAN table.\<close>

definition update_wans :: "wan_env \<Rightarrow> (wan_config \<Rightarrow> wan_config) \<Rightarrow> wan_manager \<Rightarrow> nat \<Rightarrow> wan_manager" where
  "update_wans env f wm n = foldl (\<lambda>wm i. push_wan env (upd_cfg_wan i f wm) i) wm [0..<n]"

lemma update_wans_Suc:
  "update_wans env f wm (Suc n) = push_wan env (upd_cfg_wan n f (update_wans env f wm n)) n"
  by (simp add: update_wans_def)

lemma update_wans_frame:
  assumes "n \<le> wan_count (wm_config wm)"
  shows "wm_config (update_wans env f wm n) =
      (wm_config wm)\<lparr>wans := map f (take n (wans (wm_config wm))) @ drop n (wans (wm_config wm))\<rparr> \<and>
    wm_pppoe (update_wans env f wm n) = wm_pppoe wm \<and> wm_history (update_wans env f wm n) = wm_history wm \<and>
    g_logs (update_wans env f wm n) = g_logs wm \<and> wm_nl (update_wans env f wm n) = wm_nl wm"
  using assms
proof (induction n)
  case 0
  then show ?case by (simp add: update_wans_def)
next
  case (Suc n)
  let ?ws = "wans (wm_config wm)"
  have "(map f (take n ?ws) @ drop n ?ws)[n := f ((map f (take n ?ws) @ drop n ?ws) ! n)] =
      map f (take (Suc n) ?ws) @ drop (Suc n) ?ws"
    using Suc.prems Cons_nth_drop_Suc [of n ?ws, symmetric]
    by (simp add: list_update_append nth_append take_Suc_conv_app_nth)
  then show ?case using Suc by (simp add: update_wans_Suc upd_wan_def)
qed

lemma revoke_all: "foldl (revoke_wan env) wm [0..<n] = update_wans env (\<lambda>w. w\<lparr>dynamic_weight := 0\<rparr>) wm n"
  by (simp add: update_wans_def revoke_wan_def [abs_def])

lemma rebalance_all:
  "n \<le> wan_count (wm_config wm) \<Longrightarrow>
   foldl (rebalance_wan env m) wm [0..<n] =
   update_wans env (rebalanced_wan (dynamic_latency_steering (prober (wm_config wm))) m) wm n"
proof (induction n)
  case 0
  then show ?case by (simp add: update_wans_def)
next
  case (Suc n)
  then show ?case
    using update_wans_frame [of n wm env] by (simp add: update_wans_Suc rebalance_wan_def)
qed

section \<open>The WAN table of the data plane\<close>

lemma update_wan_map_ok:
  "i < MAX_WANS \<Longrightarrow> bl_maps (unless_error (bpf_loader_update_wan_map ifx i w) ldr) =
     (if fd_wan_table ldr then (bl_maps ldr)\<lparr>wan_table_map :=
        array_modify (\<lambda>_. wan_map_entry ifx i w) (of_nat i) (wan_table_map (bl_maps ldr))\<rparr> else bl_maps ldr)"
  "fd_wan_table (unless_error (bpf_loader_update_wan_map ifx i w) ldr) = fd_wan_table ldr"
  "fd_maglev_lut (unless_error (bpf_loader_update_wan_map ifx i w) ldr) = fd_maglev_lut ldr"
  "fd_maglev_group (unless_error (bpf_loader_update_wan_map ifx i w) ldr) = fd_maglev_group ldr"
  by (simp_all add: unless_error_def bpf_loader_update_wan_map_def Let_def)

text \<open>The table agrees with the configuration on the first \<open>n\<close> links.\<close>

definition table_synced :: "(string \<Rightarrow> u32) \<Rightarrow> wan_config list \<Rightarrow> bpf_loader \<Rightarrow> nat \<Rightarrow> bool" where
  "table_synced ifx ws ldr n \<longleftrightarrow> (\<forall>i < n. wan_table_map (bl_maps ldr) ! i = wan_map_entry ifx i (ws ! i))"

lemma update_wans_table:
  assumes "wm_bpf wm = Some ldr" "fd_wan_table ldr" "maps_wf (bl_maps ldr)"
    and "n \<le> wan_count (wm_config wm)" "wan_count (wm_config wm) \<le> MAX_WANS"
  shows "\<exists>ldr'. wm_bpf (update_wans env f wm n) = Some ldr' \<and> maps_wf (bl_maps ldr') \<and>
    fd_wan_table ldr' \<and> fd_maglev_lut ldr' = fd_maglev_lut ldr \<and> fd_maglev_group ldr' = fd_maglev_group ldr \<and>
    table_synced (env_ifindex env (wm_history wm)) (map f (wans (wm_config wm))) ldr' n"
  using assms(4)
proof (induction n)
  case 0
  then show ?case using assms by (simp add: update_wans_def table_synced_def)
next
  case (Suc n)
  let ?wm = "update_wans env f wm n" and ?ifx = "env_ifindex env (wm_history wm)"
  obtain l where l: "wm_bpf ?wm = Some l" "maps_wf (bl_maps l)" "fd_wan_table l"
    "fd_maglev_lut l = fd_maglev_lut ldr" "fd_maglev_group l = fd_maglev_group ldr"
    "table_synced ?ifx (map f (wans (wm_config wm))) l n" using Suc by auto
  have n: "n < MAX_WANS" "n < wan_count (wm_config wm)" using Suc.prems assms(5) by simp_all
  note frame = update_wans_frame [of n wm env f]
  have w: "wan_at (upd_cfg_wan n f ?wm) n = f (wan_at wm n)"
    using frame n by (simp add: upd_wan_def nth_append)
  define l' where "l' = unless_error (bpf_loader_update_wan_map ?ifx n (f (wan_at wm n))) l"
  have l': "wm_bpf (update_wans env f wm (Suc n)) = Some l'"
    using frame n(2) l(1) w by (simp add: update_wans_Suc push_wan_def l'_def)
  have "unat (of_nat n :: u32) = n" using n(1) by (simp add: MAX_WANS_def unat_of_nat)
  moreover have "length (wan_table_map (bl_maps l)) = MAX_WANS"
    using l(2) by (simp add: maps_wf_def MAX_EBPF_WANS_def MAX_WANS_def)
  ultimately have tab: "wan_table_map (bl_maps l') =
      (wan_table_map (bl_maps l))[n := wan_map_entry ?ifx n (f (wan_at wm n))]"
    using n(1) l(3) by (simp add: l'_def update_wan_map_ok array_modify_def)
  have "table_synced ?ifx (map f (wans (wm_config wm))) l' (Suc n)"
    using l(6) n \<open>length (wan_table_map (bl_maps l)) = MAX_WANS\<close>
    by (auto simp: table_synced_def tab nth_list_update less_Suc_eq)
  moreover have "maps_wf (bl_maps l')"
    using l(2,3) n(1) by (simp add: l'_def update_wan_map_ok maps_wf_def array_modify_def)
  ultimately show ?case
    using l' l(3-5) by (auto simp: l'_def update_wan_map_ok)
qed

section \<open>Weights\<close>

lemma word_gt_zero: "(x :: u32) > 0 \<longleftrightarrow> x \<noteq> 0"
  by (simp add: word_gt_0)

lemma steered_weight_pos: "steered_weight steering m w > 0"
  by (simp add: steered_weight_def state_weight_def base_weight_def Let_def word_gt_zero)

text \<open>A link that may carry new flows.\<close>

definition carries :: "wan_config \<Rightarrow> bool" where
  "carries w \<longleftrightarrow> w_enabled w \<and> (w_state w = WAN_STATE_HEALTHY \<or> w_state w = WAN_STATE_DEGRADED)"

lemma rebalanced_wan_weight:
  "dynamic_weight (rebalanced_wan steering m w) > 0 \<longleftrightarrow> carries w"
  using steered_weight_pos by (cases "w_state w") (auto simp: rebalanced_wan_def carries_def)

lemma rebalanced_wan_frame [simp]:
  "w_type (rebalanced_wan steering m w) = w_type w"
  "w_enabled (rebalanced_wan steering m w) = w_enabled w"
  by (simp_all add: rebalanced_wan_def)

lemma rebalanced_wan_state:
  "w_state (rebalanced_wan steering m w) = (if w_enabled w then w_state w else WAN_STATE_DOWN)"
  by (simp add: rebalanced_wan_def)

lemma rebalanced_eligible:
  "wan_eligible (wan_map_entry ifx i (rebalanced_wan steering m w)) \<longleftrightarrow> carries w"
  "wan_ring_active (rebalanced_wan steering m w) \<longleftrightarrow> carries w"
  using rebalanced_wan_weight [of steering m w]
  by (cases "w_state w"; auto simp: wan_eligible_def wan_map_entry_def wan_ring_active_def
      rebalanced_wan_state carries_def)+

text \<open>The scaled weight stays below the base weight as long as the product fits 32 bits.\<close>

lemma steered_weight_le:
  assumes "unat (base_weight w) * unat m < 2 ^ 32"
  shows "unat (steered_weight steering m w) \<le> unat (base_weight w)"
proof -
  have b: "1 \<le> unat (base_weight w)"
    by (simp add: base_weight_def Let_def unat_gt_0 Suc_le_eq)
  have d: "unat (state_weight w) \<le> unat (base_weight w)"
    using b by (auto simp: state_weight_def Let_def unat_div)
  then have "unat (state_weight w) * unat m < 2 ^ 32"
    using assms by (meson le_less_trans mult_le_mono1)
  then have p: "unat (state_weight w * m) = unat (state_weight w) * unat m"
    by (simp add: unat_mult_lem [THEN iffD1])
  have "unat ((state_weight w * m) div rtt_ms (w_metrics w)) \<le> unat (state_weight w)"
    if "rtt_ms (w_metrics w) > m + 60" "m < 999999"
  proof -
    have "unat m \<le> unat (rtt_ms (w_metrics w))"
      using that by (simp add: word_less_nat_alt unat_word_ariths) 
    then have "unat (state_weight w) * unat m div unat (rtt_ms (w_metrics w)) \<le> unat (state_weight w)"
      by (metis div_le_mono div_mult_self_is_m le_eq_less_or_eq less_nat_zero_code mult_le_mono2 
          nonzero_mult_div_cancel_right zero_less_iff_neq_zero div_by_0)
    then show ?thesis by (simp add: unat_div p)
  qed
  then show ?thesis using d b by (auto simp: steered_weight_def Let_def)
qed

section \<open>The rings\<close>

lemma build_group_ring_frame [simp]:
  "wans (wm_config (build_group_ring env wm g)) = wans (wm_config wm)"
  "lan (wm_config (build_group_ring env wm g)) = lan (wm_config wm)"
  "wm_pppoe (build_group_ring env wm g) = wm_pppoe wm"
  "wm_history (build_group_ring env wm g) = wm_history wm"
  "g_logs (build_group_ring env wm g) = g_logs wm"
  "wm_nl (build_group_ring env wm g) = wm_nl wm"
  by (simp_all add: build_group_ring_def Let_def)

lemma build_group_rings_frame:
  "wans (wm_config (foldl (build_group_ring env) wm gs)) = wans (wm_config wm)"
  "lan (wm_config (foldl (build_group_ring env) wm gs)) = lan (wm_config wm)"
  "wm_pppoe (foldl (build_group_ring env) wm gs) = wm_pppoe wm"
  "wm_history (foldl (build_group_ring env) wm gs) = wm_history wm"
  "g_logs (foldl (build_group_ring env) wm gs) = g_logs wm"
  "wm_nl (foldl (build_group_ring env) wm gs) = wm_nl wm"
  by (induction gs arbitrary: wm) simp_all

lemma generate_maglev_lut_frame [simp]:
  "wans (wm_config (wan_manager_generate_maglev_lut env wm)) = wans (wm_config wm)"
  "lan (wm_config (wan_manager_generate_maglev_lut env wm)) = lan (wm_config wm)"
  "wm_pppoe (wan_manager_generate_maglev_lut env wm) = wm_pppoe wm"
  "wm_history (wan_manager_generate_maglev_lut env wm) = wm_history wm"
  "g_logs (wan_manager_generate_maglev_lut env wm) = g_logs wm"
  "wm_nl (wan_manager_generate_maglev_lut env wm) = wm_nl wm"
  by (simp_all add: wan_manager_generate_maglev_lut_def Let_def build_group_rings_frame)

text \<open>The part of the loader a group ring, a policy upload or a control update leaves alone.\<close>

definition same_tables :: "bpf_loader \<Rightarrow> bpf_loader \<Rightarrow> bool" where
  "same_tables l l' \<longleftrightarrow> wan_table_map (bl_maps l') = wan_table_map (bl_maps l) \<and>
     maglev_lut_map (bl_maps l') = maglev_lut_map (bl_maps l) \<and> fd_maglev_group l' = fd_maglev_group l"

lemma same_tables_updates:
  "same_tables l (unless_error (bpf_loader_update_group_maglev_lut g ring n) l)"
  "same_tables l (bpf_loader_update_policy_routes routes l)"
  "same_tables l (bpf_loader_update_ctrl_map ip a b c l)"
  by (simp_all add: same_tables_def unless_error_def bpf_loader_update_group_maglev_lut_def
      bpf_loader_update_policy_routes_def bpf_loader_update_ctrl_map_def)

lemma same_tables_trans: "same_tables a b \<Longrightarrow> same_tables b c \<Longrightarrow> same_tables a c"
  by (simp add: same_tables_def)

lemma build_group_ring_bpf:
  "wm_bpf wm = Some l \<Longrightarrow> \<exists>l'. wm_bpf (build_group_ring env wm g) = Some l' \<and> same_tables l l'"
  by (simp add: build_group_ring_def Let_def same_tables_updates) (simp add: same_tables_def)

lemma build_group_rings_bpf:
  "wm_bpf wm = Some l \<Longrightarrow> \<exists>l'. wm_bpf (foldl (build_group_ring env) wm gs) = Some l' \<and> same_tables l l'"
proof (induction gs arbitrary: wm l)
  case Nil
  then show ?case by (simp add: same_tables_def)
next
  case (Cons g gs)
  then show ?case using build_group_ring_bpf [OF Cons.prems, of env g] same_tables_trans by fastforce
qed

lemma generate_maglev_lut_bpf:
  assumes "wm_bpf wm = Some l" "fd_maglev_lut l" "maps_wf (bl_maps l)" "wan_count (wm_config wm) \<noteq> 0"
    and len: "length (build_single_maglev_ring (wm_config wm) (env_junk env)
      (map of_nat [0..<wan_count (wm_config wm)])) = MAGLEV_RING_SIZE"
  shows "\<exists>l'. wm_bpf (wan_manager_generate_maglev_lut env wm) = Some l' \<and>
    wan_table_map (bl_maps l') = wan_table_map (bl_maps l) \<and>
    maglev_lut_map (bl_maps l') = build_single_maglev_ring (wm_config wm) (env_junk env)
      (map of_nat [0..<wan_count (wm_config wm)])"
proof -
  define ring where "ring = build_single_maglev_ring (wm_config wm) (env_junk env)
    (map of_nat [0..<wan_count (wm_config wm)])"
  define l1 where "l1 = unless_error (bpf_loader_update_maglev_lut ring MAGLEV_RING_SIZE) l"
  have "MAGLEV_RING_SIZE \<noteq> 0" by (simp add: MAGLEV_RING_SIZE_def)
  moreover have "lut_batches ring MAGLEV_RING_SIZE 0 (maglev_lut_map (bl_maps l)) = ring"
    using len assms(3) by (intro lut_batches_full) (simp_all add: ring_def maps_wf_def)
  ultimately have l1: "maglev_lut_map (bl_maps l1) = ring" "wan_table_map (bl_maps l1) = wan_table_map (bl_maps l)"
    using assms(2) by (simp_all add: l1_def unless_error_def bpf_loader_update_maglev_lut_def)
  let ?wm = "with_bpf (unless_error (bpf_loader_update_maglev_lut ring MAGLEV_RING_SIZE)) (wm\<lparr>maglev_lut := ring\<rparr>)"
  have "wm_bpf ?wm = Some l1" using assms(1) by (simp add: l1_def)
  then obtain l2 where l2: "wm_bpf (foldl (build_group_ring env) ?wm [0..<length (groups (wm_config ?wm))]) = Some l2"
    "same_tables l1 l2" using build_group_rings_bpf by blast
  have "wm_bpf (wan_manager_generate_maglev_lut env wm) =
      Some (bpf_loader_update_policy_routes (policy_routes (lan (wm_config wm))) l2)"
    using l2(1) assms(4)
    by (simp add: wan_manager_generate_maglev_lut_def Let_def ring_def [symmetric] build_group_rings_frame)
  moreover have "same_tables l1 (bpf_loader_update_policy_routes (policy_routes (lan (wm_config wm))) l2)"
    using same_tables_trans l2(2) same_tables_updates(2) by blast
  ultimately show ?thesis using l1 by (auto simp: same_tables_def ring_def)
qed

section \<open>A rebalance\<close>

lemma rebalance_authorized:
  assumes "env_authorized env (wm_history wm)"
  shows "wan_manager_rebalance env wm =
    (let f = rebalanced_wan (dynamic_latency_steering (prober (wm_config wm)))
           (min_healthy_rtt (wans (wm_config wm)));
         wm1 = wan_manager_generate_maglev_lut env (update_wans env f wm (wan_count (wm_config wm)));
         wm2 = with_bpf (bpf_loader_update_ctrl_map (lan_ip_addr (lan (wm_config wm1)))
                 (active_wan_total (wans (wm_config wm1))) 1 0) wm1
     in (0, os (NET_APPLY_CONFIGURATION (wm_config wm2) (wm_nl wm2)) wm2))"
  using assms by (simp add: wan_manager_rebalance_def Let_def rebalance_all)

lemma rebalance_wans:
  assumes "env_authorized env (wm_history wm)"
  shows "wans (wm_config (snd (wan_manager_rebalance env wm))) =
    map (rebalanced_wan (dynamic_latency_steering (prober (wm_config wm)))
      (min_healthy_rtt (wans (wm_config wm)))) (wans (wm_config wm))"
  using update_wans_frame [of "wan_count (wm_config wm)" wm env]
  by (simp add: rebalance_authorized [OF assms] Let_def)

lemma revoked_wans:
  assumes "\<not> env_authorized env (wm_history wm)"
  shows "wan_manager_rebalance env wm =
    (-2, update_wans env (\<lambda>w. w\<lparr>dynamic_weight := 0\<rparr>) wm (wan_count (wm_config wm)))"
  using assms by (simp add: wan_manager_rebalance_def Let_def revoke_all)

lemma rebalance_frame [simp]:
  "wm_pppoe (snd (wan_manager_rebalance env wm)) = wm_pppoe wm"
  "g_logs (snd (wan_manager_rebalance env wm)) = g_logs wm"
  "admin (snd (wan_manager_rebalance env wm)) = admin wm"
  using update_wans_frame [of "wan_count (wm_config wm)" wm env]
  by (cases "env_authorized env (wm_history wm)";
      simp add: rebalance_authorized revoked_wans Let_def admin_def os_def comp_def)+

lemma wan_count_rebalance [simp]:
  "wan_count (wm_config (snd (wan_manager_rebalance env wm))) = wan_count (wm_config wm)"
  by (metis admin_def length_map rebalance_frame(3))



text \<open>
  Enforcement of the licence. Without authorisation a rebalance returns the error
  code -2 and withdraws every link: all weights are 0 in the configuration, and no
  configured link is eligible for new flows in the data plane.
\<close>

theorem rebalance_unauthorized:
  assumes auth: "\<not> env_authorized env (wm_history wm)"
    and ldr: "wm_bpf wm = Some ldr" "fd_wan_table ldr" "maps_wf (bl_maps ldr)"
    and n: "wan_count (wm_config wm) \<le> MAX_WANS"
  shows "fst (wan_manager_rebalance env wm) = -2 \<and>
    (\<forall>w \<in> set (wans (wm_config (snd (wan_manager_rebalance env wm)))). dynamic_weight w = 0) \<and>
    (\<exists>ldr'. wm_bpf (snd (wan_manager_rebalance env wm)) = Some ldr' \<and>
       (\<forall>i < wan_count (wm_config wm). \<not> wan_eligible (wan_table_map (bl_maps ldr') ! i)))"
proof -
  let ?n = "wan_count (wm_config wm)" and ?f = "\<lambda>w :: wan_config. w\<lparr>dynamic_weight := 0\<rparr>"
  obtain l where "wm_bpf (update_wans env ?f wm ?n) = Some l"
    "table_synced (env_ifindex env (wm_history wm)) (map ?f (wans (wm_config wm))) l ?n"
    using update_wans_table [OF ldr _ n, of ?n env ?f] by auto
  then show ?thesis
    using update_wans_frame [of ?n wm env ?f]
    by (auto simp: revoked_wans [OF auth] table_synced_def wan_eligible_def wan_map_entry_def)
qed

section \<open>Sample managers\<close>

definition sample_env :: "bool \<Rightarrow> wan_env" where
  "sample_env auth = \<lparr>env_time = (\<lambda>_. 0), env_localtime = (\<lambda>_. None), env_now_ms = (\<lambda>_. 1000),
     env_authorized = (\<lambda>_. auth), env_ifindex = (\<lambda>_ _. 4), env_junk = (\<lambda>_. undefined),
     env_wifi_link = (\<lambda>_ _. None), env_file = (\<lambda>_ _. None), env_can_write = (\<lambda>_ _. True),
     env_executable = (\<lambda>_ _. True), env_alive = (\<lambda>_ _. True), env_exited = (\<lambda>_ _. False),
     env_fork = (\<lambda>_. 100), env_popen_line = (\<lambda>_ _. None), env_ifaddr = (\<lambda>_ _. None)\<rparr>"

definition sample_manager :: "fluxwan_config \<Rightarrow> wan_manager" where
  "sample_manager cfg = \<lparr>wm_config = cfg, wm_nl = True, wm_bpf = Some sample_loader,
     wm_pppoe = Some pppoe_manager_init, maglev_lut = [], last_dhcp_renew_ms = replicate MAX_WANS 0,
     dhcp_dead_cycles = replicate MAX_WANS 0, last_dhcp_rebind_ms = replicate MAX_WANS 0,
     g_logs = [], s_hook_installed = True, wm_history = []\<rparr>"

lemma sample_loader_maps_wf: "maps_wf (bl_maps sample_loader)"
  by (simp add: sample_loader_def maps_wf_empty)

lemma sample_manager_simps [simp]:
  "wm_config (sample_manager cfg) = cfg" "wm_history (sample_manager cfg) = []"
  "wm_bpf (sample_manager cfg) = Some sample_loader" "wm_pppoe (sample_manager cfg) = Some pppoe_manager_init"
  "env_authorized (sample_env auth) h = auth" "fork_ok (sample_env auth)"
  by (simp_all add: sample_manager_def sample_env_def fork_ok_def)



theorem rebalance_unauthorized_witness:
  "fst (wan_manager_rebalance (sample_env False) (sample_manager sample_config)) = -2 \<and>
   (\<exists>ldr'. wm_bpf (snd (wan_manager_rebalance (sample_env False) (sample_manager sample_config))) = Some ldr' \<and>
      \<not> wan_eligible (wan_table_map (bl_maps ldr') ! 0))"
proof -
  have "wan_count sample_config \<le> MAX_WANS" "0 < wan_count sample_config" by code_simp+
  moreover have "fd_wan_table sample_loader" by (simp add: sample_loader_def)
  ultimately show ?thesis
    using rebalance_unauthorized [of "sample_env False" "sample_manager sample_config" sample_loader]
      sample_loader_maps_wf by auto
qed

section \<open>The callbacks\<close>

lemma os_frame [simp]:
  "wm_bpf (os a wm) = wm_bpf wm" "g_logs (os a wm) = g_logs wm" "wm_nl (os a wm) = wm_nl wm"
  "admin (os a wm) = admin wm" "wm_history (os a wm) = wm_history wm @ [a]"
  by (simp_all add: os_def admin_def)

lemma add_log_frame [simp]:
  "wm_bpf (wan_manager_add_log env l m wm) = wm_bpf wm" "admin (wan_manager_add_log env l m wm) = admin wm"
  "wm_nl (wan_manager_add_log env l m wm) = wm_nl wm"
  "wm_history (wan_manager_add_log env l m wm) = wm_history wm"
  by (simp_all add: wan_manager_add_log_def Let_def admin_def)

lemma admin_upd_cfg_wan:
  "(\<And>w. w_type (f w) = w_type w \<and> w_enabled (f w) = w_enabled w) \<Longrightarrow> admin (upd_cfg_wan i f wm) = admin wm"
  by (cases "i < wan_count (wm_config wm)")
    (auto intro!: nth_equalityI simp: admin_def upd_wan_def nth_list_update)

lemma probe_default_frame [simp]:
  "w_type (probe_default w) = w_type w" "w_enabled (probe_default w) = w_enabled w"
  by (simp_all add: probe_default_def)

lemma ppp_setup_frame [simp]:
  "wm_pppoe (ppp_default_route env table ifname gw wm) = wm_pppoe wm"
  "admin (ppp_default_route env table ifname gw wm) = admin wm"
  "wm_pppoe (ppp_shield ifname wm) = wm_pppoe wm" "admin (ppp_shield ifname wm) = admin wm"
  by (simp_all add: ppp_default_route_def ppp_shield_def Let_def)

lemma connected_link_frame [simp]:
  "w_type (connected_link ip gw w) = w_type w" "w_enabled (connected_link ip gw w) = w_enabled w"
  by (simp_all add: connected_link_def)

interpretation cb: pppoe_callbacks "on_pppoe_connected_cb env" "on_pppoe_disconnected_cb env" for env
proof
  fix i ifname ip gw n wm
  show "wm_pppoe (on_pppoe_connected_cb env i ifname ip gw wm) = wm_pppoe wm"
    by (simp add: on_pppoe_connected_cb_def Let_def)
  show "admin (on_pppoe_connected_cb env i ifname ip gw wm) = admin wm"
    by (simp add: on_pppoe_connected_cb_def Let_def admin_upd_cfg_wan)
  show "wm_pppoe (on_pppoe_disconnected_cb env i ifname n wm) = wm_pppoe wm"
    by (simp add: on_pppoe_disconnected_cb_def Let_def)
  show "admin (on_pppoe_disconnected_cb env i ifname n wm) = admin wm"
    by (simp add: on_pppoe_disconnected_cb_def Let_def admin_upd_cfg_wan)
qed

end
