(* ===== verification/Wan_Lifecycle.thy ===== *)
theory Wan_Lifecycle
  imports Wan_Rebalance
begin

text \<open>
  The WAN manager over time: the states the daemon can reach, the invariant of its
  PPPoE sessions, reconnection delays, the treatment of draining links and the DHCP
  watchdog.
\<close>

section \<open>Frames of the DHCP engine\<close>

text \<open>Neither the session table nor an administrative setting is touched.\<close>

definition daemon_frame :: "wan_manager \<Rightarrow> wan_manager \<Rightarrow> bool" where
  "daemon_frame wm wm' \<longleftrightarrow> wm_pppoe wm' = wm_pppoe wm \<and> admin wm' = admin wm"

lemma daemon_frame_refl [simp]: "daemon_frame wm wm"
  by (simp add: daemon_frame_def)

lemma daemon_frame_trans: "daemon_frame a b \<Longrightarrow> daemon_frame b c \<Longrightarrow> daemon_frame a c"
  by (simp add: daemon_frame_def)

lemma daemon_frame_os [simp]:
  "daemon_frame wm0 (os a wm) = daemon_frame wm0 wm"
  "daemon_frame wm0 (wan_manager_add_log env l m wm) = daemon_frame wm0 wm"
  "daemon_frame wm0 (snd (wan_manager_rebalance env wm)) = daemon_frame wm0 wm"
  "daemon_frame wm0 (wm\<lparr>last_dhcp_renew_ms := a1\<rparr>) = daemon_frame wm0 wm"
  "daemon_frame wm0 (wm\<lparr>dhcp_dead_cycles := a2\<rparr>) = daemon_frame wm0 wm"
  "daemon_frame wm0 (wm\<lparr>last_dhcp_rebind_ms := a3\<rparr>) = daemon_frame wm0 wm"
  "daemon_frame wm0 (wm\<lparr>s_hook_installed := a4\<rparr>) = daemon_frame wm0 wm"
  by (simp_all add: daemon_frame_def) (simp_all add: admin_def)

lemma daemon_frame_upd:
  "(\<And>w. w_type (f w) = w_type w \<and> w_enabled (f w) = w_enabled w) \<Longrightarrow>
   daemon_frame wm0 (upd_cfg_wan i f wm) = daemon_frame wm0 wm"
  by (simp add: daemon_frame_def admin_upd_cfg_wan)

lemma frame_wifi_poll: "daemon_frame wm (wifi_poll env i wm)"
  by (simp add: wifi_poll_def Let_def daemon_frame_upd split: option.splits)

lemma frame_kill_udhcpc [simp]: "daemon_frame wm0 (kill_udhcpc env path wm) = daemon_frame wm0 wm"
  by (simp add: kill_udhcpc_def split: option.splits)

lemma frame_dhcp_renew_wan: "daemon_frame wm (dhcp_renew_wan env i wm)"
  by (simp add: dhcp_renew_wan_def Let_def)

lemma foldl_frame:
  "(\<And>wm i. daemon_frame wm (f wm i)) \<Longrightarrow> daemon_frame wm (foldl f wm xs)"
  by (induction xs arbitrary: wm) (auto intro: daemon_frame_trans)

lemma frame_dhcp_renew: "daemon_frame wm (wan_manager_dhcp_renew env idx wm)"
  unfolding wan_manager_dhcp_renew_def by (rule foldl_frame) (simp add: frame_dhcp_renew_wan)

lemma frame_watchdog: "daemon_frame wm (dhcp_watchdog env now i wm)"
proof -
  have "daemon_frame wm wm1 \<Longrightarrow> daemon_frame wm (wan_manager_dhcp_renew env idx wm1)" for idx wm1
    using daemon_frame_trans frame_dhcp_renew by blast
  then show ?thesis by (simp add: dhcp_watchdog_def Let_def)
qed

lemma frame_dhcp_check: "daemon_frame wm (dhcp_check env now i wm)"
proof -
  have hook: "daemon_frame wm0 (ensure_dhcp_hook_script env wm1) = daemon_frame wm0 wm1" for wm0 wm1
    by (simp add: ensure_dhcp_hook_script_def)
  have tab: "daemon_frame wm0 (write_table_file env w wm1) = daemon_frame wm0 wm1" for wm0 wm1 w
    by (simp add: write_table_file_def Let_def)
  have spawn: "daemon_frame wm0 (dhcp_spawn env i wm1) = daemon_frame wm0 wm1" for wm0 wm1
    by (simp add: dhcp_spawn_def Let_def)
  have lease: "daemon_frame wm0 (read_lease env i wm1) = daemon_frame wm0 wm1" for wm0 wm1
    by (simp add: read_lease_def dhcp_bind_def dhcp_detect_def Let_def daemon_frame_upd split: option.splits prod.splits)
  show ?thesis by (simp add: dhcp_check_def hook tab spawn lease)
qed

lemma frame_tick_dhcp: "daemon_frame wm (tick_dhcp env now wm i)"
proof -
  let ?wm1 = "wifi_poll env i wm"
  have "daemon_frame wm (dhcp_check env now i (dhcp_watchdog env now i ?wm1))"
    by (rule daemon_frame_trans [OF daemon_frame_trans [OF frame_wifi_poll frame_watchdog] frame_dhcp_check])
  then show ?thesis by (simp add: tick_dhcp_def Let_def frame_wifi_poll)
qed

lemma frame_health_update: "daemon_frame wm (wan_manager_on_health_update env i st m wm)"
proof -
  have "daemon_frame wm0 (health_alert w st wm1) = daemon_frame wm0 wm1" for wm0 wm1 w
    by (simp add: health_alert_def send_telegram_alert_def Let_def)
  then show ?thesis
    by (simp add: wan_manager_on_health_update_def Let_def daemon_frame_upd split: option.splits)
qed

section \<open>Reachable states\<close>

text \<open>
  The daemon starts from a configuration that fits its tables; afterwards it ticks,
  receives health reports and renewal requests, rebalances, and the web interface may
  install another configuration at any time.
\<close>

inductive daemon_reachable :: "wan_env \<Rightarrow> wan_manager \<Rightarrow> bool" for env where
  start: "wan_count cfg \<le> MAX_WANS \<Longrightarrow> daemon_reachable env (wan_manager_init env cfg nl bpf logs hook h)"
| tick: "daemon_reachable env wm \<Longrightarrow> daemon_reachable env (wan_manager_periodic_tick env now wm)"
| health: "daemon_reachable env wm \<Longrightarrow> daemon_reachable env (wan_manager_on_health_update env i st m wm)"
| renew: "daemon_reachable env wm \<Longrightarrow> daemon_reachable env (wan_manager_dhcp_renew env idx wm)"
| rebalance: "daemon_reachable env wm \<Longrightarrow> daemon_reachable env (snd (wan_manager_rebalance env wm))"
| configure: "daemon_reachable env wm \<Longrightarrow> wan_count cfg \<le> MAX_WANS \<Longrightarrow>
    daemon_reachable env (wm\<lparr>wm_config := cfg\<rparr>)"

definition daemon_inv :: "wan_manager \<Rightarrow> bool" where
  "daemon_inv wm \<longleftrightarrow> pppoe_inv wm \<and> length (admin wm) \<le> MAX_WANS"

lemma daemon_inv_frame: "daemon_frame wm wm' \<Longrightarrow> daemon_inv wm \<Longrightarrow> daemon_inv wm'"
  by (metis daemon_frame_def daemon_inv_def pppoe_state_cong(3))

lemma daemon_inv_init:
  assumes "fork_ok env" "wan_count cfg \<le> MAX_WANS"
  shows "daemon_inv (wan_manager_init env cfg nl bpf logs hook h)"
proof -
  define wm0 :: wan_manager where "wm0 = \<lparr>wm_config = cfg, wm_nl = nl, wm_bpf = bpf, wm_pppoe = None,
    maglev_lut = replicate MAGLEV_RING_SIZE 0, last_dhcp_renew_ms = replicate MAX_WANS 0,
    dhcp_dead_cycles = replicate MAX_WANS 0, last_dhcp_rebind_ms = replicate MAX_WANS 0,
    g_logs = logs, s_hook_installed = hook, wm_history = h\<rparr>"
  define wm1 where "wm1 = (wan_manager_add_log env ''INFO'' ''FluxWAN Core Multi-WAN Router Engine started'' wm0)
    \<lparr>wm_pppoe := Some pppoe_manager_init\<rparr>"
  have "daemon_inv wm1" using assms(2) pppoe_inv_init [of wm1]
    by (simp add: daemon_inv_def wm1_def wm0_def admin_def)
  moreover have "daemon_frame wm (init_wan env wm i)" for wm i
    by (simp add: init_wan_def Let_def) (simp add: daemon_frame_def push_wan_def with_bpf_def admin_def)
  then have "daemon_frame wm1 (foldl (init_wan env) wm1 [0..<wan_count cfg])" by (rule foldl_frame)
  ultimately have inv: "daemon_inv (foldl (init_wan env) wm1 [0..<wan_count cfg])"
    using daemon_inv_frame by blast
  have start: "daemon_inv (if w_type (wan_at wm i) = WAN_TYPE_PPPOE \<and> w_enabled (wan_at wm i)
      then snd (pppoe_session_start env i (wan_at wm i) wm) else wm) \<and>
      length (admin (if w_type (wan_at wm i) = WAN_TYPE_PPPOE \<and> w_enabled (wan_at wm i)
      then snd (pppoe_session_start env i (wan_at wm i) wm) else wm)) = length (admin wm)"
    if "daemon_inv wm" "i < length (admin wm)" for wm i
    using pppoe_session_start_effect [of wm i env "wan_at wm i"] that assms(1)
    by (auto simp: daemon_inv_def admin_def)
  have "daemon_inv (foldl (\<lambda>wm i. if w_type (wan_at wm i) = WAN_TYPE_PPPOE \<and> w_enabled (wan_at wm i)
      then snd (pppoe_session_start env i (wan_at wm i) wm) else wm) wm is)"
    if "daemon_inv wm" "\<forall>i \<in> set is. i < length (admin wm)" for wm "is"
    using that
  proof (induction "is" arbitrary: wm)
    case (Cons i "is")
    then show ?case using start [of wm i] by (simp del: if_split)
  qed simp
  then have "daemon_inv (pppoe_manager_start_all env (foldl (init_wan env) wm1 [0..<wan_count cfg]))"
    using inv by (simp add: pppoe_manager_start_all_def admin_def)
  then show ?thesis
    unfolding wan_manager_init_def Let_def wm0_def [symmetric] wm1_def [symmetric]
    by (rule daemon_inv_frame [rotated]) (simp add: daemon_frame_def, simp add: admin_def)
qed

lemma daemon_inv_tick:
  assumes "fork_ok env" "daemon_inv wm"
  shows "daemon_inv (wan_manager_periodic_tick env now wm)"
proof -
  have "wm_pppoe wm \<noteq> None" using assms(2)
    by (auto simp: daemon_inv_def pppoe_inv_def pppoe_table_def split: option.splits)
  moreover have "wan_count (wm_config wm) \<le> MAX_WANS" using assms(2) by (simp add: daemon_inv_def admin_def)
  ultimately have "daemon_inv (pppoe_manager_tick env (on_pppoe_connected_cb env) (on_pppoe_disconnected_cb env) wm)"
    using cb.tick_spec [OF assms(1)] assms(2) by (simp add: daemon_inv_def)
  moreover have "daemon_frame wm1 (foldl (tick_dhcp env now) wm1 xs)" for wm1 xs
    by (rule foldl_frame) (rule frame_tick_dhcp)
  ultimately show ?thesis
    using \<open>wm_pppoe wm \<noteq> None\<close> daemon_inv_frame
    unfolding wan_manager_periodic_tick_def Let_def by (metis (full_types))
qed

lemma reachable_daemon_inv:
  assumes "daemon_reachable env wm" "fork_ok env"
  shows "daemon_inv wm"
  using assms
proof (induction rule: daemon_reachable.induct)
  case (start cfg nl bpf logs hook h)
  then show ?case by (simp add: daemon_inv_init)
next
  case (tick wm now)
  then show ?case by (simp add: daemon_inv_tick)
next
  case (health wm i st m)
  then show ?case using daemon_inv_frame frame_health_update by blast
next
  case (renew wm idx)
  then show ?case using daemon_inv_frame frame_dhcp_renew by blast
next
  case (rebalance wm)
  have "daemon_frame wm (snd (wan_manager_rebalance env wm))" by simp
  then show ?case using rebalance daemon_inv_frame by blast
next
  case (configure wm cfg)
  then show ?case using pppoe_state_cong(3) [of "wm\<lparr>wm_config := cfg\<rparr>" wm]
    by (simp add: daemon_inv_def) (simp add: admin_def)
qed

text \<open>
  C12. PPPoE sessions stay consistent. In every state the daemon can reach, by ticks,
  health reports, lease renewals, rebalances and configuration changes in any order,
  every session slot is well formed: a dialling or connected session owns a pppd
  process, an idle one owns neither a process nor an address, and the reconnection
  delay is 15, 30, 60 or 120 seconds.
\<close>

theorem pppoe_sessions_consistent:
  assumes "daemon_reachable env wm" "fork_ok env" "i < MAX_WANS"
  shows "session_wf (sess_at wm i)"
  using reachable_daemon_inv [OF assms(1,2)] assms(3) by (simp add: daemon_inv_def pppoe_inv_def)

theorem pppoe_sessions_consistent_witness:
  "session_wf (sess_at (wan_manager_periodic_tick (sample_env True) 5000
     (wan_manager_init (sample_env True) zero_config True None [] False [])) 3)"
proof (rule pppoe_sessions_consistent)
  show "daemon_reachable (sample_env True) (wan_manager_periodic_tick (sample_env True) 5000
      (wan_manager_init (sample_env True) zero_config True None [] False []))"
    by (intro daemon_reachable.intros) (simp add: zero_config_def)
qed (simp_all add: MAX_WANS_def)

text \<open>
  A link that is switched off has no PPPoE process: in every reachable state, one
  tick of the daemon later, each PPPoE link that is administratively disabled owns no
  pppd process.
\<close>

theorem pppoe_disabled_stopped:
  assumes "daemon_reachable env wm" "fork_ok env"
    and "i < wan_count (wm_config wm)" "w_type (wan_at wm i) = WAN_TYPE_PPPOE" "\<not> w_enabled (wan_at wm i)"
  shows "pppd_pid (sess_at (wan_manager_periodic_tick env now wm) i) = -1"
proof -
  have inv: "daemon_inv wm" by (rule reachable_daemon_inv [OF assms(1,2)])
  let ?wm1 = "pppoe_manager_tick env (on_pppoe_connected_cb env) (on_pppoe_disconnected_cb env) wm"
  have "wm_pppoe wm \<noteq> None" using inv
    by (auto simp: daemon_inv_def pppoe_inv_def pppoe_table_def split: option.splits)
  then have tick: "wan_manager_periodic_tick env now wm = foldl (tick_dhcp env now) ?wm1 [0..<wan_count (wm_config ?wm1)]"
    by (auto simp: wan_manager_periodic_tick_def Let_def)
  have "pppd_pid (sess_at ?wm1 i) = -1"
    using cb.tick_spec [OF assms(2), of wm] inv assms(3-5) by (simp add: daemon_inv_def admin_def)
  moreover have "daemon_frame ?wm1 (foldl (tick_dhcp env now) ?wm1 [0..<wan_count (wm_config ?wm1)])"
    by (rule foldl_frame) (rule frame_tick_dhcp)
  ultimately show ?thesis
    unfolding tick daemon_frame_def sess_at_def by simp
qed

definition sample_pppoe_off :: fluxwan_config where
  "sample_pppoe_off = zero_config\<lparr>wans := [zero_wan\<lparr>w_type := WAN_TYPE_PPPOE\<rparr>]\<rparr>"

theorem pppoe_disabled_stopped_witness:
  "pppd_pid (sess_at (wan_manager_periodic_tick (sample_env True) 5000
     ((wan_manager_init (sample_env True) zero_config True None [] False [])\<lparr>wm_config := sample_pppoe_off\<rparr>)) 0) = -1"
proof (rule pppoe_disabled_stopped)
  show "daemon_reachable (sample_env True)
      ((wan_manager_init (sample_env True) zero_config True None [] False [])\<lparr>wm_config := sample_pppoe_off\<rparr>)"
    by (intro daemon_reachable.intros) (simp_all add: zero_config_def sample_pppoe_off_def MAX_WANS_def)
qed (simp_all add: sample_pppoe_off_def zero_wan_def)

section \<open>Reconnection\<close>

text \<open>
  Reconnection backs off. When a session's pppd is found dead, the session becomes
  disconnected, the next dial is scheduled after the current delay, the delay doubles
  up to 120 seconds, and until the scheduled time a tick leaves the session as it is.
\<close>

theorem pppoe_backoff:
  assumes inv: "pppoe_inv wm" "i < MAX_WANS"
    and dead: "pppd_pid (sess_at wm i) > 0" "env_exited env (wm_history wm) (pppd_pid (sess_at wm i))"
  shows "let wm' = tick_process env (on_pppoe_disconnected_cb env) now i wm; s' = sess_at wm' i
    in ps_state s' = PPPOE_STATE_DISCONNECTED \<and> pppd_pid s' = -1 \<and>
       next_retry_ms s' = now + ucast (backoff_s (sess_at wm i)) * 1000 \<and>
       unat (backoff_s s') = min 120 (2 * unat (backoff_s (sess_at wm i))) \<and>
       (\<forall>later < next_retry_ms s'.
          tick_state env (on_pppoe_connected_cb env) (on_pppoe_disconnected_cb env) later i wm' = wm')"
proof -
  let ?s = "sess_at wm i"
  define wm' where "wm' = tick_process env (on_pppoe_disconnected_cb env) now i wm"
  have tab: "pppoe_table (os (WAITPID (pppd_pid ?s)) wm)" using inv(1) by (simp add: pppoe_inv_def)
  have s': "sess_at wm' i = exited_session now ?s"
    using dead inv(2) sess_at_upd_sess [OF tab inv(2), of "exited_session now" i]
    by (simp add: wm'_def tick_process_def Let_def pppoe_state_cong(1) [OF cb.disconnected_pppoe])
  have "backoff_s ?s \<in> {15, 30, 60, 120}" using pppoe_inv_D(2) [OF inv] by (simp add: session_wf_def)
  then have "unat (next_backoff (backoff_s ?s)) = min 120 (2 * unat (backoff_s ?s))"
    by (auto simp: next_backoff_def PPPOE_MAX_BACKOFF_S_def)
  then show ?thesis
    by (auto simp: wm'_def [symmetric] Let_def s' exited_session_def tick_state_def dest: leD)
qed

definition sample_dead_pppd :: wan_env where
  "sample_dead_pppd = (sample_env True)\<lparr>env_exited := (\<lambda>_ _. True)\<rparr>"

definition sample_dialing :: wan_manager where
  "sample_dialing = upd_sess 0 (dialing_session 100 0) (sample_manager sample_config)"

lemma sample_dialing_inv: "pppoe_inv sample_dialing" "sess_at sample_dialing 0 = dialing_session 100 0 (init_session 0)"
proof -
  have init: "pppoe_inv (sample_manager sample_config)" by (rule pppoe_inv_init) simp
  have s: "sess_at (sample_manager sample_config) 0 = init_session 0"
    by (simp add: sess_at_def pppoe_manager_init_def MAX_WANS_def)
  have upd: "sess_at sample_dialing j = (if j = 0 then dialing_session 100 0 (init_session 0)
      else sess_at (sample_manager sample_config) j)" for j
    using sess_at_upd_sess [OF pppoe_inv_D(1) [OF init], of 0] s by (simp add: sample_dialing_def MAX_WANS_def)
  then show "sess_at sample_dialing 0 = dialing_session 100 0 (init_session 0)" by simp
  have "session_wf (dialing_session 100 0 (init_session 0))"
    by (simp add: session_wf_def dialing_session_def init_session_def PPPOE_INITIAL_BACKOFF_S_def)
  then show "pppoe_inv sample_dialing"
    using pppoe_inv_change [OF init _ upd] pppoe_inv_D(1) [OF init] by (simp add: sample_dialing_def)
qed

theorem pppoe_backoff_witness:
  "unat (backoff_s (sess_at (tick_process sample_dead_pppd (on_pppoe_disconnected_cb sample_dead_pppd) 9000 0
     sample_dialing) 0)) = 30"
proof -
  have "0 < MAX_WANS" "pppd_pid (sess_at sample_dialing 0) > 0" "unat (backoff_s (sess_at sample_dialing 0)) = 15"
    "\<And>h pid. env_exited sample_dead_pppd h pid"
    by (simp_all add: sample_dialing_inv(2) dialing_session_def init_session_def PPPOE_INITIAL_BACKOFF_S_def
        MAX_WANS_def sample_dead_pppd_def)
  then show ?thesis
    using pppoe_backoff [OF sample_dialing_inv(1), of 0 sample_dead_pppd 9000] by (simp add: Let_def)
qed

section \<open>Draining links\<close>

text \<open>
  Maintenance wins over health reports: a report for a link that drains changes its
  metrics and nothing else. The link keeps draining, nothing is logged, no request
  goes to the system and the data plane is untouched.
\<close>

theorem health_update_draining:
  assumes "i < wan_count (wm_config wm)" "w_state (wan_at wm i) = WAN_STATE_DRAINING"
  shows "wan_manager_on_health_update env i st (Some m) wm = upd_cfg_wan i (\<lambda>w. w\<lparr>w_metrics := m\<rparr>) wm \<and>
    w_state (wan_at (wan_manager_on_health_update env i st (Some m) wm) i) = WAN_STATE_DRAINING"
  using assms by (simp add: wan_manager_on_health_update_def Let_def upd_wan_def)

theorem health_update_draining_witness:
  "w_state (wan_at (wan_manager_on_health_update (sample_env True) 1 WAN_STATE_DOWN (Some zero_metrics)
     (sample_manager sample_config)) 1) = WAN_STATE_DRAINING"
proof -
  have "1 < wan_count sample_config" "w_state (wans sample_config ! 1) = WAN_STATE_DRAINING" by code_simp+
  then show ?thesis
    by (intro health_update_draining [of 1 "sample_manager sample_config", THEN conjunct2]) simp_all
qed

section \<open>The DHCP watchdog\<close>

lemma renew_clears:
  assumes "i < n" "n \<le> wan_count (wm_config wm)" "dhcp_client (wan_at wm i)"
  shows "foldl (\<lambda>wm j. if int i \<ge> 0 \<and> int j \<noteq> int i then wm else dhcp_renew_wan env j wm) wm [0..<n] =
    dhcp_renew_wan env i wm"
  using assms(1,2)
proof (induction n)
  case (Suc n)
  have "foldl (\<lambda>wm j. if int i \<ge> 0 \<and> int j \<noteq> int i then wm else dhcp_renew_wan env j wm) wm [0..<i] = wm"
  proof -
    have "foldl (\<lambda>wm j. if int i \<ge> 0 \<and> int j \<noteq> int i then wm else dhcp_renew_wan env j wm) wm [0..<k] = wm"
      if "k \<le> i" for k using that by (induction k) simp_all
    then show ?thesis by simp
  qed
  then show ?case using Suc by (cases "n = i") simp_all
qed simp

lemma kill_udhcpc_frame [simp]:
  "last_dhcp_rebind_ms (kill_udhcpc env path wm) = last_dhcp_rebind_ms wm"
  "dhcp_dead_cycles (kill_udhcpc env path wm) = dhcp_dead_cycles wm"
  "last_dhcp_renew_ms (kill_udhcpc env path wm) = last_dhcp_renew_ms wm"
  by (simp_all add: kill_udhcpc_def os_def split: option.splits)

text \<open>
  The watchdog rebinds a dead DHCP link at most once a minute, and does so on the
  fifteenth consecutive tick that finds it dead. A tick in which the gateway answers
  resets the count. When it fires, the count restarts, the time is recorded and the
  lease file is removed. The count is of ticks of the main loop, not of the two-second
  lease checks.
\<close>

theorem dhcp_watchdog_fires:
  assumes i: "i < wan_count (wm_config wm)" "dhcp_client (wan_at wm i)"
    and len: "wan_count (wm_config wm) \<le> length (dhcp_dead_cycles wm)"
      "wan_count (wm_config wm) \<le> length (last_dhcp_rebind_ms wm)"
  shows "let wm' = dhcp_watchdog env now i wm; cycles = dhcp_dead_cycles wm ! i + 1;
             fires = (gateway_dead (wan_at wm i) \<and> cycles \<ge> 15 \<and> now - last_dhcp_rebind_ms wm ! i \<ge> 60000)
    in last_dhcp_rebind_ms wm' ! i = (if fires then now else last_dhcp_rebind_ms wm ! i) \<and>
       dhcp_dead_cycles wm' ! i = (if gateway_dead (wan_at wm i) \<and> \<not> fires then cycles else 0) \<and>
       (fires \<longrightarrow> last (wm_history wm') = UNLINK (lease_path (wan_at wm i))) \<and>
       (\<not> fires \<longrightarrow> wm_history wm' = wm_history wm)"
proof -
  have renew: "wan_manager_dhcp_renew env (int i) wm1 = dhcp_renew_wan env i wm1"
    if "wm_config wm1 = wm_config wm" for wm1
    using renew_clears [of i "wan_count (wm_config wm1)" wm1 env] that i
    by (simp add: wan_manager_dhcp_renew_def)
  have log: "last_dhcp_rebind_ms (wan_manager_add_log env l m wm1) = last_dhcp_rebind_ms wm1"
    "dhcp_dead_cycles (wan_manager_add_log env l m wm1) = dhcp_dead_cycles wm1" for l m wm1
    by (simp_all add: wan_manager_add_log_def Let_def)
  have sys: "last_dhcp_rebind_ms (os a wm1) = last_dhcp_rebind_ms wm1"
    "dhcp_dead_cycles (os a wm1) = dhcp_dead_cycles wm1" for a wm1
    by (simp_all add: os_def)
  show ?thesis
    using i len by (simp add: dhcp_watchdog_def Let_def renew dhcp_renew_wan_def log sys)
qed

definition sample_dead_link :: wan_manager where
  "sample_dead_link = (sample_manager (zero_config\<lparr>wans := [zero_wan\<lparr>w_type := WAN_TYPE_DHCP,
     w_enabled := True, w_name := ''eth1''\<rparr>]\<rparr>))\<lparr>dhcp_dead_cycles := replicate MAX_WANS 14\<rparr>"

theorem dhcp_watchdog_fires_witness:
  "last_dhcp_rebind_ms (dhcp_watchdog (sample_env True) 60000 0 sample_dead_link) ! 0 = 60000 \<and>
   last (wm_history (dhcp_watchdog (sample_env True) 60000 0 sample_dead_link)) =
     UNLINK ''/run/fluxwan_wan_eth1.lease''"
proof -
  have s: "0 < wan_count (wm_config sample_dead_link)" "dhcp_client (wan_at sample_dead_link 0)"
    "wan_count (wm_config sample_dead_link) \<le> length (dhcp_dead_cycles sample_dead_link)"
    "wan_count (wm_config sample_dead_link) \<le> length (last_dhcp_rebind_ms sample_dead_link)"
    "gateway_dead (wan_at sample_dead_link 0)" "dhcp_dead_cycles sample_dead_link ! 0 = 14"
    "last_dhcp_rebind_ms sample_dead_link ! 0 = 0"
    by (simp_all add: sample_dead_link_def sample_manager_def dhcp_client_def gateway_dead_def zero_wan_def
        zero_proxy_def MAX_WANS_def)
  have "lease_path (wan_at sample_dead_link 0) = ''/run/fluxwan_wan_eth1.lease''"
    by (simp add: sample_dead_link_def lease_path_def cstr_copy_def)
  then show ?thesis
    using dhcp_watchdog_fires [OF s(1-4), of "sample_env True" 60000] s(5-7) by (simp add: Let_def)
qed

end
