(* ===== verification/Prober.thy ===== *)
theory Prober
  imports Wan_Lifecycle Checksum
begin

text \<open>
  The ICMP prober of \<open>src/prober.c\<close>: probes with a sequence window of 16, loss and
  round-trip history over 32 probes, and the evaluation of each link. The prober
  shares the configuration with the WAN manager and reports through the manager's
  health callback, so its operations act on the pair of both states. Sockets, clock
  and send errors are the argument \<open>pe\<close>.
\<close>

section \<open>Definitions\<close>

record probe_slot_t =
  ps_seq :: u16
  send_time_us :: u64
  ps_received :: bool

record wan_probe_state =
  wp_wan_idx :: u32
  wp_target_ip :: u32
  current_seq :: u16
  rtt_history :: "u64 list"
  loss_history :: "bool list"
  history_idx :: u32
  pending_probes :: "probe_slot_t list"

record prober_state =
  raw_fd :: int
  wan_send_fds :: "int list"
  wan_states :: "wan_probe_state list"
  pr_pid :: u16

record prober_env =
  pe_now_us :: u64
  pe_ifindex :: "string \<Rightarrow> u32"
  pe_socket :: "string \<Rightarrow> int option"
  pe_bind_ok :: "string \<Rightarrow> bool"
  pe_send_error :: "int \<Rightarrow> bool"

text \<open>The checksum of \<open>len\<close> bytes read as little-endian words, with the odd byte added.\<close>

fun sum16 :: "u32 \<Rightarrow> u8 list \<Rightarrow> u32" where
  "sum16 s (a # b # bs) = sum16 (s + ucast (le16 a b)) bs"
| "sum16 s [a] = s + ucast a"
| "sum16 s [] = s"

definition prober_checksum :: "u8 list \<Rightarrow> u16" where
  "prober_checksum bs =
     (let s = sum16 0 bs; s = drop_bit 16 s + (s AND 0xFFFF); s = s + drop_bit 16 s
      in ucast (NOT s))"

definition zero_probe_slot :: probe_slot_t where
  "zero_probe_slot = \<lparr>ps_seq = 0, send_time_us = 0, ps_received = False\<rparr>"

definition init_probe_state :: "fluxwan_config \<Rightarrow> nat \<Rightarrow> wan_probe_state" where
  "init_probe_state cfg i =
     (if i < wan_count cfg
      then \<lparr>wp_wan_idx = of_nat i, wp_target_ip = probe_target_ip (wans cfg ! i), current_seq = 1,
            rtt_history = replicate PROBE_WINDOW_SIZE 0, loss_history = replicate PROBE_WINDOW_SIZE False,
            history_idx = 0, pending_probes = replicate 16 zero_probe_slot\<rparr>
      else \<lparr>wp_wan_idx = 0, wp_target_ip = 0, current_seq = 0,
            rtt_history = replicate PROBE_WINDOW_SIZE 0, loss_history = replicate PROBE_WINDOW_SIZE False,
            history_idx = 0, pending_probes = replicate 16 zero_probe_slot\<rparr>)"

definition prober_init :: "int option \<Rightarrow> u16 \<Rightarrow> fluxwan_config \<Rightarrow> prober_state" where
  "prober_init sock pid cfg = \<lparr>raw_fd = (case sock of Some fd \<Rightarrow> fd | None \<Rightarrow> -1),
     wan_send_fds = replicate MAX_WANS (-1),
     wan_states = map (init_probe_state cfg) [0..<MAX_WANS], pr_pid = pid\<rparr>"

definition upd_probe :: "nat \<Rightarrow> (wan_probe_state \<Rightarrow> wan_probe_state) \<Rightarrow> prober_state \<Rightarrow> prober_state" where
  "upd_probe i f p = p\<lparr>wan_states := (wan_states p)[i := f (wan_states p ! i)]\<rparr>"

text \<open>A probe still pending in the slot after the timeout counts as lost.\<close>

definition expire_slot :: "u64 \<Rightarrow> u32 \<Rightarrow> nat \<Rightarrow> wan_probe_state \<Rightarrow> wan_probe_state" where
  "expire_slot now timeout slot p =
     (let pp = pending_probes p ! slot
      in if send_time_us pp > 0 \<and> \<not> ps_received pp \<and>
            (now - send_time_us pp) div 1000 \<ge> ucast timeout
         then p\<lparr>loss_history := (loss_history p)[unat (history_idx p) mod PROBE_WINDOW_SIZE := True],
                history_idx := history_idx p + 1,
                pending_probes := (pending_probes p)[slot := pp\<lparr>send_time_us := 0\<rparr>]\<rparr>
         else p)"

definition arm_probe :: "u64 \<Rightarrow> u32 \<Rightarrow> wan_probe_state \<Rightarrow> wan_probe_state" where
  "arm_probe now timeout p =
     (let seq = current_seq p; slot = unat (seq mod 16);
          p = expire_slot now timeout slot (p\<lparr>current_seq := seq + 1\<rparr>)
      in p\<lparr>pending_probes := (pending_probes p)[slot :=
             \<lparr>ps_seq = seq, send_time_us = now, ps_received = False\<rparr>]\<rparr>)"

definition probe_device :: "nat \<Rightarrow> wan_config \<Rightarrow> string" where
  "probe_device i w = cstr_copy 32 (if w_type w = WAN_TYPE_PPPOE then ''ppp'' @ dec_string i else w_name w)"

definition probe_socket :: "prober_env \<Rightarrow> string \<Rightarrow> int \<Rightarrow> int" where
  "probe_socket pe dev fd =
     (let fd = (if fd \<ge> 0 \<and> dev \<noteq> [] \<and> pe_ifindex pe dev = 0 then -1 else fd)
      in if fd < 0 \<and> dev \<noteq> [] \<and> pe_ifindex pe dev > 0
         then case pe_socket pe dev of
                Some s \<Rightarrow> if pe_bind_ok pe dev then s else -1
              | None \<Rightarrow> fd
         else fd)"

definition probe_destination :: "wan_config \<Rightarrow> u32" where
  "probe_destination w =
     (let ip = probe_target_ip w;
          ip = (if ip = 0 \<and> probe_target w \<noteq> [] then str_to_ip (probe_target w) else ip)
      in if ip = 0 then str_to_ip ''8.8.8.8'' else ip)"

definition bytes64 :: "u64 \<Rightarrow> u8 list" where
  "bytes64 w = map (\<lambda>k. ucast (drop_bit (8 * k) w)) [0..<8]"

text \<open>The echo request: 64 bytes with the send time in the payload.\<close>

definition probe_packet :: "u16 \<Rightarrow> u16 \<Rightarrow> u64 \<Rightarrow> u8 list" where
  "probe_packet ident seq now =
     (let body = [8, 0, 0, 0, byte_of16 1 ident, byte_of16 0 ident, byte_of16 1 seq, byte_of16 0 seq]
                 @ bytes64 now @ replicate 48 0;
          c = prober_checksum body
      in body[2 := byte_of16 0 c, 3 := byte_of16 1 c])"

text \<open>Round-trip average, jitter and loss over the window.\<close>

definition window_rtt :: "u64 list \<Rightarrow> (u64 \<times> nat)" where
  "window_rtt h = (sum_list h, length (filter (\<lambda>r. r > 0) h))"

definition window_loss :: "bool list \<Rightarrow> nat" where
  "window_loss h = length (filter id h)"

definition probe_metrics :: "u64 \<Rightarrow> wan_probe_state \<Rightarrow> wan_metrics \<Rightarrow> wan_metrics" where
  "probe_metrics now p m =
     (let (total, count) = window_rtt (rtt_history p);
          m = (if count > 0
               then let avg = ucast (total div of_nat count) :: u32
                    in m\<lparr>jitter_ms := (if avg \<ge> rtt_ms m then avg - rtt_ms m else rtt_ms m - avg), rtt_ms := avg\<rparr>
               else m)
      in m\<lparr>packet_loss_pct := of_nat (window_loss (loss_history p)) * 100 / of_nat PROBE_WINDOW_SIZE,
           last_probe_time := now div 1000\<rparr>)"

definition link_state :: "prober_config \<Rightarrow> wan_metrics \<Rightarrow> wan_state" where
  "link_state pc m =
     (if packet_loss_pct m > max_acceptable_loss_pct pc then WAN_STATE_DOWN
      else if rtt_ms m > max_acceptable_rtt_ms pc then WAN_STATE_DEGRADED
      else WAN_STATE_HEALTHY)"

text \<open>The evaluation of one link: its new state is stored, then reported.\<close>

definition evaluate_link :: "wan_env \<Rightarrow> u64 \<Rightarrow> wan_probe_state \<Rightarrow> nat \<Rightarrow> wan_manager \<Rightarrow> wan_manager" where
  "evaluate_link env now p i wm =
     (let wm = upd_cfg_wan i (\<lambda>w. w\<lparr>w_metrics := probe_metrics now p (w_metrics w)\<rparr>) wm;
          new_state = link_state (prober (wm_config wm)) (w_metrics (wan_at wm i))
      in if w_state (wan_at wm i) \<noteq> new_state
         then let wm = upd_cfg_wan i (\<lambda>w. w\<lparr>w_state := new_state\<rparr>) wm
              in wan_manager_on_health_update env i new_state (Some (w_metrics (wan_at wm i))) wm
         else wm)"

text \<open>
  One probe: the prober state, the packet sent (descriptor, destination, bytes) if any,
  and the manager after the evaluation.
\<close>

definition send_probe :: "prober_env \<Rightarrow> nat \<Rightarrow> wan_config \<Rightarrow> u32 \<Rightarrow> prober_state \<Rightarrow>
    prober_state \<times> (int \<times> u32 \<times> u8 list) list" where
  "send_probe pe i w timeout p =
     (let seq = current_seq (wan_states p ! i);
          p = upd_probe i (arm_probe (pe_now_us pe) timeout) p;
          own = probe_socket pe (probe_device i w) (wan_send_fds p ! i);
          p = p\<lparr>wan_send_fds := (wan_send_fds p)[i := own]\<rparr>;
          fd = (if own \<ge> 0 then own else raw_fd p);
          dst = probe_destination w
      in if fd \<ge> 0 \<and> dst \<noteq> 0
         then (if pe_send_error pe fd \<and> own \<ge> 0 then p\<lparr>wan_send_fds := (wan_send_fds p)[i := -1]\<rparr> else p,
               [(fd, dst, probe_packet (pr_pid p + of_nat i) seq (pe_now_us pe))])
         else (p, []))"

definition probe_wan :: "wan_env \<Rightarrow> prober_env \<Rightarrow>
    prober_state \<times> wan_manager \<times> (int \<times> u32 \<times> u8 list) list \<Rightarrow> nat \<Rightarrow>
    prober_state \<times> wan_manager \<times> (int \<times> u32 \<times> u8 list) list" where
  "probe_wan env pe st i =
     (case st of (p, wm, out) \<Rightarrow>
        let w = wan_at wm i
        in if \<not> w_enabled w \<or> proxy_enabled (w_proxy w) then (p, wm, out)
           else
             let (p, sent) = send_probe pe i w (timeout_ms (prober (wm_config wm))) p
             in (p, evaluate_link env (pe_now_us pe) (wan_states p ! i) i wm, out @ sent))"

definition prober_send_probes :: "wan_env \<Rightarrow> prober_env \<Rightarrow> prober_state \<Rightarrow> wan_manager \<Rightarrow>
    prober_state \<times> wan_manager \<times> (int \<times> u32 \<times> u8 list) list" where
  "prober_send_probes env pe p wm = foldl (probe_wan env pe) (p, wm, []) [0..<wan_count (wm_config wm)]"

definition measured_rtt :: "u64 \<Rightarrow> u64 \<Rightarrow> u32" where
  "measured_rtt now sent =
     (if sent > 0 \<and> now \<ge> sent
      then let r = ucast ((now - sent + 500) div 1000) :: u32 in if r = 0 then 1 else r
      else 1)"

text \<open>An echo reply; \<open>None\<close> is a read outside the received bytes.\<close>

definition prober_handle_packet :: "u64 \<Rightarrow> u8 list \<Rightarrow> prober_state \<times> wan_manager \<Rightarrow>
    (prober_state \<times> wan_manager) option" where
  "prober_handle_packet now buf st =
     (case st of (p, wm) \<Rightarrow>
        if length buf < 28 then Some st
        else do {
          b0 \<leftarrow> ld8 buf 0;
          let hl = unat (b0 AND 0x0F) * 4;
          if length buf < hl + 8 then Some st
          else do {
            ty \<leftarrow> ld8 buf hl;
            if ty \<noteq> 0 then Some st
            else do {
              ident \<leftarrow> ld16 buf (hl + 4);
              sq \<leftarrow> ld16 buf (hl + 6);
              let seq = htons sq;
              let i = unat (htons ident - pr_pid p);
              if i \<ge> wan_count (wm_config wm) then Some st
              else do {
                lo \<leftarrow> (if length buf \<ge> hl + 16 then ld32 buf (hl + 8) else Some 0);
                hi \<leftarrow> (if length buf \<ge> hl + 16 then ld32 buf (hl + 12) else Some 0);
                let slot = unat (seq mod 16);
                let ps = wan_states p ! i;
                let sent = (if length buf \<ge> hl + 16 then ucast lo OR push_bit 32 (ucast hi)
                            else send_time_us (pending_probes ps ! slot));
                let rtt = measured_rtt now sent;
                let k = unat (history_idx ps) mod PROBE_WINDOW_SIZE;
                let ps' = ps\<lparr>rtt_history := (rtt_history ps)[k := ucast rtt],
                             loss_history := (loss_history ps)[k := False],
                             history_idx := history_idx ps + 1,
                             pending_probes := (pending_probes ps)[slot :=
                               (pending_probes ps ! slot)\<lparr>ps_received := True\<rparr>]\<rparr>;
                Some (p\<lparr>wan_states := (wan_states p)[i := ps']\<rparr>,
                      upd_cfg_wan i (\<lambda>w. w\<lparr>w_metrics := (w_metrics w)\<lparr>rtt_ms := rtt,
                        last_probe_time := now div 1000\<rparr>\<rparr>) wm)
              }
            }
          }
        })"

text \<open>
  Draining the sockets: the packets waiting on the shared socket, then those on each
  link's own socket, each with the time at which it is read. A socket that reports a
  bad descriptor or a missing device is closed.
\<close>

fun prober_drain :: "(u64 \<times> u8 list) list \<Rightarrow> prober_state \<times> wan_manager \<Rightarrow>
    (prober_state \<times> wan_manager) option" where
  "prober_drain [] st = Some st"
| "prober_drain (b # bs) st = Option.bind (prober_handle_packet (fst b) (take 512 (snd b)) st) (prober_drain bs)"

definition drain_wan :: "(int \<Rightarrow> (u64 \<times> u8 list) list) \<Rightarrow> (int \<Rightarrow> bool) \<Rightarrow>
    (prober_state \<times> wan_manager) option \<Rightarrow> nat \<Rightarrow> (prober_state \<times> wan_manager) option" where
  "drain_wan rx broken res i = do {
     st \<leftarrow> res;
     let fd = wan_send_fds (fst st) ! i;
     if fd \<ge> 0 then do {
       st \<leftarrow> prober_drain (rx fd) st;
       Some (if broken fd then ((fst st)\<lparr>wan_send_fds := (wan_send_fds (fst st))[i := -1]\<rparr>, snd st) else st)
     } else Some st
   }"

definition prober_process_responses :: "(int \<Rightarrow> (u64 \<times> u8 list) list) \<Rightarrow> (int \<Rightarrow> bool) \<Rightarrow>
    prober_state \<times> wan_manager \<Rightarrow> (prober_state \<times> wan_manager) option" where
  "prober_process_responses rx broken st =
     foldl (drain_wan rx broken)
       (if raw_fd (fst st) \<ge> 0 then prober_drain (rx (raw_fd (fst st))) st else Some st)
       [0..<wan_count (wm_config (snd st))]"

definition prober_close :: "prober_state \<Rightarrow> prober_state" where
  "prober_close p = p\<lparr>wan_send_fds := replicate MAX_WANS (-1)\<rparr>"

section \<open>The report\<close>

lemma link_state_not_draining [simp]: "link_state pc m \<noteq> WAN_STATE_DRAINING"
  by (simp add: link_state_def)

lemma upd_cfg_wan_bpf:
  "wm_bpf (upd_cfg_wan i f wm) = wm_bpf wm" "wm_history (upd_cfg_wan i f wm) = wm_history wm"
  "g_logs (upd_cfg_wan i f wm) = g_logs wm"
  by simp_all

text \<open>What a change of the data plane, of the log or of the system would show.\<close>

definition visible :: "wan_manager \<Rightarrow> bpf_loader option \<times> system_log_entry list \<times> history" where
  "visible wm = (wm_bpf wm, g_logs wm, wm_history wm)"

lemma visible_upd [simp]: "visible (upd_cfg_wan i f wm) = visible wm"
  by (simp add: visible_def)

lemma visible_report:
  "i < wan_count (wm_config wm) \<Longrightarrow> w_state (wan_at wm i) = st \<Longrightarrow>
   visible (wan_manager_on_health_update env i st (Some m) wm) = visible wm"
  by (simp add: wan_manager_on_health_update_def Let_def upd_wan_def)

lemma visible_evaluate:
  assumes "i < wan_count (wm_config wm)"
  shows "visible (evaluate_link env now p i wm) = visible wm"
  using assms by (simp add: evaluate_link_def Let_def visible_report upd_wan_def)

lemma wan_count_report [simp]:
  "wan_count (wm_config (wan_manager_on_health_update env i st m wm)) = wan_count (wm_config wm)"
proof -
  have "admin (wan_manager_on_health_update env i st m wm) = admin wm"
    using frame_health_update [of wm env i st m] by (simp add: daemon_frame_def)
  then show ?thesis by (metis admin_def length_map)
qed

lemma wan_count_evaluate [simp]:
  "wan_count (wm_config (evaluate_link env now p i wm)) = wan_count (wm_config wm)"
  by (simp add: evaluate_link_def Let_def)

lemma probe_wan_visible:
  assumes "i < wan_count (wm_config wm)" "probe_wan env pe (p, wm, out) i = (p', wm', out')"
  shows "visible wm' = visible wm \<and> wan_count (wm_config wm') = wan_count (wm_config wm)"
  using assms visible_evaluate
  by (auto simp: probe_wan_def Let_def split: if_splits prod.splits)

text \<open>
  C13. What the prober detects stays in the configuration. The prober stores a link's
  new state before it calls the health callback, and the callback compares the
  reported state with the stored one; they are always equal. So a round of probes,
  whatever it finds, never logs a transition, never sends an alert, never requests
  anything from the system and never changes the maps of the data plane.
\<close>

theorem probes_never_reach_data_plane:
  "case prober_send_probes env pe p wm of (p', wm', out) \<Rightarrow>
     wm_bpf wm' = wm_bpf wm \<and> g_logs wm' = g_logs wm \<and> wm_history wm' = wm_history wm"
proof -
  have "visible (fst (snd (foldl (probe_wan env pe) (p, wm, []) [0..<n]))) = visible wm \<and>
      wan_count (wm_config (fst (snd (foldl (probe_wan env pe) (p, wm, []) [0..<n])))) = wan_count (wm_config wm)"
    if "n \<le> wan_count (wm_config wm)" for n
    using that
  proof (induction n)
    case (Suc n)
    obtain p1 wm1 out1 where st: "foldl (probe_wan env pe) (p, wm, []) [0..<n] = (p1, wm1, out1)"
      by (metis prod_cases3)
    obtain p2 wm2 out2 where st2: "probe_wan env pe (p1, wm1, out1) n = (p2, wm2, out2)"
      by (metis prod_cases3)
    show ?case using Suc probe_wan_visible [OF _ st2] by (simp add: st st2)
  qed simp
  from this [of "wan_count (wm_config wm)"] show ?thesis
    by (auto simp: prober_send_probes_def visible_def split: prod.splits)
qed

section \<open>Replies\<close>

text \<open>
  Replies are read safely: whatever bytes arrive on the raw socket, the handler
  never reads outside the received bytes, whatever header length the packet claims.
\<close>

theorem prober_handle_packet_safe: "prober_handle_packet now buf st \<noteq> None"
  by (cases st) (auto simp: prober_handle_packet_def ld8_def ld16_def ld32_def Let_def)

definition probe_state_wf :: "wan_probe_state \<Rightarrow> bool" where
  "probe_state_wf ps \<longleftrightarrow> length (rtt_history ps) = PROBE_WINDOW_SIZE \<and>
     length (loss_history ps) = PROBE_WINDOW_SIZE \<and> length (pending_probes ps) = 16"

definition prober_wf :: "prober_state \<Rightarrow> bool" where
  "prober_wf p \<longleftrightarrow> length (wan_states p) = MAX_WANS \<and> (\<forall>ps \<in> set (wan_states p). probe_state_wf ps)"

lemma probe_packet_bytes:
  "length (probe_packet ident seq t) = 64"
  "probe_packet ident seq t ! 4 = byte_of16 1 ident" "probe_packet ident seq t ! 5 = byte_of16 0 ident"
  "probe_packet ident seq t ! 6 = byte_of16 1 seq" "probe_packet ident seq t ! 7 = byte_of16 0 seq"
  "k < 8 \<Longrightarrow> probe_packet ident seq t ! (8 + k) = ucast (drop_bit (8 * k) t)"
  by (simp_all add: probe_packet_def Let_def bytes64_def nth_append)

lemma low_word:
  fixes t :: u64
  shows "le32 (ucast t) (ucast (drop_bit 8 t)) (ucast (drop_bit 16 t)) (ucast (drop_bit 24 t)) = ucast t"
proof -
  have "byte_of32 k (ucast t) = ucast (drop_bit (8 * k) t)" if "k < 4" for k
    using that by (intro bit_word_eqI) (auto simp: byte_of32_def bit_simps)
  from this [of 0] this [of 1] this [of 2] this [of 3] show ?thesis
    using le32_byte_of32 [of "ucast t"] by simp
qed

lemma join64:
  fixes t :: u64
  shows "(ucast (le32 (ucast t) (ucast (drop_bit 8 t)) (ucast (drop_bit 16 t)) (ucast (drop_bit 24 t))) :: u64) OR
    push_bit 32 (ucast (le32 (ucast (drop_bit 32 t)) (ucast (drop_bit 40 t)) (ucast (drop_bit 48 t))
      (ucast (drop_bit 56 t)))) = t"
proof -
  have "(ucast (ucast t :: u32) :: u64) OR push_bit 32 (ucast (ucast (drop_bit 32 t) :: u32)) = t"
    by (rule bit_word_eqI) (auto simp: bit_simps)
  then show ?thesis using low_word [of t] low_word [of "drop_bit 32 t"] by simp
qed

lemma reply_bytes:
  assumes "length hdr = 20"
  shows "(hdr @ (probe_packet ident seq t)[0 := 0]) ! (20 + k) = (probe_packet ident seq t)[0 := 0] ! k"
  using assms by (simp add: nth_append)

text \<open>
  A probe and its reply match. A reply that carries back the identifier, the
  sequence number and the time of a probe sent on link \<open>i\<close> is attributed to link \<open>i\<close>
  and to that probe: the link's round-trip time becomes the measured one, the probe
  is marked as received, one success enters the history, and no other link changes.
\<close>

theorem probe_reply_roundtrip:
  assumes "prober_wf p" "i < wan_count (wm_config wm)" "wan_count (wm_config wm) \<le> MAX_WANS"
    and hdr: "length hdr = 20" "hdr ! 0 AND 0x0F = 5"
  shows "\<exists>p' wm'. prober_handle_packet now (hdr @ (probe_packet (pr_pid p + of_nat i) seq sent)[0 := 0]) (p, wm) =
      Some (p', wm') \<and>
    rtt_ms (w_metrics (wan_at wm' i)) = measured_rtt now sent \<and>
    ps_received (pending_probes (wan_states p' ! i) ! unat (seq mod 16)) \<and>
    history_idx (wan_states p' ! i) = history_idx (wan_states p ! i) + 1 \<and>
    (\<forall>j. j \<noteq> i \<longrightarrow> wan_states p' ! j = wan_states p ! j \<and> wan_at wm' j = wan_at wm j)"
proof -
  let ?id = "pr_pid p + of_nat i"
  define buf where "buf = hdr @ (probe_packet ?id seq sent)[0 := 0]"
  note pk = probe_packet_bytes [where ident = ?id and seq = seq and t = sent] and rb = reply_bytes [OF hdr(1), of ?id seq sent]
  have len: "length buf = 84" using hdr(1) pk(1) by (simp add: buf_def)
  have b0: "buf ! 0 = hdr ! 0" using hdr(1) by (simp add: buf_def nth_append)
  have b20: "buf ! 20 = 0" using rb [of 0] pk(1) by (simp add: buf_def)
  have id: "le16 (buf ! 24) (buf ! 25) = htons ?id" "le16 (buf ! 26) (buf ! 27) = htons seq"
    using rb [of 4] rb [of 5] rb [of 6] rb [of 7] pk by (simp_all add: buf_def htons_def)
  have tb: "buf ! (28 + k) = ucast (drop_bit (8 * k) sent)" if "k < 8" for k
    using rb [of "8 + k"] pk(6) [OF that] by (simp add: buf_def add.commute)
  have lo: "le32 (buf ! 28) (buf ! 29) (buf ! 30) (buf ! 31) =
      le32 (ucast sent) (ucast (drop_bit 8 sent)) (ucast (drop_bit 16 sent)) (ucast (drop_bit 24 sent))"
    using tb [of 0] tb [of 1] tb [of 2] tb [of 3] by simp
  have hi: "le32 (buf ! 32) (buf ! 33) (buf ! 34) (buf ! 35) =
      le32 (ucast (drop_bit 32 sent)) (ucast (drop_bit 40 sent)) (ucast (drop_bit 48 sent)) (ucast (drop_bit 56 sent))"
    using tb [of 4] tb [of 5] tb [of 6] tb [of 7] by simp
  have i: "unat (of_nat i :: u16) = i" "i < MAX_WANS" using assms(2,3) by (simp_all add: MAX_WANS_def unat_of_nat)
  have slot: "unat (seq mod 16) < 16" by (simp add: unat_mod)
  have ps: "probe_state_wf (wan_states p ! i)" "i < length (wan_states p)"
    using assms(1) i(2) by (simp_all add: prober_wf_def)
  have "prober_handle_packet now buf (p, wm) = Some
     (let ps = wan_states p ! i; k = unat (history_idx ps) mod PROBE_WINDOW_SIZE;
          rtt = measured_rtt now sent; slot = unat (seq mod 16);
          ps' = ps\<lparr>rtt_history := (rtt_history ps)[k := ucast rtt],
                   loss_history := (loss_history ps)[k := False],
                   history_idx := history_idx ps + 1,
                   pending_probes := (pending_probes ps)[slot := (pending_probes ps ! slot)\<lparr>ps_received := True\<rparr>]\<rparr>
      in (p\<lparr>wan_states := (wan_states p)[i := ps']\<rparr>,
          upd_cfg_wan i (\<lambda>w. w\<lparr>w_metrics := (w_metrics w)\<lparr>rtt_ms := rtt, last_probe_time := now div 1000\<rparr>\<rparr>) wm))"
    using assms(2)
    by (simp add: prober_handle_packet_def len b0 hdr(2) b20 id lo hi join64 i(1) mem_simps Let_def
        del: of_nat_numeral)
  then show ?thesis
    using ps slot assms(2) by (simp add: buf_def Let_def probe_state_wf_def upd_wan_def)
qed

lemma prober_wf_init: "prober_wf (prober_init sock pid cfg)"
  by (auto simp: prober_wf_def prober_init_def init_probe_state_def probe_state_wf_def)

theorem probe_reply_roundtrip_witness:
  "\<exists>p' wm'. prober_handle_packet 31000 ([0x45] @ replicate 19 0 @ (probe_packet (7 + 2) 5 1000)[0 := 0])
      (prober_init None 7 sample_config, sample_manager sample_config) = Some (p', wm') \<and>
    rtt_ms (w_metrics (wan_at wm' 2)) = 30"
proof -
  have n: "2 < wan_count sample_config" "wan_count sample_config \<le> MAX_WANS" by code_simp+
  have h: "length ([0x45] @ replicate 19 0 :: u8 list) = 20" "([0x45] @ replicate 19 0 :: u8 list) ! 0 AND 0x0F = 5"
    by simp_all
  have "measured_rtt 31000 1000 = 30" by code_simp
  moreover have "pr_pid (prober_init None 7 sample_config) + of_nat 2 = 7 + 2" by (simp add: prober_init_def)
  ultimately show ?thesis
    using probe_reply_roundtrip [OF prober_wf_init [of None 7 sample_config], of 2 "sample_manager sample_config"
        "[0x45] @ replicate 19 0" 31000 5 1000] n h by (simp only: sample_manager_simps append_assoc) blast
qed

section \<open>Loss\<close>

lemma arm_probe_wf:
  "probe_state_wf ps \<Longrightarrow> probe_state_wf (arm_probe now timeout ps)"
  by (simp add: probe_state_wf_def arm_probe_def expire_slot_def Let_def)

text \<open>
  The measured loss is a percentage: after a probe is armed on a well-formed history
  the computed loss is 100 times the number of lost probes over the window of 32, and lies
  between 0 and 100.
\<close>

theorem probe_loss_percentage:
  assumes "probe_state_wf ps"
  shows "let loss = packet_loss_pct (probe_metrics now (arm_probe now timeout ps) m);
             lost = window_loss (loss_history (arm_probe now timeout ps))
    in loss = of_nat lost * 100 / 32 \<and> 0 \<le> loss \<and> loss \<le> 100"
proof -
  let ?ps = "arm_probe now timeout ps"
  have "window_loss (loss_history ?ps) \<le> 32"
    using arm_probe_wf [OF assms] length_filter_le [of id "loss_history ?ps"]
    by (simp add: window_loss_def probe_state_wf_def PROBE_WINDOW_SIZE_def)
  then have "(of_nat (window_loss (loss_history ?ps)) :: rat) \<le> of_nat 32" by (rule of_nat_mono)
  moreover have "packet_loss_pct (probe_metrics now ?ps m) =
      of_nat (window_loss (loss_history ?ps)) * 100 / 32"
    by (simp add: probe_metrics_def Let_def PROBE_WINDOW_SIZE_def split: prod.splits)
  ultimately show ?thesis by (simp add: Let_def field_simps)
qed

theorem probe_loss_percentage_witness:
  "packet_loss_pct (probe_metrics 9000000 (arm_probe 9000000 1000
     ((init_probe_state sample_config 0)\<lparr>pending_probes := replicate 16 \<lparr>ps_seq = 1, send_time_us = 5, ps_received = False\<rparr>\<rparr>))
     zero_metrics) \<le> 100"
proof -
  have "probe_state_wf ((init_probe_state sample_config 0)
      \<lparr>pending_probes := replicate 16 \<lparr>ps_seq = 1, send_time_us = 5, ps_received = False\<rparr>\<rparr>)"
    by (simp add: probe_state_wf_def init_probe_state_def)
  from probe_loss_percentage [OF this] show ?thesis by (simp add: Let_def)
qed

end
