(* ===== verification/Sticky.thy ===== *)
theory Sticky
  imports Prelude
begin

text \<open>
  The sticky session table of \<open>src/sticky.c\<close>: a chained hash table from client address
  to WAN with an idle timeout. Its contract is a finite map with expiry; the locale
  \<open>session_store\<close> states it, and the table is shown to implement it.
\<close>

section \<open>Definitions\<close>

record sticky_node =
  sn_client_ip :: u32
  sn_wan_id :: u32
  sn_last_seen :: u64

record sticky_table =
  buckets :: "sticky_node list list"
  num_buckets :: u32
  timeout_sec :: u32
  st_active_count :: u32

definition hash_ip :: "u32 \<Rightarrow> u32 \<Rightarrow> u32" where
  "hash_ip ip n =
     (let h = (drop_bit 16 ip XOR ip) * 0x45d9f3b;
          h = (drop_bit 16 h XOR h) * 0x45d9f3b;
          h = drop_bit 16 h XOR h
      in h mod n)"

definition sticky_table_init :: "u32 \<Rightarrow> sticky_table" where
  "sticky_table_init timeout = \<lparr>buckets = replicate 1024 [], num_buckets = 1024,
     timeout_sec = timeout, st_active_count = 0\<rparr>"

fun chain_lookup :: "u64 \<Rightarrow> u32 \<Rightarrow> u32 \<Rightarrow> sticky_node list \<Rightarrow> u32 \<times> sticky_node list" where
  "chain_lookup now timeout ip [] = (0, [])"
| "chain_lookup now timeout ip (c # cs) =
     (if sn_client_ip c = ip
      then if now - sn_last_seen c \<le> ucast timeout then (sn_wan_id c, c\<lparr>sn_last_seen := now\<rparr> # cs)
           else (0, c # cs)
      else case chain_lookup now timeout ip cs of (r, cs') \<Rightarrow> (r, c # cs'))"

definition sticky_lookup :: "u64 \<Rightarrow> u32 \<Rightarrow> sticky_table \<Rightarrow> u32 \<times> sticky_table" where
  "sticky_lookup now ip t =
     (if ip = 0 then (0, t)
      else
        let idx = unat (hash_ip ip (num_buckets t));
            (r, chain) = chain_lookup now (timeout_sec t) ip (buckets t ! idx)
        in (r, t\<lparr>buckets := (buckets t)[idx := chain]\<rparr>))"

text \<open>\<open>None\<close>: no node of the chain belongs to the client.\<close>

fun chain_update :: "u64 \<Rightarrow> u32 \<Rightarrow> u32 \<Rightarrow> sticky_node list \<Rightarrow> sticky_node list option" where
  "chain_update now ip wan [] = None"
| "chain_update now ip wan (c # cs) =
     (if sn_client_ip c = ip then Some (c\<lparr>sn_wan_id := wan, sn_last_seen := now\<rparr> # cs)
      else map_option (\<lambda>cs'. c # cs') (chain_update now ip wan cs))"

definition sticky_insert :: "bool \<Rightarrow> u64 \<Rightarrow> u32 \<Rightarrow> u32 \<Rightarrow> sticky_table \<Rightarrow> int \<times> sticky_table" where
  "sticky_insert malloc_ok now ip wan t =
     (if ip = 0 \<or> wan = 0 then (-1, t)
      else
        let idx = unat (hash_ip ip (num_buckets t))
        in case chain_update now ip wan (buckets t ! idx) of
             Some chain \<Rightarrow> (0, t\<lparr>buckets := (buckets t)[idx := chain]\<rparr>)
           | None \<Rightarrow>
               if malloc_ok
               then (0, t\<lparr>buckets := (buckets t)[idx := \<lparr>sn_client_ip = ip, sn_wan_id = wan, sn_last_seen = now\<rparr>
                            # buckets t ! idx],
                          st_active_count := st_active_count t + 1\<rparr>)
               else (-1, t))"

definition node_expired :: "u64 \<Rightarrow> u32 \<Rightarrow> sticky_node \<Rightarrow> bool" where
  "node_expired now timeout c \<longleftrightarrow> now - sn_last_seen c > ucast timeout"

fun chain_cleanup :: "u64 \<Rightarrow> u32 \<Rightarrow> sticky_node list \<Rightarrow> u32 \<Rightarrow> sticky_node list \<times> u32" where
  "chain_cleanup now timeout [] n = ([], n)"
| "chain_cleanup now timeout (c # cs) n =
     (if node_expired now timeout c
      then chain_cleanup now timeout cs (if n > 0 then n - 1 else n)
      else case chain_cleanup now timeout cs n of (cs', n') \<Rightarrow> (c # cs', n'))"

fun cleanup_chains :: "u64 \<Rightarrow> u32 \<Rightarrow> sticky_node list list \<Rightarrow> u32 \<Rightarrow> sticky_node list list \<times> u32" where
  "cleanup_chains now timeout [] n = ([], n)"
| "cleanup_chains now timeout (b # bs) n =
     (case chain_cleanup now timeout b n of (b', n') \<Rightarrow>
        case cleanup_chains now timeout bs n' of (bs', n'') \<Rightarrow> (b' # bs', n''))"

definition sticky_cleanup_expired :: "u64 \<Rightarrow> sticky_table \<Rightarrow> sticky_table" where
  "sticky_cleanup_expired now t =
     (case cleanup_chains now (timeout_sec t) (buckets t) (st_active_count t) of
        (bs, n) \<Rightarrow> t\<lparr>buckets := bs, st_active_count := n\<rparr>)"

section \<open>The contract\<close>

text \<open>
  An abstract store: client to WAN and time of last use. A lookup refreshes a binding
  that has not expired; an expired one stays until the next cleanup or insertion.
\<close>

type_synonym sessions_map = "u32 \<rightharpoonup> u32 \<times> u64"

definition spec_lookup :: "u32 \<Rightarrow> u64 \<Rightarrow> u32 \<Rightarrow> sessions_map \<Rightarrow> u32 \<times> sessions_map" where
  "spec_lookup timeout now ip m =
     (case m ip of None \<Rightarrow> (0, m)
      | Some (wan, seen) \<Rightarrow> if now - seen \<le> ucast timeout then (wan, m(ip \<mapsto> (wan, now))) else (0, m))"

definition spec_cleanup :: "u32 \<Rightarrow> u64 \<Rightarrow> sessions_map \<Rightarrow> sessions_map" where
  "spec_cleanup timeout now m ip =
     (case m ip of None \<Rightarrow> None | Some (wan, seen) \<Rightarrow> if now - seen > ucast timeout then None else Some (wan, seen))"

locale session_store =
  fixes inv :: "'s \<Rightarrow> bool" and abs :: "'s \<Rightarrow> sessions_map" and timeout :: "'s \<Rightarrow> u32"
    and lookup :: "u64 \<Rightarrow> u32 \<Rightarrow> 's \<Rightarrow> u32 \<times> 's"
    and insert :: "u64 \<Rightarrow> u32 \<Rightarrow> u32 \<Rightarrow> 's \<Rightarrow> 's"
    and cleanup :: "u64 \<Rightarrow> 's \<Rightarrow> 's"
  assumes lookup_law: "inv s \<Longrightarrow> ip \<noteq> 0 \<Longrightarrow>
      inv (snd (lookup now ip s)) \<and> timeout (snd (lookup now ip s)) = timeout s \<and>
      (fst (lookup now ip s), abs (snd (lookup now ip s))) = spec_lookup (timeout s) now ip (abs s)"
    and insert_law: "inv s \<Longrightarrow> ip \<noteq> 0 \<Longrightarrow> wan \<noteq> 0 \<Longrightarrow>
      inv (insert now ip wan s) \<and> timeout (insert now ip wan s) = timeout s \<and>
      abs (insert now ip wan s) = (abs s)(ip \<mapsto> (wan, now))"
    and cleanup_law: "inv s \<Longrightarrow>
      inv (cleanup now s) \<and> timeout (cleanup now s) = timeout s \<and>
      abs (cleanup now s) = spec_cleanup (timeout s) now (abs s)"
begin

text \<open>A binding in use survives the cleanup and is returned.\<close>

lemma lookup_after_insert:
  assumes "inv s" "ip \<noteq> 0" "wan \<noteq> 0" "now' - now \<le> ucast (timeout s)"
  shows "fst (lookup now' ip (cleanup now' (insert now ip wan s))) = wan"
proof -
  let ?s1 = "insert now ip wan s" and ?s2 = "cleanup now' (insert now ip wan s)"
  note i = insert_law [OF assms(1-3), of now]
  then have c: "inv ?s2" "timeout ?s2 = timeout s" "abs ?s2 = spec_cleanup (timeout s) now' (abs ?s1)"
    using cleanup_law [of ?s1 now'] by simp_all
  have "abs ?s2 ip = Some (wan, now)"
    using i assms(4) by (simp add: c(3) spec_cleanup_def not_less)
  then show ?thesis
    using lookup_law [OF c(1) assms(2), of now'] c(2) assms(4) by (simp add: spec_lookup_def)
qed

lemma lookup_after_expiry:
  assumes "inv s" "ip \<noteq> 0" "wan \<noteq> 0" "now' - now > ucast (timeout s)"
  shows "fst (lookup now' ip (insert now ip wan s)) = 0 \<and> abs (cleanup now' (insert now ip wan s)) ip = None"
proof -
  note i = insert_law [OF assms(1-3), of now]
  have "\<not> now' - now \<le> ucast (timeout s)" using assms(4) by simp
  then show ?thesis
    using lookup_law [of "insert now ip wan s" ip now'] cleanup_law [of "insert now ip wan s" now'] i assms
    by (auto simp: spec_lookup_def spec_cleanup_def)
qed

end

section \<open>The table implements the contract\<close>

text \<open>The binding of a client in a chain.\<close>

definition chain_map :: "sticky_node list \<Rightarrow> sessions_map" where
  "chain_map cs = map_of (map (\<lambda>c. (sn_client_ip c, (sn_wan_id c, sn_last_seen c))) cs)"

definition sticky_abs :: "sticky_table \<Rightarrow> sessions_map" where
  "sticky_abs t ip = chain_map (buckets t ! unat (hash_ip ip (num_buckets t))) ip"

definition chain_wf :: "nat \<Rightarrow> sticky_node list \<Rightarrow> bool" where
  "chain_wf i cs \<longleftrightarrow> distinct (map sn_client_ip cs) \<and>
     (\<forall>c \<in> set cs. sn_client_ip c \<noteq> 0 \<and> unat (hash_ip (sn_client_ip c) 1024) = i)"

definition node_count :: "sticky_node list list \<Rightarrow> nat" where
  "node_count bs = sum_list (map length bs)"

definition sticky_inv :: "sticky_table \<Rightarrow> bool" where
  "sticky_inv t \<longleftrightarrow> length (buckets t) = 1024 \<and> num_buckets t = 1024 \<and>
     (\<forall>i < 1024. chain_wf i (buckets t ! i)) \<and> unat (st_active_count t) = node_count (buckets t)"

lemma hash_ip_less: "unat (hash_ip ip 1024) < 1024"
  by (simp add: hash_ip_def Let_def unat_mod)

lemma chain_map_simps [simp]:
  "chain_map [] = Map.empty"
  "chain_map (c # cs) = (chain_map cs)(sn_client_ip c \<mapsto> (sn_wan_id c, sn_last_seen c))"
  by (simp_all add: chain_map_def)

lemma chain_lookup_spec:
  assumes "distinct (map sn_client_ip cs)" "chain_lookup now timeout ip cs = (r, cs')"
  shows "(r, chain_map cs') = spec_lookup timeout now ip (chain_map cs) \<and>
    map sn_client_ip cs' = map sn_client_ip cs"
  using assms
proof (induction cs arbitrary: r cs')
  case Nil
  then show ?case by (simp add: spec_lookup_def)
next
  case (Cons c cs)
  show ?case
  proof (cases "sn_client_ip c = ip")
    case True
    then show ?thesis using Cons.prems by (auto simp: spec_lookup_def fun_eq_iff)
  next
    case False
    obtain r1 cs1 where cs1: "chain_lookup now timeout ip cs = (r1, cs1)" by fastforce
    then have "r = r1" "cs' = c # cs1" using False Cons.prems by auto
    moreover have "(r1, chain_map cs1) = spec_lookup timeout now ip (chain_map cs)"
      "map sn_client_ip cs1 = map sn_client_ip cs" using Cons cs1 by auto
    ultimately show ?thesis
      using False by (auto simp: spec_lookup_def fun_upd_twist split: option.splits if_splits)
  qed
qed

lemma chain_update_spec:
  "distinct (map sn_client_ip cs) \<Longrightarrow>
   (case chain_update now ip wan cs of
      None \<Rightarrow> ip \<notin> sn_client_ip ` set cs
    | Some cs' \<Rightarrow> chain_map cs' = (chain_map cs)(ip \<mapsto> (wan, now)) \<and> map sn_client_ip cs' = map sn_client_ip cs)"
proof (induction cs)
  case (Cons c cs)
  then show ?case by (cases "chain_update now ip wan cs") (auto simp: fun_upd_twist)
qed simp

lemma chain_cleanup_spec:
  "length cs \<le> unat n \<Longrightarrow> chain_cleanup now timeout cs n = (cs', n') \<Longrightarrow>
   cs' = filter (\<lambda>c. \<not> node_expired now timeout c) cs \<and> unat n' = unat n - (length cs - length cs')"
proof (induction cs arbitrary: n cs' n')
  case (Cons c cs)
  show ?case
  proof (cases "node_expired now timeout c")
    case True
    have "1 \<le> n" using Cons.prems(1) by (simp add: word_le_nat_alt)
    then have n: "n > 0" "unat (n - 1) = unat n - 1" by (auto simp: word_gt_0 unat_sub)
    then have "cs' = filter (\<lambda>c. \<not> node_expired now timeout c) cs \<and>
        unat n' = unat (n - 1) - (length cs - length cs')"
      using Cons.IH [of "n - 1" cs' n'] Cons.prems True by simp
    moreover have "length (filter (\<lambda>c. \<not> node_expired now timeout c) cs) \<le> length cs" by simp
    ultimately show ?thesis using True n Cons.prems(1) by (auto simp: Suc_diff_le)
  next
    case False
    obtain cs1 where cs1: "chain_cleanup now timeout cs n = (cs1, n')" "cs' = c # cs1"
      using Cons.prems(2) False by (auto split: prod.splits)
    then show ?thesis using Cons.IH [of n cs1 n'] Cons.prems(1) False by simp
  qed
qed simp

lemma cleanup_chains_spec:
  "node_count bs \<le> unat n \<Longrightarrow> cleanup_chains now timeout bs n = (bs', n') \<Longrightarrow>
   bs' = map (filter (\<lambda>c. \<not> node_expired now timeout c)) bs \<and>
   unat n' = unat n - (node_count bs - node_count bs')"
proof (induction bs arbitrary: n bs' n')
  case (Cons b bs)
  obtain b1 n1 where b1: "chain_cleanup now timeout b n = (b1, n1)" by fastforce
  obtain bs1 where bs1: "cleanup_chains now timeout bs n1 = (bs1, n')" "bs' = b1 # bs1"
    using Cons.prems(2) b1 by (auto split: prod.splits)
  have len: "length b + node_count bs \<le> unat n" using Cons.prems(1) by (simp add: node_count_def)
  then have b: "b1 = filter (\<lambda>c. \<not> node_expired now timeout c) b" "unat n1 = unat n - (length b - length b1)"
    using chain_cleanup_spec [OF _ b1] by simp_all
  then have "length b1 \<le> length b" by simp
  then have IH: "bs1 = map (filter (\<lambda>c. \<not> node_expired now timeout c)) bs"
      "unat n' = unat n1 - (node_count bs - node_count bs1)"
    using Cons.IH [OF _ bs1(1)] len b(2) by simp_all
  have "node_count bs1 \<le> node_count bs" unfolding IH(1) node_count_def
    by (induction bs) (simp_all add: add_mono)
  moreover have "node_count (b # bs) = length b + node_count bs" "node_count bs' = length b1 + node_count bs1"
    using bs1(2) by (simp_all add: node_count_def)
  ultimately have "unat n' = unat n - (node_count (b # bs) - node_count bs')"
    using b(2) IH(2) len \<open>length b1 \<le> length b\<close> by linarith
  then show ?case using bs1(2) b(1) IH(1) by simp
qed simp

lemma node_count_update:
  "i < length bs \<Longrightarrow> node_count (bs[i := cs]) + length (bs ! i) = node_count bs + length cs"
  by (induction bs arbitrary: i) (auto simp: node_count_def split: nat.splits)

lemma chain_wf_clients:
  "map sn_client_ip cs' = map sn_client_ip cs \<Longrightarrow> chain_wf i cs' = chain_wf i cs"
proof -
  have "chain_wf i cs \<longleftrightarrow> distinct (map sn_client_ip cs) \<and>
      (\<forall>ip \<in> set (map sn_client_ip cs). ip \<noteq> 0 \<and> unat (hash_ip ip 1024) = i)" for cs
    by (auto simp: chain_wf_def)
  from this [of cs] this [of cs'] show "map sn_client_ip cs' = map sn_client_ip cs \<Longrightarrow> chain_wf i cs' = chain_wf i cs"
    by (simp only:)
qed

text \<open>There are at most as many nodes as non-zero addresses, so the 32-bit count is exact.\<close>

lemma node_count_bound:
  assumes "length bs = 1024" "\<forall>i < 1024. chain_wf i (bs ! i)"
  shows "node_count bs < 2 ^ 32"
proof -
  have disj: "i = j" if "c \<in> set (bs ! i)" "d \<in> set (bs ! j)" "i < 1024" "j < 1024" "sn_client_ip c = sn_client_ip d"
    for i j c d using that assms(2) by (metis chain_wf_def)
  have "distinct (map sn_client_ip (concat (take n bs))) \<and>
      (\<forall>c \<in> set (concat (take n bs)). \<exists>i < n. c \<in> set (bs ! i))" if "n \<le> 1024" for n
    using that
  proof (induction n)
    case (Suc n)
    have IH: "distinct (map sn_client_ip (concat (take n bs)))"
      "\<forall>c \<in> set (concat (take n bs)). \<exists>i < n. c \<in> set (bs ! i)" using Suc by simp_all
    have t: "concat (take (Suc n) bs) = concat (take n bs) @ bs ! n"
      using Suc.prems assms(1) by (simp add: take_Suc_conv_app_nth)
    have "distinct (map sn_client_ip (bs ! n))" using Suc.prems assms(2) by (simp add: chain_wf_def)
    moreover have "set (map sn_client_ip (concat (take n bs))) \<inter> set (map sn_client_ip (bs ! n)) = {}"
    proof (rule ccontr)
      assume "set (map sn_client_ip (concat (take n bs))) \<inter> set (map sn_client_ip (bs ! n)) \<noteq> {}"
      then obtain c d where cd: "c \<in> set (concat (take n bs))" "d \<in> set (bs ! n)" "sn_client_ip c = sn_client_ip d"
        by auto
      then obtain i where "i < n" "c \<in> set (bs ! i)" using IH(2) by blast
      then show False using disj [of c i d n] cd Suc.prems by simp
    qed
    ultimately have "distinct (map sn_client_ip (concat (take (Suc n) bs)))"
      using IH(1) unfolding t map_append distinct_append by blast
    moreover have "\<forall>c \<in> set (concat (take (Suc n) bs)). \<exists>i < Suc n. c \<in> set (bs ! i)"
      unfolding t using IH(2) less_Suc_eq by (metis Un_iff set_append)
    ultimately show ?case by blast
  qed simp
  from this [of 1024] have d: "distinct (map sn_client_ip (concat bs))"
    "\<forall>c \<in> set (concat bs). \<exists>i < 1024. c \<in> set (bs ! i)" using assms(1) by simp_all
  have nz: "0 \<notin> set (map sn_client_ip (concat bs))"
    using d(2) assms(2) by (fastforce simp: chain_wf_def)
  have "length (map sn_client_ip (concat bs)) = card (set (map sn_client_ip (concat bs)))"
    using distinct_card [OF d(1)] by simp
  also have "\<dots> < card (UNIV :: u32 set)"
    using nz by (intro psubset_card_mono) (auto simp del: set_map set_concat)
  also have "\<dots> = 2 ^ 32" by (simp add: card_word)
  finally show ?thesis by (simp add: node_count_def length_concat)
qed

definition sticky_bind :: "u64 \<Rightarrow> u32 \<Rightarrow> u32 \<Rightarrow> sticky_table \<Rightarrow> sticky_table" where
  "sticky_bind now ip wan t = snd (sticky_insert True now ip wan t)"

lemma sticky_inv_chain:
  assumes "sticky_inv t" "idx < 1024" "chain_wf idx cs" "length cs = length (buckets t ! idx)"
  shows "sticky_inv (t\<lparr>buckets := (buckets t)[idx := cs]\<rparr>)"
  using assms node_count_update [of idx "buckets t" cs]
  by (auto simp: sticky_inv_def nth_list_update)

lemma sticky_abs_chain:
  assumes "sticky_inv t" "ip \<noteq> 0"
  shows "sticky_abs (t\<lparr>buckets := (buckets t)[unat (hash_ip ip 1024) := cs]\<rparr>) ip' =
    (if unat (hash_ip ip' 1024) = unat (hash_ip ip 1024) then chain_map cs ip' else sticky_abs t ip')"
  using assms hash_ip_less by (auto simp: sticky_abs_def sticky_inv_def nth_list_update)

lemma sticky_lookup_refines:
  assumes inv: "sticky_inv t" and ip: "ip \<noteq> 0"
  shows "sticky_inv (snd (sticky_lookup now ip t)) \<and>
    timeout_sec (snd (sticky_lookup now ip t)) = timeout_sec t \<and>
    (fst (sticky_lookup now ip t), sticky_abs (snd (sticky_lookup now ip t))) =
      spec_lookup (timeout_sec t) now ip (sticky_abs t)"
proof -
  let ?i = "unat (hash_ip ip 1024)"
  obtain r cs where cs: "chain_lookup now (timeout_sec t) ip (buckets t ! ?i) = (r, cs)" by fastforce
  have i: "?i < 1024" by (rule hash_ip_less)
  have wf: "chain_wf ?i (buckets t ! ?i)" using inv i by (simp add: sticky_inv_def)
  then have spec: "(r, chain_map cs) = spec_lookup (timeout_sec t) now ip (chain_map (buckets t ! ?i))"
    "map sn_client_ip cs = map sn_client_ip (buckets t ! ?i)"
    using chain_lookup_spec [OF _ cs] by (simp_all add: chain_wf_def)
  have look: "sticky_lookup now ip t = (r, t\<lparr>buckets := (buckets t)[?i := cs]\<rparr>)"
    using inv ip cs by (simp add: sticky_lookup_def Let_def sticky_inv_def)
  have "sticky_inv (t\<lparr>buckets := (buckets t)[?i := cs]\<rparr>)"
    using sticky_inv_chain [OF inv i] chain_wf_clients [OF spec(2)] wf spec(2) by (metis length_map)
  moreover have "sticky_abs (t\<lparr>buckets := (buckets t)[?i := cs]\<rparr>) = snd (spec_lookup (timeout_sec t) now ip (sticky_abs t))
      \<and> r = fst (spec_lookup (timeout_sec t) now ip (sticky_abs t))"
  proof -
    have ab: "sticky_abs t ip' = chain_map (buckets t ! ?i) ip'" if "unat (hash_ip ip' 1024) = ?i" for ip'
      using inv that by (simp add: sticky_abs_def sticky_inv_def)
    have "sticky_abs (t\<lparr>buckets := (buckets t)[?i := cs]\<rparr>) ip' =
        snd (spec_lookup (timeout_sec t) now ip (sticky_abs t)) ip'" for ip'
      using spec(1) ab [of ip] ab [of ip']
      by (auto simp: sticky_abs_chain [OF inv ip] spec_lookup_def split: option.splits if_splits)
    then show ?thesis
      using spec(1) ab [of ip] by (auto simp: spec_lookup_def split: option.splits if_splits)
  qed
  ultimately show ?thesis by (simp add: look)
qed

lemma sticky_bind_refines:
  assumes inv: "sticky_inv t" and ip: "ip \<noteq> 0" "wan \<noteq> 0"
  shows "sticky_inv (sticky_bind now ip wan t) \<and> timeout_sec (sticky_bind now ip wan t) = timeout_sec t \<and>
    sticky_abs (sticky_bind now ip wan t) = (sticky_abs t)(ip \<mapsto> (wan, now))"
proof -
  let ?i = "unat (hash_ip ip 1024)" and ?new = "\<lparr>sn_client_ip = ip, sn_wan_id = wan, sn_last_seen = now\<rparr>"
  have i: "?i < 1024" by (rule hash_ip_less)
  have wf: "chain_wf ?i (buckets t ! ?i)" and n: "num_buckets t = 1024" "length (buckets t) = 1024"
    using inv i by (simp_all add: sticky_inv_def)
  then have d: "distinct (map sn_client_ip (buckets t ! ?i))" by (simp add: chain_wf_def)
  have ab: "sticky_abs t ip' = chain_map (buckets t ! ?i) ip'" if "unat (hash_ip ip' 1024) = ?i" for ip'
    using n that by (simp add: sticky_abs_def)
  show ?thesis
  proof (cases "chain_update now ip wan (buckets t ! ?i)")
    case (Some cs)
    then have cs: "chain_map cs = (chain_map (buckets t ! ?i))(ip \<mapsto> (wan, now))"
      "map sn_client_ip cs = map sn_client_ip (buckets t ! ?i)" using chain_update_spec [OF d, where now = now and ip = ip and wan = wan] by auto
    have ins: "sticky_bind now ip wan t = t\<lparr>buckets := (buckets t)[?i := cs]\<rparr>"
      using ip Some n by (simp add: sticky_bind_def sticky_insert_def Let_def)
    have "sticky_inv (t\<lparr>buckets := (buckets t)[?i := cs]\<rparr>)"
      using sticky_inv_chain [OF inv i] chain_wf_clients [OF cs(2)] wf cs(2) by (metis length_map)
    moreover have "sticky_abs (t\<lparr>buckets := (buckets t)[?i := cs]\<rparr>) ip' = ((sticky_abs t)(ip \<mapsto> (wan, now))) ip'" for ip'
      using ab [of ip'] cs(1) by (auto simp: sticky_abs_chain [OF inv ip(1)])
    ultimately show ?thesis by (auto simp: ins)
  next
    case None
    then have new: "ip \<notin> sn_client_ip ` set (buckets t ! ?i)"
      using chain_update_spec [OF d, where now = now and ip = ip and wan = wan] by simp
    let ?bs = "(buckets t)[?i := ?new # buckets t ! ?i]"
    have ins: "sticky_bind now ip wan t = t\<lparr>buckets := ?bs, st_active_count := st_active_count t + 1\<rparr>"
      using ip None n by (simp add: sticky_bind_def sticky_insert_def Let_def)
    have wf': "\<forall>j < 1024. chain_wf j (?bs ! j)"
    proof -
      have "chain_wf ?i (?new # buckets t ! ?i)" using wf new ip(1) by (auto simp: chain_wf_def)
      then show ?thesis using inv by (auto simp: sticky_inv_def nth_upd)
    qed
    have cnt: "node_count ?bs = Suc (node_count (buckets t))"
      using node_count_update [of ?i "buckets t" "?new # buckets t ! ?i"] i n by simp
    then have "Suc (unat (st_active_count t)) < 2 ^ 32"
      using node_count_bound [of ?bs] wf' n inv by (simp add: sticky_inv_def)
    then have "unat (st_active_count t + 1) = Suc (unat (st_active_count t))"
      by (simp add: unat_word_ariths)
    then have "sticky_inv (sticky_bind now ip wan t)"
      using inv wf' cnt n by (simp add: ins sticky_inv_def)
    moreover have "sticky_abs (t\<lparr>buckets := ?bs, st_active_count := st_active_count t + 1\<rparr>) ip' =
        ((sticky_abs t)(ip \<mapsto> (wan, now))) ip'" for ip'
      using ab [of ip'] sticky_abs_chain [OF inv ip(1), of "?new # buckets t ! ?i" ip']
      by (auto simp: sticky_abs_def)
    ultimately show ?thesis by (auto simp: ins)
  qed
qed

lemma chain_map_filter:
  assumes "distinct (map sn_client_ip cs)"
  shows "chain_map (filter (\<lambda>c. \<not> node_expired now timeout c) cs) ip = spec_cleanup timeout now (chain_map cs) ip"
  using assms
proof (induction cs)
  case (Cons c cs)
  have "chain_map cs (sn_client_ip c) = None"
    using Cons.prems by (force simp: chain_map_def map_of_eq_None_iff)
  then show ?case using Cons by (auto simp: spec_cleanup_def node_expired_def)
qed (simp add: spec_cleanup_def)

lemma sticky_cleanup_refines:
  assumes inv: "sticky_inv t"
  shows "sticky_inv (sticky_cleanup_expired now t) \<and>
    timeout_sec (sticky_cleanup_expired now t) = timeout_sec t \<and>
    sticky_abs (sticky_cleanup_expired now t) = spec_cleanup (timeout_sec t) now (sticky_abs t)"
proof -
  let ?f = "filter (\<lambda>c. \<not> node_expired now (timeout_sec t) c)"
  obtain bs n where c: "cleanup_chains now (timeout_sec t) (buckets t) (st_active_count t) = (bs, n)" by fastforce
  have u: "unat (st_active_count t) = node_count (buckets t)" using inv by (simp add: sticky_inv_def)
  then have bs: "bs = map ?f (buckets t)" using cleanup_chains_spec [OF _ c] by simp
  have le: "node_count (map ?f xs) \<le> node_count xs" for xs
    by (induction xs) (simp_all add: node_count_def add_mono)
  have cnt: "unat n = node_count bs"
    using cleanup_chains_spec [OF _ c] u le [of "buckets t"] bs by simp
  have wf: "chain_wf i (?f cs)" if "chain_wf i cs" for i cs
    using that by (auto simp: chain_wf_def distinct_map_filter)
  have "sticky_inv (sticky_cleanup_expired now t)"
    using inv bs cnt wf c by (simp add: sticky_cleanup_expired_def sticky_inv_def)
  moreover have "sticky_abs (sticky_cleanup_expired now t) ip = spec_cleanup (timeout_sec t) now (sticky_abs t) ip" for ip
  proof -
    let ?cs = "buckets t ! unat (hash_ip ip 1024)"
    have "chain_wf (unat (hash_ip ip 1024)) ?cs" using inv hash_ip_less by (simp add: sticky_inv_def)
    then show ?thesis
      using chain_map_filter [of ?cs now "timeout_sec t" ip] inv bs c hash_ip_less [of ip]
      by (simp add: sticky_cleanup_expired_def sticky_abs_def sticky_inv_def chain_wf_def spec_cleanup_def)
  qed
  ultimately show ?thesis using c by (auto simp: sticky_cleanup_expired_def)
qed

interpretation sticky: session_store sticky_inv sticky_abs timeout_sec sticky_lookup sticky_bind sticky_cleanup_expired
  using sticky_lookup_refines sticky_bind_refines sticky_cleanup_refines by unfold_locales

lemma sticky_inv_init: "sticky_inv (sticky_table_init timeout)"
  by (simp add: sticky_inv_def sticky_table_init_def chain_wf_def node_count_def)

lemma sticky_abs_init: "sticky_abs (sticky_table_init timeout) = Map.empty"
proof
  fix ip
  have "replicate 1024 [] ! unat (hash_ip ip 1024) = ([] :: sticky_node list)"
    by (rule nth_replicate) (rule hash_ip_less)
  then show "sticky_abs (sticky_table_init timeout) ip = None"
    by (simp add: sticky_abs_def sticky_table_init_def)
qed

section \<open>Runs\<close>

datatype sticky_op = Sticky_Lookup u32 | Sticky_Insert u32 u32 | Sticky_Cleanup

text \<open>The answers of a sequence of timed operations, on the table and on the map.\<close>

fun sticky_run :: "(u64 \<times> sticky_op) list \<Rightarrow> sticky_table \<Rightarrow> u32 list" where
  "sticky_run [] t = []"
| "sticky_run ((now, Sticky_Lookup ip) # ops) t =
     (case sticky_lookup now ip t of (r, t') \<Rightarrow> r # sticky_run ops t')"
| "sticky_run ((now, Sticky_Insert ip wan) # ops) t = sticky_run ops (snd (sticky_insert True now ip wan t))"
| "sticky_run ((now, Sticky_Cleanup) # ops) t = sticky_run ops (sticky_cleanup_expired now t)"

fun spec_run :: "u32 \<Rightarrow> (u64 \<times> sticky_op) list \<Rightarrow> sessions_map \<Rightarrow> u32 list" where
  "spec_run timeout [] m = []"
| "spec_run timeout ((now, Sticky_Lookup ip) # ops) m =
     (if ip = 0 then 0 # spec_run timeout ops m
      else case spec_lookup timeout now ip m of (r, m') \<Rightarrow> r # spec_run timeout ops m')"
| "spec_run timeout ((now, Sticky_Insert ip wan) # ops) m =
     spec_run timeout ops (if ip = 0 \<or> wan = 0 then m else m(ip \<mapsto> (wan, now)))"
| "spec_run timeout ((now, Sticky_Cleanup) # ops) m = spec_run timeout ops (spec_cleanup timeout now m)"

lemma sticky_run_refines:
  "sticky_inv t \<Longrightarrow> sticky_run ops t = spec_run (timeout_sec t) ops (sticky_abs t)"
proof (induction "timeout_sec t" ops "sticky_abs t" arbitrary: t rule: spec_run.induct)
  case (2 now ip ops)
  show ?case
  proof (cases "ip = 0")
    case True
    then show ?thesis using 2 by (simp add: sticky_lookup_def)
  next
    case False
    obtain r t' where look: "sticky_lookup now ip t = (r, t')" by fastforce
    then have t': "sticky_inv t'" "timeout_sec t' = timeout_sec t"
      "(r, sticky_abs t') = spec_lookup (timeout_sec t) now ip (sticky_abs t)"
      using sticky.lookup_law [OF 2(3) False, of now] by simp_all
    have "sticky_run ops t' = spec_run (timeout_sec t) ops (sticky_abs t')"
      using 2(2) [OF False t'(3) _ t'(1)] t'(2) by simp
    then show ?thesis using False look t'(3) by (simp flip: t'(3))
  qed
next
  case (3 now ip wan ops)
  then show ?case
    using sticky.insert_law [of t ip wan now] by (auto simp: sticky_bind_def sticky_insert_def)
next
  case (4 now ops)
  then show ?case using sticky.cleanup_law [of t now] by simp
qed simp

text \<open>
  C11. The sticky table is a map with expiry: for every sequence of lookups, insertions
  and cleanups at any times, the chained hash table answers exactly as an abstract
  finite map from client to WAN does, in which a lookup refreshes a binding used
  within the timeout and finds nothing otherwise.
\<close>

theorem sticky_refines_map:
  "sticky_run ops (sticky_table_init timeout) = spec_run timeout ops Map.empty"
  using sticky_run_refines [OF sticky_inv_init, of ops timeout]
  by (simp add: sticky_abs_init) (simp add: sticky_table_init_def)

text \<open>
  The entry counter is exact: every operation keeps the table well formed, with each
  client once, in the chain of its hash, and the 32-bit counter equal to the number of
  entries, which cannot wrap.
\<close>

theorem sticky_count_exact:
  assumes "sticky_inv t"
  shows "sticky_inv (snd (sticky_lookup now ip t)) \<and> sticky_inv (snd (sticky_insert ok now ip wan t)) \<and>
    sticky_inv (sticky_cleanup_expired now t) \<and> unat (st_active_count t) = node_count (buckets t)"
proof -
  have "sticky_inv (snd (sticky_lookup now ip t))"
    using sticky.lookup_law [OF assms, of ip now] assms by (cases "ip = 0") (simp_all add: sticky_lookup_def)
  moreover have "sticky_inv (snd (sticky_insert ok now ip wan t))"
  proof (cases "ip = 0 \<or> wan = 0")
    case True
    then show ?thesis using assms by (simp add: sticky_insert_def)
  next
    case False
    then have "sticky_inv (sticky_bind now ip wan t)" using sticky.insert_law [OF assms] by simp
    then show ?thesis using assms False
      by (cases ok) (auto simp: sticky_bind_def sticky_insert_def Let_def split: option.splits)
  qed
  ultimately show ?thesis using sticky.cleanup_law [OF assms] assms by (simp add: sticky_inv_def)
qed

theorem sticky_count_exact_witness:
  "unat (st_active_count (snd (sticky_insert True 5 7 2 (sticky_table_init 300)))) = 1"
proof -
  have "sticky_inv (snd (sticky_insert True 5 7 2 (sticky_table_init 300)))"
    using sticky_count_exact [OF sticky_inv_init, where ok = True] by blast
  then have "unat (st_active_count (snd (sticky_insert True 5 7 2 (sticky_table_init 300)))) =
      node_count (buckets (snd (sticky_insert True 5 7 2 (sticky_table_init 300))))"
    using sticky_count_exact by blast
  moreover have "st_active_count (snd (sticky_insert True 5 7 2 (sticky_table_init 300))) = 1"
    using hash_ip_less [of 7] by (simp add: sticky_insert_def sticky_table_init_def Let_def)
  ultimately show ?thesis by simp
qed

end
