(* ===== verification/Dyn_Buf.thy ===== *)
theory Dyn_Buf
  imports Prelude
begin

text \<open>
  The growing text buffer of \<open>src/dyn_buf.c\<close>. The buffer is an array of \<open>capacity\<close>
  characters, or \<open>None\<close> for a null pointer; sizes are 64-bit words. \<open>realloc\<close> either
  fails or keeps the old bytes and leaves the new ones unspecified (\<open>junk\<close>). A write
  outside the array is the value \<open>None\<close> of the operation. A format call is given the
  text it produces.
\<close>

section \<open>Definitions\<close>

record dyn_buf =
  db_data :: "string option"
  db_len :: u64
  db_capacity :: u64

record alloc =
  al_ok :: "u64 \<Rightarrow> bool"
  al_junk :: "nat \<Rightarrow> char"

definition DYN_BUF_DEFAULT_CAPACITY :: u64 where "DYN_BUF_DEFAULT_CAPACITY = 2048"

definition NUL :: char where "NUL = char_of (0::nat)"

text \<open>The doubling loop; with a zero capacity or after a wrap-around it would not end.\<close>

partial_function (option) double_until :: "u64 \<Rightarrow> u64 \<Rightarrow> u64 option" where
  "double_until need cap = (if cap < need then double_until need (cap * 2) else Some cap)"

definition resize :: "alloc \<Rightarrow> string option \<Rightarrow> nat \<Rightarrow> string" where
  "resize al old n =
     (let bytes = (case old of None \<Rightarrow> [] | Some d \<Rightarrow> d)
      in take n bytes @ map (al_junk al) [length (take n bytes)..<n])"

definition dyn_buf_grow :: "alloc \<Rightarrow> u64 \<Rightarrow> dyn_buf \<Rightarrow> (int \<times> dyn_buf) option" where
  "dyn_buf_grow al needed b =
     (if db_len b + needed + 1 \<le> db_capacity b then Some (0, b)
      else do {
        cap \<leftarrow> double_until (db_len b + needed + 1)
                 (if db_capacity b \<noteq> 0 then db_capacity b * 2 else DYN_BUF_DEFAULT_CAPACITY);
        Some (if al_ok al cap
              then (0, b\<lparr>db_data := Some (resize al (db_data b) (unat cap)), db_capacity := cap\<rparr>)
              else (-1, b))
      })"

definition dyn_buf_init :: "alloc \<Rightarrow> u64 \<Rightarrow> dyn_buf" where
  "dyn_buf_init al initial =
     (let cap = (if initial \<noteq> 0 then initial else DYN_BUF_DEFAULT_CAPACITY)
      in if al_ok al cap
         then \<lparr>db_data = Some ((resize al None (unat cap))[0 := NUL]), db_len = 0, db_capacity = cap\<rparr>
         else \<lparr>db_data = None, db_len = 0, db_capacity = 0\<rparr>)"

definition put :: "nat \<Rightarrow> string \<Rightarrow> dyn_buf \<Rightarrow> dyn_buf option" where
  "put i s b =
     (case db_data b of None \<Rightarrow> None
      | Some d \<Rightarrow> if i + length s \<le> length d
                  then Some (b\<lparr>db_data := Some (take i d @ s @ drop (i + length s) d)\<rparr>) else None)"

definition dyn_buf_append_len :: "alloc \<Rightarrow> string \<Rightarrow> dyn_buf \<Rightarrow> (int \<times> dyn_buf) option" where
  "dyn_buf_append_len al s b =
     (if s = [] then Some (0, b)
      else do {
        (rc, b) \<leftarrow> dyn_buf_grow al (of_nat (length s)) b;
        if rc \<noteq> 0 then Some (-1, b)
        else do {
          b \<leftarrow> put (unat (db_len b)) s b;
          let b = b\<lparr>db_len := db_len b + of_nat (length s)\<rparr>;
          b \<leftarrow> put (unat (db_len b)) [NUL] b;
          Some (int (length s), b)
        }
      })"

definition dyn_buf_append :: "alloc \<Rightarrow> string \<Rightarrow> dyn_buf \<Rightarrow> (int \<times> dyn_buf) option" where
  "dyn_buf_append al s b = dyn_buf_append_len al s b"

text \<open>
  \<open>vsnprintf\<close> writes at most the given size including the terminator and returns the
  length of the whole text, or an error when that does not fit an \<open>int\<close>.
\<close>

definition dyn_buf_printf :: "alloc \<Rightarrow> string \<Rightarrow> dyn_buf \<Rightarrow> (int \<times> dyn_buf) option" where
  "dyn_buf_printf al s b =
     (if length s \<ge> 2 ^ 31 then Some (-1, b)
      else do {
        (rc, b) \<leftarrow> dyn_buf_grow al (of_nat (length s)) b;
        if rc \<noteq> 0 then Some (-1, b)
        else do {
          let room = unat (db_capacity b - db_len b);
          b \<leftarrow> (if room = 0 then Some b else put (unat (db_len b)) (take (room - 1) s @ [NUL]) b);
          Some (int (length s), if length s > 0 then b\<lparr>db_len := db_len b + of_nat (length s)\<rparr> else b)
        }
      })"

definition dyn_buf_free :: "dyn_buf \<Rightarrow> dyn_buf" where
  "dyn_buf_free b = \<lparr>db_data = None, db_len = 0, db_capacity = 0\<rparr>"

definition dyn_buf_cstr :: "dyn_buf \<Rightarrow> string" where
  "dyn_buf_cstr b = (case db_data b of None \<Rightarrow> [] | Some d \<Rightarrow> takeWhile (\<lambda>c. c \<noteq> NUL) d)"

section \<open>The contents\<close>

definition db_wf :: "dyn_buf \<Rightarrow> bool" where
  "db_wf b \<longleftrightarrow>
     (case db_data b of
        None \<Rightarrow> db_len b = 0 \<and> db_capacity b = 0
      | Some d \<Rightarrow> length d = unat (db_capacity b) \<and> db_len b < db_capacity b \<and> d ! unat (db_len b) = NUL)"

definition db_contents :: "dyn_buf \<Rightarrow> string" where
  "db_contents b = (case db_data b of None \<Rightarrow> [] | Some d \<Rightarrow> take (unat (db_len b)) d)"

text \<open>Sizes far below the address space: no doubling can wrap around.\<close>

definition fits :: "string \<Rightarrow> dyn_buf \<Rightarrow> bool" where
  "fits s b \<longleftrightarrow> unat (db_len b) + length s < 2 ^ 62 \<and> unat (db_capacity b) < 2 ^ 62"

lemma double_until_returns:
  assumes "0 < unat cap" "unat cap < 2 ^ 63" "unat need \<le> 2 ^ 62"
  shows "\<exists>c. double_until need cap = Some c \<and> unat need \<le> unat c \<and> unat c < 2 ^ 63 \<and>
    (c = cap \<or> unat c < 2 * unat need)"
  using assms
proof (induction "2 ^ 63 - unat cap" arbitrary: cap rule: less_induct)
  case less
  show ?case
  proof (cases "cap < need")
    case False
    then have "double_until need cap = Some cap" by (simp add: double_until.simps)
    moreover have "unat need \<le> unat cap" using False by (simp add: not_less word_le_nat_alt)
    ultimately show ?thesis using less.prems by simp
  next
    case True
    then have lt: "unat cap < 2 ^ 62" using less.prems(3) by (simp add: word_less_nat_alt)
    then have d: "unat (cap * 2) = unat cap * 2" by (simp add: unat_word_ariths)
    have "\<exists>c. double_until need (cap * 2) = Some c \<and> unat need \<le> unat c \<and> unat c < 2 ^ 63 \<and>
        (c = cap * 2 \<or> unat c < 2 * unat need)"
      by (rule less.hyps) (use less.prems lt d in simp_all)
    moreover have "unat (cap * 2) < 2 * unat need" using True d by (simp add: word_less_nat_alt)
    ultimately show ?thesis using True by (auto simp: double_until.simps [of need cap])
  qed
qed

lemma length_resize [simp]: "length (resize al d n) = n"
  by (cases "length (case d of None \<Rightarrow> [] | Some d \<Rightarrow> d) \<le> n") (simp_all add: resize_def Let_def)

lemma take_resize: "m \<le> length d \<Longrightarrow> m \<le> n \<Longrightarrow> take m (resize al (Some d) n) = take m d"
  by (simp add: resize_def Let_def min_def)

lemma nth_resize: "i < length d \<Longrightarrow> i < n \<Longrightarrow> resize al (Some d) n ! i = d ! i"
  by (simp add: resize_def Let_def nth_append min_def)

text \<open>After a successful growth there is room for the text and its terminator.\<close>

lemma dyn_buf_grow_spec:
  assumes wf: "db_wf b" and fit: "fits s b"
  shows "\<exists>rc b'. dyn_buf_grow al (of_nat (length s)) b = Some (rc, b') \<and> (rc = 0 \<or> rc = -1) \<and>
    db_len b' = db_len b \<and> db_contents b' = db_contents b \<and>
    (rc = -1 \<longrightarrow> b' = b \<and> (\<exists>c. \<not> al_ok al c)) \<and>
    unat (db_capacity b') \<le> max (unat (db_capacity b)) (max 2048 (2 * (unat (db_len b) + length s + 1))) \<and>
    (rc = 0 \<longrightarrow> unat (db_len b) + length s < unat (db_capacity b') \<and>
       (\<exists>d. db_data b' = Some d \<and> length d = unat (db_capacity b') \<and> (db_data b \<noteq> None \<longrightarrow> db_wf b')))"
proof -
  let ?need = "db_len b + of_nat (length s) + 1"
  have need: "unat ?need = unat (db_len b) + length s + 1"
    using fit by (simp add: fits_def unat_word_ariths unat_of_nat)
  show ?thesis
  proof (cases "?need \<le> db_capacity b")
    case True
    then have "unat (db_len b) + length s + 1 \<le> unat (db_capacity b)" using need by (simp add: word_le_nat_alt)
    moreover from this obtain d where "db_data b = Some d" using wf by (auto simp: db_wf_def split: option.splits)
    ultimately show ?thesis using True wf by (auto simp: dyn_buf_grow_def db_wf_def)
  next
    case False
    let ?cap = "if db_capacity b \<noteq> 0 then db_capacity b * 2 else DYN_BUF_DEFAULT_CAPACITY"
    have "unat (db_capacity b * 2) = unat (db_capacity b) * 2"
      using fit by (simp add: fits_def unat_word_ariths)
    then have "0 < unat ?cap" "unat ?cap < 2 ^ 63"
      using fit by (auto simp: fits_def DYN_BUF_DEFAULT_CAPACITY_def unat_gt_0 unat_eq_0)
    then obtain c where c: "double_until ?need ?cap = Some c" "unat ?need \<le> unat c"
      "c = ?cap \<or> unat c < 2 * unat ?need"
      using double_until_returns [of ?cap ?need] fit need by (auto simp: fits_def)
    have "unat (db_capacity b) < unat ?need" using False by (simp add: word_le_nat_alt)
    then have cle: "unat c \<le> max 2048 (2 * (unat (db_len b) + length s + 1))"
      using c(3) need \<open>unat (db_capacity b * 2) = unat (db_capacity b) * 2\<close>
      by (auto simp: DYN_BUF_DEFAULT_CAPACITY_def split: if_splits)
    show ?thesis
    proof (cases "al_ok al c")
      case ok: True
      let ?b = "b\<lparr>db_data := Some (resize al (db_data b) (unat c)), db_capacity := c\<rparr>"
      have grow: "dyn_buf_grow al (of_nat (length s)) b = Some (0, ?b)"
        using False c(1) ok by (simp add: dyn_buf_grow_def)
      have len: "unat (db_len b) < unat c" using c(2) need by simp
      have "db_contents ?b = db_contents b \<and> (db_data b \<noteq> None \<longrightarrow> db_wf ?b)"
      proof (cases "db_data b")
        case None
        then show ?thesis using wf by (simp add: db_contents_def db_wf_def)
      next
        case (Some d)
        then have "unat (db_len b) < length d" using wf by (simp add: db_wf_def word_less_nat_alt)
        then show ?thesis using Some wf len
          by (simp add: db_contents_def db_wf_def take_resize nth_resize word_less_nat_alt)
      qed
      then show ?thesis using grow c(2) need cle by simp
    next
      case False
      then show ?thesis using \<open>\<not> ?need \<le> db_capacity b\<close> c(1) by (auto simp: dyn_buf_grow_def)
    qed
  qed
qed

lemma put_text:
  assumes "db_data b = Some d" "i + length s < length d"
  shows "put i s b = Some (b\<lparr>db_data := Some (take i d @ s @ drop (i + length s) d)\<rparr>)"
    and "put (i + length s) [NUL] (b\<lparr>db_data := Some (take i d @ s @ drop (i + length s) d), db_len := n\<rparr>) =
      Some (b\<lparr>db_data := Some (take i d @ s @ NUL # drop (i + length s + 1) d), db_len := n\<rparr>)"
    and "put i (s @ [NUL]) b = Some (b\<lparr>db_data := Some (take i d @ s @ NUL # drop (i + length s + 1) d)\<rparr>)"
  using assms by (simp_all add: put_def)

text \<open>The two ways the code adds text leave the same buffer when they succeed.\<close>

lemma append_len_spec:
  assumes wf: "db_wf b" and fit: "fits s b"
  shows "\<exists>rc b'. dyn_buf_append_len al s b = Some (rc, b') \<and>
    unat (db_capacity b') \<le> max (unat (db_capacity b)) (max 2048 (2 * (unat (db_len b) + length s + 1))) \<and>
    (rc = -1 \<and> b' = b \<and> (\<exists>c. \<not> al_ok al c) \<or>
     rc = int (length s) \<and> db_contents b' = db_contents b @ s \<and> (s = [] \<and> b' = b \<or> db_wf b') \<and>
     unat (db_len b') = unat (db_len b) + length s)"
proof (cases "s = []")
  case True
  then show ?thesis by (simp add: dyn_buf_append_len_def)
next
  case False
  obtain rc b1 where g: "dyn_buf_grow al (of_nat (length s)) b = Some (rc, b1)" "rc = 0 \<or> rc = -1"
    "db_len b1 = db_len b" "db_contents b1 = db_contents b" "rc = -1 \<longrightarrow> b1 = b \<and> (\<exists>c. \<not> al_ok al c)"
    "unat (db_capacity b1) \<le> max (unat (db_capacity b)) (max 2048 (2 * (unat (db_len b) + length s + 1)))"
    "rc = 0 \<longrightarrow> unat (db_len b) + length s < unat (db_capacity b1) \<and>
       (\<exists>d. db_data b1 = Some d \<and> length d = unat (db_capacity b1) \<and> (db_data b \<noteq> None \<longrightarrow> db_wf b1))"
    using dyn_buf_grow_spec [OF assms, of al] by blast
  show ?thesis
  proof (cases "rc = 0")
    case rc: True
    then obtain d where d: "db_data b1 = Some d" "length d = unat (db_capacity b1)"
      "unat (db_len b) + length s < length d" using g(7) by auto
    let ?i = "unat (db_len b)" and ?n = "db_len b + of_nat (length s)"
    have n: "unat ?n = ?i + length s" using fit by (simp add: fits_def unat_word_ariths unat_of_nat)
    let ?d2 = "take ?i d @ s @ NUL # drop (?i + length s + 1) d"
    note puts = put_text [OF d(1,3)]
    have "dyn_buf_append_len al s b = Some (int (length s), b1\<lparr>db_data := Some ?d2, db_len := ?n\<rparr>)"
      using False g(1,3) rc puts n by (simp add: dyn_buf_append_len_def Let_def)
    moreover have "take ?i d = db_contents b" using g(3,4) d(1) by (simp add: db_contents_def)
    moreover have "db_contents (b1\<lparr>db_data := Some ?d2, db_len := ?n\<rparr>) = take ?i d @ s"
      using n d(3) by (simp add: db_contents_def)
    moreover have "db_wf (b1\<lparr>db_data := Some ?d2, db_len := ?n\<rparr>)"
      using d n by (simp add: db_wf_def word_less_nat_alt nth_append)
    ultimately show ?thesis using n g(6) by simp
  next
    case False
    then show ?thesis using g \<open>s \<noteq> []\<close> by (auto simp: dyn_buf_append_len_def)
  qed
qed

lemma printf_as_append:
  assumes wf: "db_wf b" and fit: "fits s b" and s: "s \<noteq> []" "length s < 2 ^ 31"
  shows "dyn_buf_printf al s b = dyn_buf_append_len al s b"
proof -
  obtain rc b1 where g: "dyn_buf_grow al (of_nat (length s)) b = Some (rc, b1)" "rc = 0 \<or> rc = -1"
    "db_len b1 = db_len b"
    "rc = 0 \<longrightarrow> unat (db_len b) + length s < unat (db_capacity b1) \<and>
       (\<exists>d. db_data b1 = Some d \<and> length d = unat (db_capacity b1) \<and> (db_data b \<noteq> None \<longrightarrow> db_wf b1))"
    using dyn_buf_grow_spec [OF wf fit, of al] by blast
  show ?thesis
  proof (cases "rc = 0")
    case True
    then obtain d where d: "db_data b1 = Some d" "length d = unat (db_capacity b1)"
      "unat (db_len b) + length s < length d" using g(4) by auto
    let ?i = "unat (db_len b)" and ?n = "db_len b + of_nat (length s)"
    have n: "unat ?n = ?i + length s" using fit by (simp add: fits_def unat_word_ariths unat_of_nat)
    have room: "unat (db_capacity b1 - db_len b1) = length d - ?i"
      using d g(3) by (simp add: unat_sub word_le_nat_alt)
    let ?d2 = "take ?i d @ s @ NUL # drop (?i + length s + 1) d"
    note puts = put_text [OF d(1,3)]
    have "take (length d - ?i - 1) s = s" "length d - ?i \<noteq> 0" using d(3) by simp_all
    then show ?thesis
      using s g(1,3) True puts n room
      by (simp add: dyn_buf_append_len_def dyn_buf_printf_def Let_def)
  next
    case False
    then show ?thesis using s g by (auto simp: dyn_buf_append_len_def dyn_buf_printf_def)
  qed
qed

section \<open>The interface of a text sink\<close>

text \<open>
  What the writers of responses and configuration files rely on: adding text below the
  size limit succeeds, keeps the invariant and extends the text.
\<close>

locale text_sink =
  fixes inv :: "'b \<Rightarrow> bool" and text_of :: "'b \<Rightarrow> string" and add :: "string \<Rightarrow> 'b \<Rightarrow> 'b option"
    and limit :: nat
  assumes add_law: "inv b \<Longrightarrow> length (text_of b) + length s < limit \<Longrightarrow>
    \<exists>b'. add s b = Some b' \<and> inv b' \<and> text_of b' = text_of b @ s"
begin

lemma add_all:
  "inv b \<Longrightarrow> length (text_of b) + length (concat ss) < limit \<Longrightarrow>
   \<exists>b'. foldl (\<lambda>r s. Option.bind r (add s)) (Some b) ss = Some b' \<and> inv b' \<and> text_of b' = text_of b @ concat ss"
proof (induction ss arbitrary: b)
  case (Cons s ss)
  obtain b1 where "add s b = Some b1" "inv b1" "text_of b1 = text_of b @ s"
    using add_law [OF Cons.prems(1), of s] Cons.prems(2) by auto
  then show ?case using Cons.IH [of b1] Cons.prems(2) by simp
qed simp

end

definition ok_alloc :: "(nat \<Rightarrow> char) \<Rightarrow> alloc" where
  "ok_alloc junk = \<lparr>al_ok = (\<lambda>_. True), al_junk = junk\<rparr>"

definition add_text :: "alloc \<Rightarrow> string \<Rightarrow> dyn_buf \<Rightarrow> dyn_buf option" where
  "add_text al s b = (case dyn_buf_append al s b of
     Some (rc, b') \<Rightarrow> if rc < 0 then None else Some b' | None \<Rightarrow> None)"

definition buf_ok :: "dyn_buf \<Rightarrow> bool" where
  "buf_ok b \<longleftrightarrow> db_wf b \<and> unat (db_capacity b) < 2 ^ 62"

lemma length_db_contents: "db_wf b \<Longrightarrow> length (db_contents b) = unat (db_len b)"
  by (auto simp: db_wf_def db_contents_def word_less_nat_alt split: option.splits)

interpretation sink: text_sink buf_ok db_contents "add_text (ok_alloc junk)" "2 ^ 60" for junk
proof
  fix b :: dyn_buf and s :: string
  assume inv: "buf_ok b" and len: "length (db_contents b) + length s < 2 ^ 60"
  then have wf: "db_wf b" and l: "unat (db_len b) + length s < 2 ^ 60"
    by (simp_all add: buf_ok_def length_db_contents)
  have "fits s b" using inv l by (simp add: fits_def buf_ok_def)
  from append_len_spec [OF wf this, of "ok_alloc junk"] obtain b' where
    b': "dyn_buf_append_len (ok_alloc junk) s b = Some (int (length s), b')" "db_contents b' = db_contents b @ s"
    "s = [] \<and> b' = b \<or> db_wf b'"
    "unat (db_capacity b') \<le> max (unat (db_capacity b)) (max 2048 (2 * (unat (db_len b) + length s + 1)))"
    by (auto simp: ok_alloc_def)
  moreover have "db_wf b'" using b'(3) wf by auto
  ultimately show "\<exists>b'. add_text (ok_alloc junk) s b = Some b' \<and> buf_ok b' \<and> db_contents b' = db_contents b @ s"
    using inv l by (auto simp: add_text_def dyn_buf_append_def buf_ok_def)
qed

lemma buf_ok_init:
  assumes "unat initial < 2 ^ 62"
  shows "buf_ok (dyn_buf_init (ok_alloc junk) initial)" "db_contents (dyn_buf_init (ok_alloc junk) initial) = []"
proof -
  have "\<And>c::u64. c \<noteq> 0 \<Longrightarrow> (resize (ok_alloc junk) None (unat c))[0 := NUL] ! 0 = NUL"
    by (rule nth_list_update_eq) (simp add: unat_gt_0)
  then show "buf_ok (dyn_buf_init (ok_alloc junk) initial)"
    using assms by (auto simp: buf_ok_def dyn_buf_init_def Let_def db_wf_def ok_alloc_def
        DYN_BUF_DEFAULT_CAPACITY_def word_gt_0)
  show "db_contents (dyn_buf_init (ok_alloc junk) initial) = []"
    by (simp add: db_contents_def dyn_buf_init_def Let_def ok_alloc_def)
qed



text \<open>
  Formatted output and plain appending agree: for a non-empty text whose length fits
  an \<open>int\<close>, \<open>dyn_buf_printf\<close> leaves the same buffer and returns the same code as
  \<open>dyn_buf_append_len\<close>, allocation failures included.
\<close>

theorem dyn_buf_printf_append:
  assumes "db_wf b" "fits s b" "s \<noteq> []" "length s < 2 ^ 31"
  shows "dyn_buf_printf al s b = dyn_buf_append_len al s b"
  by (rule printf_as_append [OF assms])

theorem dyn_buf_printf_append_witness:
  "dyn_buf_printf (ok_alloc (\<lambda>_. NUL)) ''abc'' (dyn_buf_init (ok_alloc (\<lambda>_. NUL)) 2) =
   dyn_buf_append_len (ok_alloc (\<lambda>_. NUL)) ''abc'' (dyn_buf_init (ok_alloc (\<lambda>_. NUL)) 2)"
proof (rule dyn_buf_printf_append)
  show "db_wf (dyn_buf_init (ok_alloc (\<lambda>_. NUL)) 2)" using buf_ok_init(1) [of 2] by (simp add: buf_ok_def)
  show "fits ''abc'' (dyn_buf_init (ok_alloc (\<lambda>_. NUL)) 2)"
    by (simp add: fits_def dyn_buf_init_def ok_alloc_def Let_def)
qed simp_all

end
