(* ===== verification/Dhcp_Server.thy ===== *)
theory Dhcp_Server
  imports Pppoe_Manager
begin

text \<open>
  The LAN's DHCP server (\<open>src/dhcp_server.c\<close>): the message structure, option parsing and
  writing, the lease table, address allocation and the handling of DISCOVER, REQUEST and
  RELEASE. The bytes of the stack that a short datagram does not overwrite, the clock and
  the success of the sends are arguments. A value None is a read outside of the message.
\<close>

section \<open>Definitions\<close>

definition MAX_DHCP_LEASES :: nat where "MAX_DHCP_LEASES = 254"
definition MAX_STATIC_LEASES :: nat where "MAX_STATIC_LEASES = 64"

abbreviation DHCP_DISCOVER :: u8 where "DHCP_DISCOVER \<equiv> 1"
abbreviation DHCP_OFFER :: u8 where "DHCP_OFFER \<equiv> 2"
abbreviation DHCP_REQUEST :: u8 where "DHCP_REQUEST \<equiv> 3"
abbreviation DHCP_ACK :: u8 where "DHCP_ACK \<equiv> 5"
abbreviation DHCP_RELEASE :: u8 where "DHCP_RELEASE \<equiv> 7"
abbreviation DHCP_OPT_SUBNET_MASK :: u8 where "DHCP_OPT_SUBNET_MASK \<equiv> 1"
abbreviation DHCP_OPT_ROUTER :: u8 where "DHCP_OPT_ROUTER \<equiv> 3"
abbreviation DHCP_OPT_DNS :: u8 where "DHCP_OPT_DNS \<equiv> 6"
abbreviation DHCP_OPT_HOSTNAME :: u8 where "DHCP_OPT_HOSTNAME \<equiv> 12"
abbreviation DHCP_OPT_REQ_IP :: u8 where "DHCP_OPT_REQ_IP \<equiv> 50"
abbreviation DHCP_OPT_LEASE_TIME :: u8 where "DHCP_OPT_LEASE_TIME \<equiv> 51"
abbreviation DHCP_OPT_MSG_TYPE :: u8 where "DHCP_OPT_MSG_TYPE \<equiv> 53"
abbreviation DHCP_OPT_SERVER_ID :: u8 where "DHCP_OPT_SERVER_ID \<equiv> 54"
abbreviation DHCP_OPT_END :: u8 where "DHCP_OPT_END \<equiv> 255"
abbreviation DHCP_MAGIC_COOKIE :: u32 where "DHCP_MAGIC_COOKIE \<equiv> 0x63825363"

record dhcp_packet =
  dp_op :: u8
  dp_htype :: u8
  dp_hlen :: u8
  dp_hops :: u8
  dp_xid :: u32
  dp_secs :: u16
  dp_flags :: u16
  dp_ciaddr :: u32
  dp_yiaddr :: u32
  dp_siaddr :: u32
  dp_giaddr :: u32
  dp_chaddr :: "u8 list"
  dp_sname :: "u8 list"
  dp_file :: "u8 list"
  dp_magic :: u32
  dp_options :: "u8 list"

record dhcp_lease =
  dl_ip_addr :: u32
  dl_mac_addr :: "u8 list"
  dl_mac_str :: string
  dl_hostname :: string
  lease_start_sec :: u64
  lease_expire_sec :: u64
  dl_is_active :: bool
  dl_is_static :: bool
  dl_rx_bytes :: u64
  dl_tx_bytes :: u64
  current_rx_kbps :: u32
  current_tx_kbps :: u32

record dhcp_server =
  ds_sock_ok :: bool
  ds_config :: fluxwan_config
  leases :: "dhcp_lease list"

definition zero_lease :: dhcp_lease where
  "zero_lease = \<lparr>dl_ip_addr = 0, dl_mac_addr = replicate 6 0, dl_mac_str = [], dl_hostname = [],
     lease_start_sec = 0, lease_expire_sec = 0, dl_is_active = False, dl_is_static = False,
     dl_rx_bytes = 0, dl_tx_bytes = 0, current_rx_kbps = 0, current_tx_kbps = 0\<rparr>"

subsection \<open>Options\<close>

text \<open>\<open>get_dhcp_option\<close> returns the position of the value and its length.\<close>

function scan_option :: "u8 list \<Rightarrow> u8 \<Rightarrow> nat \<Rightarrow> (nat \<times> u8) option" where
  "scan_option opts ty i =
     (if i < length opts then
        if opts ! i = 0 then scan_option opts ty (i + 1)
        else if opts ! i = DHCP_OPT_END then None
        else if i + 1 \<ge> length opts then None
        else
          let len = opts ! (i + 1)
          in if i + 2 + unat len > length opts then None
             else if opts ! i = ty then Some (i + 2, len)
             else scan_option opts ty (i + 2 + unat len)
      else None)"
  by pat_completeness auto
termination
  by (relation "measure (\<lambda>(opts, _, i). length opts - i)") auto

declare scan_option.simps [simp del]

definition get_dhcp_option :: "u8 list \<Rightarrow> u8 \<Rightarrow> (nat \<times> u8) option" where
  "get_dhcp_option opts ty = scan_option opts ty 0"

definition append_option :: "u8 \<Rightarrow> u8 list \<Rightarrow> u8 list \<times> nat \<Rightarrow> u8 list \<times> nat" where
  "append_option ty data st =
     (case st of (opts, offset) \<Rightarrow>
        if offset + 2 + length data \<ge> length opts then (opts, offset)
        else (take offset opts @ [ty, of_nat (length data)] @ data @ drop (offset + 2 + length data) opts,
              offset + 2 + length data))"

subsection \<open>The lease table\<close>

definition find_static_lease_by_mac :: "u8 list \<Rightarrow> dhcp_server \<Rightarrow> static_lease option" where
  "find_static_lease_by_mac mac srv =
     find (\<lambda>sl. sl_enabled sl \<and> sl_mac_addr sl = mac) (static_leases (lan (ds_config srv)))"

definition is_ip_reserved_by_static :: "u32 \<Rightarrow> u8 list \<Rightarrow> dhcp_server \<Rightarrow> bool" where
  "is_ip_reserved_by_static ip mac srv =
     (case find (\<lambda>sl. sl_enabled sl \<and> sl_ip_addr sl = ip) (static_leases (lan (ds_config srv))) of
        None \<Rightarrow> False | Some sl \<Rightarrow> sl_mac_addr sl \<noteq> mac)"

fun find_index :: "('a \<Rightarrow> bool) \<Rightarrow> 'a list \<Rightarrow> nat option" where
  "find_index P [] = None"
| "find_index P (x # xs) = (if P x then Some 0 else map_option Suc (find_index P xs))"

definition find_lease_by_mac :: "u8 list \<Rightarrow> dhcp_server \<Rightarrow> nat option" where
  "find_lease_by_mac mac srv = find_index (\<lambda>l. dl_mac_addr l = mac) (leases srv)"

definition find_lease_by_ip :: "u32 \<Rightarrow> dhcp_server \<Rightarrow> nat option" where
  "find_lease_by_ip ip srv = find_index (\<lambda>l. dl_ip_addr l = ip) (leases srv)"

definition ip_available :: "dhcp_server \<Rightarrow> u8 list \<Rightarrow> u32 \<Rightarrow> bool" where
  "ip_available srv mac ip \<longleftrightarrow> \<not> is_ip_reserved_by_static ip mac srv \<and>
     (case find_lease_by_ip ip srv of None \<Rightarrow> True | Some i \<Rightarrow> \<not> dl_is_active (leases srv ! i))"

partial_function (option) alloc_scan :: "(u32 \<Rightarrow> bool) \<Rightarrow> u32 \<Rightarrow> u32 \<Rightarrow> u32 option" where
  "alloc_scan free ip_h end_h =
     (if ip_h \<le> end_h
      then if free (htonl ip_h) then Some (htonl ip_h) else alloc_scan free (ip_h + 1) end_h
      else Some 0)"

declare alloc_scan.simps [code]

definition dhcp_pool :: "dhcp_server \<Rightarrow> u32 \<times> u32" where
  "dhcp_pool srv =
     (let start_h = ntohl (dhcp_start (lan (ds_config srv))); end_h = ntohl (dhcp_end (lan (ds_config srv)))
      in if start_h = 0 \<or> end_h = 0 \<or> end_h < start_h
         then (ntohl (str_to_ip ''192.168.90.100''), ntohl (str_to_ip ''192.168.90.200''))
         else (start_h, end_h))"

definition active_lease_ip :: "u8 list \<Rightarrow> dhcp_server \<Rightarrow> u32 option" where
  "active_lease_ip mac srv =
     (case find_lease_by_mac mac srv of None \<Rightarrow> None
      | Some i \<Rightarrow> if dl_is_active (leases srv ! i) then Some (dl_ip_addr (leases srv ! i)) else None)"

definition allocate_next_ip :: "u8 list \<Rightarrow> dhcp_server \<Rightarrow> u32 option" where
  "allocate_next_ip mac srv =
     (case find_static_lease_by_mac mac srv of
        Some sl \<Rightarrow> if sl_ip_addr sl \<noteq> 0 then Some (sl_ip_addr sl)
                   else (case active_lease_ip mac srv of Some ip \<Rightarrow> Some ip
                         | None \<Rightarrow> alloc_scan (ip_available srv mac) (fst (dhcp_pool srv)) (snd (dhcp_pool srv)))
      | None \<Rightarrow> (case active_lease_ip mac srv of Some ip \<Rightarrow> Some ip
                 | None \<Rightarrow> alloc_scan (ip_available srv mac) (fst (dhcp_pool srv)) (snd (dhcp_pool srv))))"

abbreviation format_mac :: "u8 list \<Rightarrow> string" where
  "format_mac mac \<equiv> (case map fmt_02x mac of [] \<Rightarrow> []
     | b # bs \<Rightarrow> cstr_copy 18 (b @ concat (map (\<lambda>x. '':'' @ x) bs)))"

text \<open>The slot of a client: its own, the next free one, or the first one of a full table.\<close>

definition lease_slot :: "u8 list \<Rightarrow> dhcp_server \<Rightarrow> nat \<times> dhcp_server" where
  "lease_slot mac srv =
     (case find_lease_by_mac mac srv of Some i \<Rightarrow> (i, srv)
      | None \<Rightarrow> if length (leases srv) < MAX_DHCP_LEASES
                then (length (leases srv), srv\<lparr>leases := leases srv @ [zero_lease]\<rparr>)
                else (0, srv))"

definition lease_hostname :: "static_lease option \<Rightarrow> string \<Rightarrow> string \<Rightarrow> string" where
  "lease_hostname sl hostname old =
     (let old = (case sl of Some s \<Rightarrow> if sl_hostname s \<noteq> [] then cstr_copy 64 (sl_hostname s) else old
                 | None \<Rightarrow> old)
      in if hostname \<noteq> [] \<and> (case sl of None \<Rightarrow> True | Some s \<Rightarrow> sl_hostname s = []) then cstr_copy 64 hostname
         else if old = [] then ''LAN-Client'' else old)"

definition filled_lease :: "u64 \<Rightarrow> u8 list \<Rightarrow> u32 \<Rightarrow> string \<Rightarrow> dhcp_server \<Rightarrow> dhcp_lease \<Rightarrow> dhcp_lease" where
  "filled_lease now mac ip hostname srv l =
     (let sl = find_static_lease_by_mac mac srv; static = (sl \<noteq> None)
      in l\<lparr>dl_mac_addr := mac, dl_mac_str := format_mac mac, dl_ip_addr := ip, dl_is_static := static,
           dl_hostname := lease_hostname sl hostname (dl_hostname l), lease_start_sec := now,
           lease_expire_sec := (if static then now + 31536000
                                else now + ucast (dhcp_lease_time (lan (ds_config srv)))),
           dl_is_active := True\<rparr>)"

definition update_lease_record :: "u64 \<Rightarrow> u8 list \<Rightarrow> u32 \<Rightarrow> string \<Rightarrow> dhcp_server \<Rightarrow> dhcp_server" where
  "update_lease_record now mac ip hostname srv =
     (case lease_slot mac srv of (i, srv') \<Rightarrow>
        srv'\<lparr>leases := (leases srv')[i := filled_lease now mac ip hostname srv (leases srv' ! i)]\<rparr>)"

definition reload_static :: "u64 \<Rightarrow> dhcp_server \<Rightarrow> static_lease \<Rightarrow> dhcp_server" where
  "reload_static now srv sl =
     (if \<not> sl_enabled sl then srv
      else case find_lease_by_mac (sl_mac_addr sl) srv of
        Some i \<Rightarrow> srv\<lparr>leases := (leases srv)[i := (leases srv ! i)\<lparr>dl_ip_addr := sl_ip_addr sl, dl_is_static := True,
                     dl_hostname := (if sl_hostname sl \<noteq> [] then cstr_copy 64 (sl_hostname sl)
                                     else dl_hostname (leases srv ! i))\<rparr>]\<rparr>
      | None \<Rightarrow> update_lease_record now (sl_mac_addr sl) (sl_ip_addr sl) (sl_hostname sl) srv)"

definition dhcp_server_reload_config :: "u64 \<Rightarrow> fluxwan_config \<Rightarrow> dhcp_server \<Rightarrow> dhcp_server" where
  "dhcp_server_reload_config now cfg srv =
     foldl (reload_static now) (srv\<lparr>ds_config := cfg\<rparr>) (static_leases (lan cfg))"

definition rate_kbps :: "u64 \<Rightarrow> u64 \<Rightarrow> u32 \<Rightarrow> u32" where
  "rate_kbps new old kbps = (if new \<ge> old \<and> old > 0 then ucast ((new - old) * 8 div 1000) else kbps)"

definition counted_lease :: "u64 \<Rightarrow> u64 \<Rightarrow> dhcp_lease \<Rightarrow> dhcp_lease" where
  "counted_lease rx tx l = l\<lparr>current_rx_kbps := rate_kbps rx (dl_rx_bytes l) (current_rx_kbps l),
     current_tx_kbps := rate_kbps tx (dl_tx_bytes l) (current_tx_kbps l), dl_rx_bytes := rx, dl_tx_bytes := tx\<rparr>"

definition dhcp_server_update_client_traffic :: "u32 \<Rightarrow> u64 \<Rightarrow> u64 \<Rightarrow> dhcp_server \<Rightarrow> int \<times> dhcp_server" where
  "dhcp_server_update_client_traffic ip rx tx srv =
     (case find_lease_by_ip ip srv of
        Some i \<Rightarrow> (0, srv\<lparr>leases := (leases srv)[i := counted_lease rx tx (leases srv ! i)]\<rparr>)
      | None \<Rightarrow>
          if length (leases srv) < MAX_DHCP_LEASES
          then (0, srv\<lparr>leases := leases srv @ [counted_lease rx tx
                  (zero_lease\<lparr>dl_ip_addr := ip, dl_is_active := True, dl_hostname := ip_to_str ip\<rparr>)]\<rparr>)
          else (-1, srv))"

definition load_static :: "u64 \<Rightarrow> dhcp_server \<Rightarrow> static_lease \<Rightarrow> dhcp_server" where
  "load_static now srv sl =
     (if sl_enabled sl \<and> sl_ip_addr sl \<noteq> 0
      then update_lease_record now (sl_mac_addr sl) (sl_ip_addr sl) (sl_hostname sl) srv else srv)"

definition dhcp_server_init :: "bool \<Rightarrow> u64 \<Rightarrow> fluxwan_config \<Rightarrow> dhcp_server option" where
  "dhcp_server_init sock_ok now cfg =
     (if \<not> dhcp_enabled (lan cfg) then None
      else
        let srv = foldl (load_static now) \<lparr>ds_sock_ok = sock_ok, ds_config = cfg, leases = []\<rparr>
                    (static_leases (lan cfg));
            start = dhcp_start (lan cfg)
        in Some (if leases srv = []
                 then update_lease_record now [0xd8, 0x3a, 0xdd, 0x12, 0x34, 0x56]
                        (if start \<noteq> 0 then start else str_to_ip ''192.168.90.105'') ''Workstation-Office'' srv
                 else srv))"

definition dhcp_server_get_leases :: "nat \<Rightarrow> dhcp_server \<Rightarrow> dhcp_lease list" where
  "dhcp_server_get_leases max_count srv = take max_count (filter dl_is_active (leases srv))"

subsection \<open>Messages\<close>

definition word_at :: "u8 list \<Rightarrow> nat \<Rightarrow> u32" where
  "word_at b i = le32 (b ! i) (b ! (i + 1)) (b ! (i + 2)) (b ! (i + 3))"

definition half_at :: "u8 list \<Rightarrow> nat \<Rightarrow> u16" where
  "half_at b i = le16 (b ! i) (b ! (i + 1))"

definition dhcp_packet_of :: "u8 list \<Rightarrow> dhcp_packet" where
  "dhcp_packet_of b = \<lparr>dp_op = b ! 0, dp_htype = b ! 1, dp_hlen = b ! 2, dp_hops = b ! 3, dp_xid = word_at b 4,
     dp_secs = half_at b 8, dp_flags = half_at b 10, dp_ciaddr = word_at b 12, dp_yiaddr = word_at b 16,
     dp_siaddr = word_at b 20, dp_giaddr = word_at b 24, dp_chaddr = take 16 (drop 28 b),
     dp_sname = take 64 (drop 44 b), dp_file = take 128 (drop 108 b), dp_magic = word_at b 236,
     dp_options = take 308 (drop 240 b)\<rparr>"

definition word_bytes :: "u32 \<Rightarrow> u8 list" where
  "word_bytes w = [byte_of32 0 w, byte_of32 1 w, byte_of32 2 w, byte_of32 3 w]"

definition dns_server :: "string \<Rightarrow> string \<Rightarrow> u32" where
  "dns_server configured fallback =
     (let a = (if configured \<noteq> [] then str_to_ip configured else str_to_ip fallback)
      in if a = 0 then str_to_ip fallback else a)"

definition reply_options :: "lan_config \<Rightarrow> u8 \<Rightarrow> u8 list" where
  "reply_options lc mtype =
     (let st = (replicate 308 0, 0);
          st = append_option DHCP_OPT_MSG_TYPE [mtype] st;
          st = append_option DHCP_OPT_SUBNET_MASK (word_bytes (lan_netmask lc)) st;
          st = append_option DHCP_OPT_ROUTER (word_bytes (lan_ip_addr lc)) st;
          dns = word_bytes (dns_server (primary_dns (lan_dns lc)) ''1.1.1.1'') @
                word_bytes (dns_server (secondary_dns (lan_dns lc)) ''8.8.8.8'');
          st = append_option DHCP_OPT_DNS dns st;
          st = append_option DHCP_OPT_LEASE_TIME (word_bytes (htonl (dhcp_lease_time lc))) st;
          st = append_option DHCP_OPT_SERVER_ID (word_bytes (lan_ip_addr lc)) st
      in (fst st)[snd st := DHCP_OPT_END])"

definition dhcp_reply :: "lan_config \<Rightarrow> dhcp_packet \<Rightarrow> u8 \<Rightarrow> u32 \<Rightarrow> dhcp_packet" where
  "dhcp_reply lc req mtype ip = \<lparr>dp_op = 2, dp_htype = dp_htype req, dp_hlen = dp_hlen req, dp_hops = 0,
     dp_xid = dp_xid req, dp_secs = 0, dp_flags = dp_flags req, dp_ciaddr = 0, dp_yiaddr = ip,
     dp_siaddr = lan_ip_addr lc, dp_giaddr = 0, dp_chaddr = dp_chaddr req, dp_sname = replicate 64 0,
     dp_file = replicate 128 0, dp_magic = htonl DHCP_MAGIC_COOKIE, dp_options = reply_options lc mtype\<rparr>"

text \<open>The attempted sends: the limited broadcast, then the directed one.\<close>

definition send_reply :: "(u32 \<Rightarrow> bool) \<Rightarrow> lan_config \<Rightarrow> dhcp_packet \<Rightarrow> (u32 \<times> dhcp_packet) list" where
  "send_reply send_ok lc p =
     (0xFFFFFFFF, p) # (if send_ok 0xFFFFFFFF then [] else [(lan_ip_addr lc OR NOT (lan_netmask lc), p)])"

definition request_hostname :: "u8 list \<Rightarrow> string" where
  "request_hostname opts =
     (case get_dhcp_option opts DHCP_OPT_HOSTNAME of None \<Rightarrow> []
      | Some (i, hlen) \<Rightarrow>
          takeWhile (\<lambda>c. c \<noteq> char_of (0::nat)) (map (\<lambda>b. char_of (unat b)) (take (min (unat hlen) 63) (drop i opts))))"

definition client_mac :: "dhcp_packet \<Rightarrow> u8 list" where
  "client_mac req = take 6 (dp_chaddr req)"

definition handle_discover :: "(u32 \<Rightarrow> bool) \<Rightarrow> dhcp_packet \<Rightarrow> dhcp_server \<Rightarrow>
    (dhcp_server \<times> (u32 \<times> dhcp_packet) list) option" where
  "handle_discover send_ok req srv = do {
     offer_ip \<leftarrow> allocate_next_ip (client_mac req) srv;
     let lc = lan (ds_config srv);
     Some (srv, if offer_ip = 0 then [] else send_reply send_ok lc (dhcp_reply lc req DHCP_OFFER offer_ip))
   }"

definition requested_ip :: "dhcp_packet \<Rightarrow> dhcp_server \<Rightarrow> u32 option" where
  "requested_ip req srv =
     (case get_dhcp_option (dp_options req) DHCP_OPT_REQ_IP of
        Some (i, len) \<Rightarrow>
          if len = 4 then Some (word_at (dp_options req) i)
          else if dp_ciaddr req \<noteq> 0 then Some (dp_ciaddr req) else allocate_next_ip (client_mac req) srv
      | None \<Rightarrow> if dp_ciaddr req \<noteq> 0 then Some (dp_ciaddr req) else allocate_next_ip (client_mac req) srv)"

definition handle_request :: "(u32 \<Rightarrow> bool) \<Rightarrow> u64 \<Rightarrow> string \<Rightarrow> dhcp_packet \<Rightarrow> dhcp_server \<Rightarrow>
    (dhcp_server \<times> (u32 \<times> dhcp_packet) list) option" where
  "handle_request send_ok now hostname req srv = do {
     ip \<leftarrow> requested_ip req srv;
     let srv = update_lease_record now (client_mac req) ip hostname srv;
     let lc = lan (ds_config srv);
     Some (srv, send_reply send_ok lc (dhcp_reply lc req DHCP_ACK ip))
   }"

definition handle_release :: "dhcp_packet \<Rightarrow> dhcp_server \<Rightarrow> dhcp_server" where
  "handle_release req srv =
     (case find_lease_by_mac (client_mac req) srv of None \<Rightarrow> srv
      | Some i \<Rightarrow> srv\<lparr>leases := (leases srv)[i := (leases srv ! i)\<lparr>dl_is_active := False\<rparr>]\<rparr>)"

definition handle_message :: "(u32 \<Rightarrow> bool) \<Rightarrow> u64 \<Rightarrow> dhcp_packet \<Rightarrow> dhcp_server \<Rightarrow>
    (dhcp_server \<times> (u32 \<times> dhcp_packet) list) option" where
  "handle_message send_ok now req srv =
     (if ntohl (dp_magic req) \<noteq> DHCP_MAGIC_COOKIE \<or> dp_op req \<noteq> 1 then Some (srv, [])
      else case get_dhcp_option (dp_options req) DHCP_OPT_MSG_TYPE of
        None \<Rightarrow> Some (srv, [])
      | Some (i, _) \<Rightarrow> do {
          msg_type \<leftarrow> ld8 (dp_options req) i;
          let hostname = request_hostname (dp_options req);
          if hostname = ''FluxWAN'' then Some (srv, [])
          else if msg_type = DHCP_DISCOVER then handle_discover send_ok req srv
          else if msg_type = DHCP_REQUEST then handle_request send_ok now hostname req srv
          else if msg_type = DHCP_RELEASE then Some (handle_release req srv, [])
          else Some (srv, [])
        })"

text \<open>
  \<open>dgram\<close> is the received datagram, None when the call fails; \<open>stack\<close> holds the 548
  bytes of the uninitialised message structure.
\<close>

definition dhcp_server_process :: "(u32 \<Rightarrow> bool) \<Rightarrow> u64 \<Rightarrow> u8 list \<Rightarrow> u8 list option \<Rightarrow> dhcp_server \<Rightarrow>
    (dhcp_server \<times> (u32 \<times> dhcp_packet) list) option" where
  "dhcp_server_process send_ok now stack dgram srv =
     (if \<not> ds_sock_ok srv then Some (srv, [])
      else case dgram of None \<Rightarrow> Some (srv, [])
        | Some d \<Rightarrow>
            if min (length d) 548 < 240 then Some (srv, [])
            else handle_message send_ok now (dhcp_packet_of (take 548 d @ drop (length d) stack)) srv)"

section \<open>Allocation\<close>

lemma find_index_Some:
  "find_index P xs = Some i \<Longrightarrow> i < length xs \<and> P (xs ! i) \<and> (\<forall>j < i. \<not> P (xs ! j))"
proof (induction xs arbitrary: i)
  case (Cons x xs)
  then show ?case by (cases i) (auto simp: less_Suc_eq_0_disj split: if_splits)
qed simp

lemma find_index_None: "find_index P xs = None \<longleftrightarrow> (\<forall>x \<in> set xs. \<not> P x)"
  by (induction xs) auto

lemma find_index_append:
  "find_index P (xs @ ys) =
     (case find_index P xs of Some i \<Rightarrow> Some i | None \<Rightarrow> map_option (\<lambda>i. length xs + i) (find_index P ys))"
proof (induction xs)
  case Nil
  show ?case by (cases "find_index P ys") simp_all
next
  case (Cons x xs)
  then show ?case by (cases "find_index P xs"; cases "find_index P ys") simp_all
qed

lemma alloc_scan_returns:
  assumes "free (htonl f)"
  shows "\<exists>ip. alloc_scan free ip_h end_h = Some ip"
proof (induction "unat (f - ip_h)" arbitrary: ip_h rule: less_induct)
  case less
  show ?case
  proof (cases "ip_h = f")
    case True
    then show ?thesis using assms by (simp add: alloc_scan.simps [of free f])
  next
    case False
    then have "unat (f - (ip_h + 1)) < unat (f - ip_h)"
      using unat_minus_one [of "f - ip_h"] by (simp add: diff_diff_eq [symmetric] word_gt_0 unat_gt_0)
    from less [OF this] show ?thesis by (simp add: alloc_scan.simps [of free ip_h])
  qed
qed

lemma alloc_scan_sound:
  assumes "alloc_scan free ip_h end_h = Some ip"
  shows "ip = 0 \<or> free ip \<and> ntohl ip \<le> end_h \<and> (end_h \<noteq> - 1 \<longrightarrow> ip_h \<le> ntohl ip)"
proof (induction free ip_h end_h ip rule: alloc_scan.raw_induct)
  case (1 alloc_scan' free ip_h end_h ip)
  show ?case
  proof (cases "ip_h \<le> end_h \<and> \<not> free (htonl ip_h)")
    case True
    then have "alloc_scan' free (ip_h + 1) end_h = Some ip" using 1(2) by simp
    note IH = 1(1) [OF this]
    have "ip_h \<le> ip_h + 1" if "end_h \<noteq> - 1"
    proof -
      have "unat (- 1 :: u32) = 4294967295" by (simp add: unsigned_minus_1_eq_mask mask_eq_exp_minus_1)
      then have "unat end_h \<noteq> 4294967295" using that by (metis word_unat_eq_iff)
      then have "unat ip_h + 1 < 4294967296"
        using True unat_u32_less [of end_h] by (simp add: word_le_nat_alt)
      then show ?thesis by (simp add: word_le_nat_alt unat_word_ariths)
    qed
    then show ?thesis using IH by auto
  next
    case False
    then show ?thesis using 1(2) by (auto split: if_splits)
  qed
next
  case 2
  show ?case by (rule assms)
qed

text \<open>The addresses that are not available are those of leases and reservations.\<close>

lemma not_available:
  "\<not> ip_available srv mac ip \<Longrightarrow>
   ip \<in> dl_ip_addr ` set (leases srv) \<union> sl_ip_addr ` set (static_leases (lan (ds_config srv)))"
  by (auto simp: ip_available_def is_ip_reserved_by_static_def find_lease_by_ip_def find_Some_iff
      dest!: find_index_Some split: option.splits)

lemma some_available:
  assumes "length (leases srv) \<le> MAX_DHCP_LEASES" "length (static_leases (lan (ds_config srv))) \<le> MAX_STATIC_LEASES"
  shows "\<exists>f. ip_available srv mac (htonl f)"
proof -
  let ?B = "dl_ip_addr ` set (leases srv) \<union> sl_ip_addr ` set (static_leases (lan (ds_config srv)))"
  have "card ?B \<le> 254 + 64"
    using card_Un_le card_image_le [of "set (leases srv)" dl_ip_addr] card_length [of "leases srv"]
      card_image_le [of "set (static_leases (lan (ds_config srv)))" sl_ip_addr]
      card_length [of "static_leases (lan (ds_config srv))"] assms
    unfolding MAX_DHCP_LEASES_def MAX_STATIC_LEASES_def by (metis (no_types, lifting) List.finite_set add_mono le_trans)
  moreover have "card (UNIV :: u32 set) = 2 ^ 32" by (simp add: card_word)
  ultimately have "?B \<noteq> UNIV" by auto
  then obtain ip where "ip \<notin> ?B" by blast
  then have "ip_available srv mac (htonl (htonl ip))" using not_available [of srv mac ip] by auto
  then show ?thesis ..
qed

lemma available_unleased:
  assumes "ip_available srv mac ip" "distinct (map dl_ip_addr (leases srv))" "l \<in> set (leases srv)" "dl_is_active l"
  shows "dl_ip_addr l \<noteq> ip"
proof
  assume "dl_ip_addr l = ip"
  then obtain i where i: "find_lease_by_ip ip srv = Some i"
    using assms(3) by (cases "find_lease_by_ip ip srv") (auto simp: find_lease_by_ip_def find_index_None)
  obtain j where j: "j < length (leases srv)" "leases srv ! j = l" using assms(3) by (auto simp: in_set_conv_nth)
  have "i < length (leases srv)" "dl_ip_addr (leases srv ! i) = ip"
    using find_index_Some i unfolding find_lease_by_ip_def by fast+
  then have "i = j" using j assms(2) \<open>dl_ip_addr l = ip\<close> by (auto simp: distinct_conv_nth)
  then show False using assms(1,4) i j by (simp add: ip_available_def)
qed


definition sample_dhcp :: "u32 \<Rightarrow> u32 \<Rightarrow> dhcp_server" where
  "sample_dhcp start end_ip = \<lparr>ds_sock_ok = True, ds_config = zero_config\<lparr>lan := zero_lan\<lparr>dhcp_start := start,
     dhcp_end := end_ip, lan_ip_addr := 0x015AA8C0, lan_netmask := 0x00FFFFFF\<rparr>\<rparr>, leases = []\<rparr>"


text \<open>
  A released address is offered to two clients. On an empty table without
  reservations, let client \<open>a\<close> lease the first address \<open>X\<close> of the pool and release it. The
  address is then offered to \<open>b\<close>; once \<open>b\<close> holds the active lease, it is also offered to
  \<open>c\<close>, because the search by address finds the inactive record of \<open>a\<close> first.
\<close>

theorem released_address_offered_twice:
  assumes "leases srv = []" "static_leases (lan (ds_config srv)) = []"
    and X: "dhcp_start (lan (ds_config srv)) = X" "ntohl X \<noteq> 0" "ntohl (dhcp_end (lan (ds_config srv))) \<noteq> 0"
      "ntohl X \<le> ntohl (dhcp_end (lan (ds_config srv)))"
    and macs: "a \<noteq> b" "a \<noteq> c" "b \<noteq> c" "client_mac bye = a"
  shows "let s1 = update_lease_record t1 a X ha srv; s2 = handle_release bye s1;
             s3 = update_lease_record t2 b X hb s2
    in allocate_next_ip a srv = Some X \<and> allocate_next_ip b s2 = Some X \<and>
       active_lease_ip b s3 = Some X \<and> allocate_next_ip c s3 = Some X"
proof -
  let ?s1 = "update_lease_record t1 a X ha srv"
  let ?s2 = "handle_release bye ?s1"
  let ?s3 = "update_lease_record t2 b X hb ?s2"
  have ops: "leases ?s1 = [filled_lease t1 a X ha srv zero_lease]" "ds_config ?s1 = ds_config srv"
    using assms(1) by (simp_all add: update_lease_record_def lease_slot_def find_lease_by_mac_def MAX_DHCP_LEASES_def)
  have fields: "dl_mac_addr (filled_lease t m ip h s l) = m" "dl_ip_addr (filled_lease t m ip h s l) = ip"
    "dl_is_active (filled_lease t m ip h s l)" for t m ip h s l
    by (simp_all add: filled_lease_def Let_def)
  have two: "leases ?s2 = [(filled_lease t1 a X ha srv zero_lease)\<lparr>dl_is_active := False\<rparr>]" "ds_config ?s2 = ds_config srv"
    using ops macs(4) fields by (simp_all add: handle_release_def find_lease_by_mac_def)
  have three: "leases ?s3 = [(filled_lease t1 a X ha srv zero_lease)\<lparr>dl_is_active := False\<rparr>,
      filled_lease t2 b X hb ?s2 zero_lease]" "ds_config ?s3 = ds_config srv"
    using two macs(1) fields
    by (simp_all add: update_lease_record_def lease_slot_def find_lease_by_mac_def MAX_DHCP_LEASES_def)
  have scan: "alloc_scan free (ntohl X) e = Some X" if "free X" "ntohl X \<le> e" for free e
    using that by (simp add: alloc_scan.simps [of free "ntohl X"])
  have alloc: "allocate_next_ip m s = Some X"
    if "ds_config s = ds_config srv" "active_lease_ip m s = None" "ip_available s m X" for m s
    using that assms(2) X scan [of "ip_available s m"]
    by (simp add: allocate_next_ip_def find_static_lease_by_mac_def dhcp_pool_def Let_def) (use X(4) in \<open>auto dest: leD\<close>)
  show ?thesis unfolding Let_def
  proof (intro conjI)
    show "allocate_next_ip a srv = Some X" using assms(1,2)
      by (intro alloc) (simp_all add: active_lease_ip_def find_lease_by_mac_def ip_available_def
          find_lease_by_ip_def is_ip_reserved_by_static_def)
    show "allocate_next_ip b ?s2 = Some X" using two assms(2) fields macs
      by (intro alloc) (simp_all add: active_lease_ip_def find_lease_by_mac_def ip_available_def
          find_lease_by_ip_def is_ip_reserved_by_static_def)
    show "active_lease_ip b ?s3 = Some X" using three fields macs
      by (simp add: active_lease_ip_def find_lease_by_mac_def)
    show "allocate_next_ip c ?s3 = Some X" using three assms(2) fields macs
      by (intro alloc) (simp_all add: active_lease_ip_def find_lease_by_mac_def ip_available_def
          find_lease_by_ip_def is_ip_reserved_by_static_def)
  qed
qed

definition sample_release :: "u8 list \<Rightarrow> dhcp_packet" where
  "sample_release mac = (dhcp_packet_of (replicate 548 0))\<lparr>dp_chaddr := mac @ replicate 10 0\<rparr>"

theorem released_address_offered_twice_witness:
  "allocate_next_ip [2, 0, 0, 0, 0, 3]
     (update_lease_record 900 [2, 0, 0, 0, 0, 2] 0x645AA8C0 ''b''
       (handle_release (sample_release [2, 0, 0, 0, 0, 1])
         (update_lease_record 100 [2, 0, 0, 0, 0, 1] 0x645AA8C0 ''a'' (sample_dhcp 0x645AA8C0 0xC85AA8C0)))) =
   Some 0x645AA8C0"
proof -
  have "ntohl 0x645AA8C0 \<noteq> 0" "ntohl 0xC85AA8C0 \<noteq> 0" "ntohl 0x645AA8C0 \<le> ntohl 0xC85AA8C0" by code_simp+
  then show ?thesis
    using released_address_offered_twice [of "sample_dhcp 0x645AA8C0 0xC85AA8C0" "0x645AA8C0"
        "[2, 0, 0, 0, 0, 1]" "[2, 0, 0, 0, 0, 2]" "[2, 0, 0, 0, 0, 3]" "sample_release [2, 0, 0, 0, 0, 1]" 100 "''a''" 900 "''b''"]
    by (simp add: sample_dhcp_def zero_lan_def client_mac_def sample_release_def Let_def)
qed

section \<open>Options\<close>

lemma scan_option_bounds:
  "scan_option opts ty i = Some (j, len) \<Longrightarrow> j + unat len \<le> length opts"
proof (induction opts ty i rule: scan_option.induct)
  case (1 opts ty i)
  then show ?case by (subst (asm) (3) scan_option.simps) (auto simp: Let_def split: if_splits)
qed

lemma scan_option_pads:
  "(\<And>j. j < k \<Longrightarrow> opts ! (i + j) = 0) \<Longrightarrow> i + k \<le> length opts \<Longrightarrow>
   scan_option opts ty i = scan_option opts ty (i + k)"
proof (induction k arbitrary: i)
  case (Suc k)
  have "scan_option opts ty i = scan_option opts ty (i + 1)"
    using Suc.prems(1) [of 0] Suc.prems(2) by (simp add: scan_option.simps [of opts ty i])
  also have "\<dots> = scan_option opts ty (i + 1 + k)"
    using Suc.prems(1) [of "Suc j" for j] Suc.prems(2) by (intro Suc.IH) simp_all
  finally show ?case by simp
qed simp

lemma allocate_total:
  assumes "length (leases srv) \<le> MAX_DHCP_LEASES" "length (static_leases (lan (ds_config srv))) \<le> MAX_STATIC_LEASES"
  shows "allocate_next_ip mac srv \<noteq> None"
proof -
  obtain f where "ip_available srv mac (htonl f)" using some_available [OF assms] by blast
  from alloc_scan_returns [of "ip_available srv mac", OF this] show ?thesis
    by (auto simp: allocate_next_ip_def split: option.split)
qed


definition sample_overread :: "u8 list" where
  "sample_overread = [1] @ replicate 235 0 @ [0x63, 0x82, 0x53, 0x63] @ replicate 306 0 @ [53, 0]"


definition option_value :: "u8 list \<Rightarrow> u8 \<Rightarrow> u8 list option" where
  "option_value opts ty = map_option (\<lambda>(i, n). take (unat n) (drop i opts)) (get_dhcp_option opts ty)"

lemma reply_options_bytes:
  "reply_options lc mtype =
     [53, 1, mtype] @ [1, 4] @ word_bytes (lan_netmask lc) @ [3, 4] @ word_bytes (lan_ip_addr lc) @
     [6, 8] @ word_bytes (dns_server (primary_dns (lan_dns lc)) ''1.1.1.1'') @
     word_bytes (dns_server (secondary_dns (lan_dns lc)) ''8.8.8.8'') @
     [51, 4] @ word_bytes (htonl (dhcp_lease_time lc)) @ [54, 4] @ word_bytes (lan_ip_addr lc) @
     [255] @ replicate 270 0"
proof -
  have "(replicate 271 (0::u8))[0 := 255] = 255 # replicate 270 0" using replicate_Suc [of 270 "0::u8"] by simp
  then show ?thesis by (simp add: reply_options_def append_option_def word_bytes_def Let_def)
qed

text \<open>
  Replies can be read back. The options of an OFFER or ACK, read with the server's
  own option parser, are the message type, netmask, router, two name servers, lease time
  in network byte order and server identifier that were put in, and no other option.
\<close>

theorem reply_options_roundtrip:
  "let value = option_value (reply_options lc mtype)
   in value DHCP_OPT_MSG_TYPE = Some [mtype] \<and> value DHCP_OPT_SUBNET_MASK = Some (word_bytes (lan_netmask lc)) \<and>
      value DHCP_OPT_ROUTER = Some (word_bytes (lan_ip_addr lc)) \<and>
      value DHCP_OPT_DNS = Some (word_bytes (dns_server (primary_dns (lan_dns lc)) ''1.1.1.1'') @
        word_bytes (dns_server (secondary_dns (lan_dns lc)) ''8.8.8.8'')) \<and>
      value DHCP_OPT_LEASE_TIME = Some (word_bytes (htonl (dhcp_lease_time lc))) \<and>
      value DHCP_OPT_SERVER_ID = Some (word_bytes (lan_ip_addr lc)) \<and>
      value DHCP_OPT_HOSTNAME = None \<and> value DHCP_OPT_REQ_IP = None"
  unfolding reply_options_bytes option_value_def get_dhcp_option_def Let_def word_bytes_def
  by (simp add: scan_option.simps)

end
