(* ===== verification/Spec2Isabelle.thy ===== *)
theory Spec2Isabelle
  imports Xdp_Sessions Xdp_Dispatcher Xdp_Health Dns64 Edwards License_Manager Pppoe_Subscribers Prober Sticky Dyn_Buf Dhcp_Server
begin

text \<open>
  FluxWAN is a multi-WAN router: an XDP program steers each packet of the LAN to one of
  several WAN links, and a daemon decides which links may be used and how much.

  \<^bold>\<open>The parts and how they interact.\<close> The daemon measures the links (\<open>src/prober.c\<close>), dials
  the PPPoE ones (\<open>src/pppoe_manager.c\<close>), keeps the DHCP ones bound and turns health into
  weights (\<open>src/wan_manager.c\<close>). A rebalance recomputes the weights and the Maglev rings and
  writes both to the BPF maps (\<open>src/bpf_loader.c\<close>). The XDP program
  (\<open>bpf/xdp_router.bpf.c\<close>) reads these maps for each packet: it answers pings to the router,
  keeps a flow on its link through the session caches, sends new flows through policy routes
  and the rings, falls back from links that are not eligible, reports packets that exceed the
  MTU and rewrites the source address. Beside them stand the DHCP server of the LAN
  (\<open>src/dhcp_server.c\<close>), the broadband access server with its subscribers
  (\<open>src/pppoe_server.c\<close>), the licence that a rebalance requires (\<open>src/license_manager.c\<close>), a
  sticky table (\<open>src/sticky.c\<close>) and the string buffer of the responses (\<open>src/dyn_buf.c\<close>).

  \<^bold>\<open>Theories.\<close> Words and buffers at machine width, faulting loads and stores and array maps
  are in \<open>Prelude\<close>; \<open>Checksum\<close> has the Internet checksum and its incremental updates.
  \<^item> \<open>Xdp_Types\<close>, \<open>Xdp_Parse\<close>, \<open>Xdp_Rewrite\<close>, \<open>Xdp_Router\<close>: the structures and maps, the
    parsers, the frame rewriting and the whole of \<open>xdp_router_func\<close>. Every access to the frame
    is a checked load or store, None an access outside of it. Kernel helpers (LRU eviction,
    longest-prefix match, ring buffer, tail adjustment) are the fields of the argument
    \<open>kernel\<close>. Shown: no access outside of the frame for any frame and map contents; SNAT, echo
    reply and packet-too-big message are byte-exact with valid checksums.
  \<^item> \<open>Xdp_Sessions\<close>: sessions over sequences of packets. Shown: an eligible link is used
    whenever there is one; a tracked flow stays on its link; sessions are well formed in every
    reachable state; and what the per-CPU cache, RST and FIN packets and QUIC flows do.
  \<^item> \<open>Xdp_Dispatcher\<close>, \<open>Xdp_Health\<close>: the tail-call pipeline (\<open>bpf/xdp_dispatcher.bpf.c\<close>) and
    the in-kernel health checker (\<open>bpf/xdp_healthchecker.bpf.c\<close>). Shown: the pipeline passes
    every frame, unchanged or validly rewritten, whatever programs are installed; a link
    without replies is marked down after three probe intervals, whatever else arrives.
  \<^item> \<open>Nat46\<close>, \<open>Dns64\<close>: the NAT46 translator (\<open>bpf/xdp_nat46.bpf.c\<close>) and the caching DNS proxy
    that hands out its synthetic addresses (\<open>src/dns64_daemon.c\<close>), on the same maps. The worker
    runs on a sequence of received datagrams. Shown: translation is memory safe and the reply
    to a translated frame comes back to the client; the worker keeps its arrays and cache well
    formed, its one buffer overflow, what the cache confuses and serves, and the way of an
    address from the answer to the translated frame.
  \<^item> \<open>Sha2\<close>, \<open>Base64\<close>, \<open>Gf25519\<close>, \<open>X25519\<close>: the cryptography of \<open>src/crypto_ed25519.c\<close>. Limbs are
    integers that every operation reduces to 64 signed bits. Shown: both hashes are those of
    the padded message (locale \<open>md_sizes\<close>), decoding undoes encoding up to padding, no limb
    overflows, and \<open>crypto_scalarmult\<close> is the X25519 function of RFC 7748.
  \<^item> \<open>Scalar25519\<close>, \<open>Ed25519\<close>, \<open>Edwards\<close>: the signature check of licence keys, in the same file.
    Shown: hashes are reduced to the canonical remainder modulo the group order; the verifier
    accepts exactly what the check of RFC 8032 accepts when computed on integers (\<open>ed_verify\<close>,
    whose decoder makes two checks less, as the code does); addition is the addition law of
    the curve, and decoded keys are on it. That the law forms a group, and that the prime is a
    prime, is not needed for this and not shown.
  \<^item> \<open>License_Manager\<close>: \<open>src/license_manager.c\<close> with its two files. Shown: only a signed key for this
    hardware makes a licence valid, over all sequences of starts, ticks, activations and
    changes of the files; the grace period ends; a clock that is turned back is detected; and a
    restart always authorises. \<open>license_is_authorized\<close> is what \<open>Wan_Manager\<close> has as the
    authorisation of its environment.
  \<^item> \<open>C_Text\<close>: texts as the C library searches and reads them, and what a file holds after a
    history of writes. \<open>Pppoe_Server\<close>, \<open>Pppoe_Subscribers\<close>: \<open>src/pppoe_server.c\<close> with the tables of
    subscribers and profiles, the files for \<open>pppd\<close> and the sessions. Shown: the tables are bounded
    maps (locale \<open>keyed_table\<close>, interpreted for both), the secrets files follow the accounts over
    all sequences of operations (\<open>served\<close>), what a tick locks out, that the sessions the hook
    records are anonymous, and the bounds of the CSV export. That the shell does not expand a
    here-document with a quoted delimiter is a hypothesis.
  \<^item> \<open>Fluxwan_Types\<close>, \<open>Net_Text\<close>: the configuration of \<open>include/fluxwan.h\<close>, addresses and CIDR
    texts. A C array with a counter is the list of its used elements; floating point loss
    percentages are rationals (all values computed are multiples of 100/32). Shown: printing
    and parsing an address is the identity.
  \<^item> \<open>Maglev\<close>: the ring construction of \<open>wan_manager.c\<close>; its loops are total functions, with a
    termination proof, so no fuel is needed. Shown: the ring is full and holds active members
    only; probe sequences are permutations while the 32-bit product does not wrap.
  \<^item> \<open>Bpf_Loader\<close>: map updates and reads. Shown: rings and WAN entries are installed as
    given, groups are isolated, and reading per-CPU counters overflows its buffer.
  \<^item> \<open>Wan_State\<close>, \<open>Pppoe_Manager\<close>, \<open>Wan_Manager\<close>: the state of the daemon, its event log, the
    PPPoE state machine and the handlers of \<open>wan_manager.c\<close>. What the code does to the system
    (commands, files, signals, netlink requests) is appended to a history; what the system
    answers is a function of that history, the argument \<open>env\<close>. The locale \<open>pppoe_callbacks\<close> is
    the contract between the tick and the callbacks of its client.
  \<^item> \<open>Wan_Rebalance\<close>, \<open>Wan_Lifecycle\<close>: weights and data plane after a rebalance, licence
    enforcement, the interpretation of \<open>pppoe_callbacks\<close> on the real callbacks, and the
    invariant of the daemon over all sequences of its events.
  \<^item> \<open>Prober\<close>: probes, replies and link evaluation. Shown: replies are read safely and
    attributed to their probe, loss is a percentage, and a round of probes never reaches the
    data plane, because the state is stored before the callback compares it.
  \<^item> \<open>Dhcp_Server\<close>: options, lease table and messages. The search for an address may wrap, so it
    is a partial function that is proved to return. Shown: allocation is sound, replies can be
    read back, the one case of an out-of-bounds read, and how an address is offered twice.
  \<^item> \<open>Sticky\<close>, \<open>Dyn_Buf\<close>: the chained table refines a map with expiry (locale
    \<open>session_store\<close>); the buffer holds the concatenation of what is appended (locale
    \<open>text_sink\<close>), its doubling loop is a partial function proved to return below $2^{62}$.
  \<^item> This theory: policy routes from the text of the configuration to the packet.

  \<^bold>\<open>Not modelled.\<close> The web server and its HTML assets, the JSON configuration parser, the
  application of the configuration by shell commands and netlink, the proxy, VPN and Wi-Fi
  managers, diagnostics and discovery: most of it is text processing around external programs,
  and none of the modelled parts depends on it except through the arguments named above.
  Conditional compilation is resolved for Linux with libbpf.
\<close>

section \<open>Policy routes, from the text of the configuration to the packet\<close>

definition cidr_covers :: "policy_route \<Rightarrow> u32 \<Rightarrow> bool" where
  "cidr_covers r src \<longleftrightarrow>
     (let k = 32 - unat (pr_prefix_len r)
      in drop_bit k (htonl src) = drop_bit k (htonl (pr_subnet_ip r)))"

definition host_bits_clear :: "policy_route \<Rightarrow> bool" where
  "host_bits_clear r \<longleftrightarrow> take_bit (32 - unat (pr_prefix_len r)) (htonl (pr_subnet_ip r)) = 0"

definition parsed_route :: "policy_route \<Rightarrow> bool" where
  "parsed_route r \<longleftrightarrow>
     (\<exists>text. parse_cidr_subnet text = (pr_subnet_ip r, pr_netmask r, pr_prefix_len r))"

lemma prefix_netmask_zero: "pfx \<le> 32 \<Longrightarrow> prefix_netmask pfx = 0 \<longleftrightarrow> pfx = 0"
proof
  assume "pfx \<le> 32" "prefix_netmask pfx = 0"
  then have eq: "htonl 0 = NOT (mask (32 - unat pfx) :: u32)" using htonl_prefix_netmask by metis
  have "htonl 0 = 0" by code_simp
  then have "\<not> bit (NOT (mask (32 - unat pfx) :: u32)) 31" unfolding eq [symmetric] by simp
  then have "31 < 32 - unat pfx" by (simp add: bit_not_iff bit_mask_iff)
  then have "unat pfx = 0" by linarith
  then show "pfx = 0" by (simp add: unat_eq_0)
qed (simp add: prefix_netmask_def)

lemma route_matches:
  assumes "parsed_route r"
  shows "pr_netmask r \<noteq> 0 \<and> src AND pr_netmask r = pr_subnet_ip r \<longleftrightarrow>
    pr_prefix_len r \<noteq> 0 \<and> cidr_covers r src \<and> host_bits_clear r"
proof -
  obtain t where t: "parse_cidr_subnet t = (pr_subnet_ip r, pr_netmask r, pr_prefix_len r)"
    using assms by (auto simp: parsed_route_def)
  note le = parse_cidr_prefix_le [OF t]
  show ?thesis unfolding parse_cidr_netmask [OF t] prefix_netmask_match [OF le] prefix_netmask_zero [OF le]
    by (simp add: cidr_covers_def host_bits_clear_def Let_def)
qed

lemma policy_table_installed:
  assumes "fd_policy_route ldr" "length (policy_route_map (bl_maps ldr)) = MAX_BPF_POLICIES"
  shows "policy_route_map (bl_maps (bpf_loader_update_policy_routes routes ldr)) =
    map (policy_map_entry routes) [0..<MAX_BPF_POLICIES]"
proof -
  obtain a b c d e f g h i j k l n p q r where
    "policy_route_map (bl_maps ldr) = [a, b, c, d, e, f, g, h, i, j, k, l, n, p, q, r]"
    using assms(2) by (auto simp: MAX_BPF_POLICIES_def eval_nat_numeral length_Suc_conv)
  then show ?thesis
    using assms(1) by (simp add: bpf_loader_update_policy_routes_def array_modify_def MAX_BPF_POLICIES_def upt_rec)
qed

lemma policy_group_entries:
  assumes "\<forall>r \<in> set routes. parsed_route r" "n \<le> length routes"
  shows "policy_group src (map (policy_map_entry routes) [n..<n + k]) =
    (case find (\<lambda>r. pr_enabled r \<and> pr_prefix_len r \<noteq> 0 \<and> cidr_covers r src \<and> host_bits_clear r)
       (take k (drop n routes)) of Some r \<Rightarrow> pr_target_group_id r | None \<Rightarrow> 0)"
  using assms(2)
proof (induction k arbitrary: n)
  case (Suc k)
  show ?case
  proof (cases "n = length routes")
    case True
    have "policy_group src (map (policy_map_entry routes) xs) = 0" if "\<forall>x \<in> set xs. length routes \<le> x" for xs
      using that by (induction xs) (auto simp: policy_map_entry_def zero_policy_def)
    from this [of "[n..<n + Suc k]"] show ?thesis using True by (simp del: upt_Suc)
  next
    case False
    let ?r = "routes ! n"
    have r: "parsed_route ?r" using False Suc.prems assms(1) by simp
    have "[n..<n + Suc k] = n # [Suc n..<Suc n + k]" using upt_conv_Cons [of n "n + Suc k"] by simp
    moreover have "drop n routes = ?r # drop (Suc n) routes" using False Suc.prems by (simp add: Cons_nth_drop_Suc)
    ultimately show ?thesis
      using Suc.IH [of "Suc n"] False Suc.prems route_matches [OF r, of src]
      by (auto simp: policy_map_entry_def zero_policy_def)
  qed
qed simp

text \<open>
  C14. Policy routing from the text of the configuration to the packet: when the routes of
  the LAN, each parsed from its CIDR text, are written to the policy map, a packet from
  \<open>src\<close> is assigned the group of the first enabled route (among the first sixteen) whose
  prefix is not empty, covers \<open>src\<close>, and whose text has no host bits set; group 0
  otherwise. In particular a route written as \<open>10.10.20.1/24\<close> never matches.
\<close>

theorem policy_routes_match_cidr:
  assumes "\<forall>r \<in> set routes. parsed_route r" "fd_policy_route ldr"
    "length (policy_route_map (bl_maps ldr)) = MAX_BPF_POLICIES"
  shows "policy_group src (take MAX_BPF_POLICIES
      (policy_route_map (bl_maps (bpf_loader_update_policy_routes routes ldr)))) =
    (case find (\<lambda>r. pr_enabled r \<and> pr_prefix_len r \<noteq> 0 \<and> cidr_covers r src \<and> host_bits_clear r)
       (take MAX_BPF_POLICIES routes) of Some r \<Rightarrow> pr_target_group_id r | None \<Rightarrow> 0)"
  using policy_table_installed [OF assms(2,3), of routes] policy_group_entries [OF assms(1), of 0 src MAX_BPF_POLICIES]
  by simp

definition sample_route :: "string \<Rightarrow> policy_route" where
  "sample_route s = (case parse_cidr_subnet s of (ip, nm, pfx) \<Rightarrow>
     \<lparr>pr_subnet_str = s, pr_subnet_ip = ip, pr_netmask = nm, pr_prefix_len = pfx, pr_gateway_ip_str = [],
      pr_gateway_ip = 0, pr_target_group = ''Fleet'', pr_target_group_id = 3, pr_description = [], pr_enabled = True\<rparr>)"

theorem policy_routes_match_cidr_witness:
  "policy_group (str_to_ip ''10.10.20.7'') (take MAX_BPF_POLICIES (policy_route_map (bl_maps
     (bpf_loader_update_policy_routes [sample_route ''10.10.20.0/24''] sample_loader)))) = 3 \<and>
   policy_group (str_to_ip ''10.10.20.7'') (take MAX_BPF_POLICIES (policy_route_map (bl_maps
     (bpf_loader_update_policy_routes [sample_route ''10.10.20.1/24''] sample_loader)))) = 0"
proof -
  have p: "parsed_route (sample_route s)" for s
    by (auto simp: parsed_route_def sample_route_def split: prod.split)
  have s: "fd_policy_route sample_loader" "length (policy_route_map (bl_maps sample_loader)) = MAX_BPF_POLICIES"
    by (simp_all add: sample_loader_def empty_router_maps_def)
  have "pr_enabled (sample_route ''10.10.20.0/24'') \<and> pr_prefix_len (sample_route ''10.10.20.0/24'') \<noteq> 0 \<and>
      cidr_covers (sample_route ''10.10.20.0/24'') (str_to_ip ''10.10.20.7'') \<and>
      host_bits_clear (sample_route ''10.10.20.0/24'') \<and> pr_target_group_id (sample_route ''10.10.20.0/24'') = 3"
    "\<not> host_bits_clear (sample_route ''10.10.20.1/24'')"
    by code_simp+
  then show ?thesis
    using policy_routes_match_cidr [of "[sample_route ''10.10.20.0/24'']", OF _ s]
      policy_routes_match_cidr [of "[sample_route ''10.10.20.1/24'']", OF _ s] p
    by (simp add: MAX_BPF_POLICIES_def)
qed

end
